(* ===== verification/Prelude.thy ===== *)
theory Prelude
  imports Complex_Main
begin

text \<open>
  Shared vocabulary of the development: how C++ exceptions and failed assertions are
  represented, the fragment of \<^verbatim>\<open>std::string\<close> arithmetic the parsers use (positions of type
  \<^verbatim>\<open>size_type\<close>, with the wrap-around of a 64-bit unsigned type written out), the contract of
  a left-to-right character scanner, and the comma separated printing loop that every
  \<^verbatim>\<open>as_text_...\<close> function of \<^verbatim>\<open>libpq-raii.hpp\<close> repeats.
\<close>

section \<open>Faults\<close>

text \<open>
  The exceptions the code throws or lets escape from the standard library, and the abort of a
  failed \<^verbatim>\<open>assert\<close>.  A function that may fail returns \<open>fault + 'a\<close>.
\<close>

datatype exn =
    Out_of_range
  | Invalid_argument
  | Domain_error string
  | Runtime_error string
  | Logic_error string

datatype fault =
    Exn exn
  | Assert_failed

named_theorems scan_simps \<open>unfolding rules for the character scanners\<close>

section \<open>Characters and positions\<close>

abbreviation dquote :: char where "dquote \<equiv> CHR 0x22"
abbreviation backslash :: char where "backslash \<equiv> CHR 0x5C"
abbreviation nul :: char where "nul \<equiv> CHR 0x00"
abbreviation newline :: char where "newline \<equiv> CHR 0x0A"
abbreviation carriage_return :: char where "carriage_return \<equiv> CHR 0x0D"

text \<open>\<^verbatim>\<open>i - 1\<close> on \<^verbatim>\<open>size_type\<close>: zero wraps to the largest 64-bit value.\<close>

definition sz_dec :: "nat \<Rightarrow> nat" where
  "sz_dec i = (if i = 0 then 2 ^ 64 - 1 else i - 1)"

text \<open>
  \<^verbatim>\<open>end_pos-start_pos+1\<close> on \<^verbatim>\<open>size_type\<close>, for a nonzero \<^verbatim>\<open>start_pos\<close>: the difference is
  taken modulo \<open>2 ^ 64\<close>, so that an empty span (\<^verbatim>\<open>end_pos == start_pos - 1\<close>) is 0 and an
  \<^verbatim>\<open>end_pos\<close> further to the left wraps to a huge count.
\<close>

definition sz_span :: "nat \<Rightarrow> nat \<Rightarrow> nat" where
  "sz_span e s = (if s \<le> e + 1 then e + 1 - s else e + 1 + 2 ^ 64 - s)"

text \<open>\<^verbatim>\<open>std::string::substr(pos, count)\<close> throws when \<^verbatim>\<open>pos\<close> is past the end.\<close>

definition substr :: "string \<Rightarrow> nat \<Rightarrow> nat \<Rightarrow> fault + string" where
  "substr s pos n = (if length s < pos then Inl (Exn Out_of_range) else Inr (take n (drop pos s)))"

text \<open>\<^verbatim>\<open>std::string(const char *)\<close> and every \<^verbatim>\<open>c_str()\<close> consumer stop at the first NUL.\<close>

definition c_string :: "string \<Rightarrow> string" where
  "c_string s = takeWhile (\<lambda>c. c \<noteq> nul) s"

lemma sz_dec_pos [simp]: "0 < i \<Longrightarrow> sz_dec i = i - 1"
  by (simp add: sz_dec_def)

lemma sz_dec_Suc [simp]: "sz_dec (Suc i) = i"
  by (simp add: sz_dec_def)

lemma sz_span_le [simp]: "s \<le> e + 1 \<Longrightarrow> sz_span e s = e + 1 - s"
  by (simp add: sz_span_def)

lemma substr_ok [simp]: "pos \<le> length s \<Longrightarrow> substr s pos n = Inr (take n (drop pos s))"
  by (simp add: substr_def)

lemma substr_middle: "substr (pre @ mid @ suf) (length pre) (length mid) = Inr mid"
  by simp

lemma nth_middle [simp]: "(pre @ c # suf) ! length pre = c"
  by (simp add: nth_append)

lemma nth_before_middle [simp]: "pre \<noteq> [] \<Longrightarrow> (pre @ suf) ! (length pre - Suc 0) = last pre"
  by (simp add: nth_append last_conv_nth)

section \<open>Scanning characters from left to right\<close>

text \<open>
  \<open>chain P p xs\<close>: every character of \<open>xs\<close> stands in relation \<open>P\<close> to the character
  before it, \<open>p\<close> being the one before the first.
\<close>

fun chain :: "(char \<Rightarrow> char \<Rightarrow> bool) \<Rightarrow> char \<Rightarrow> string \<Rightarrow> bool" where
  "chain P p [] = True"
| "chain P p (c # cs) = (P p c \<and> chain P c cs)"

lemma chain_append [simp]:
  "chain P p (xs @ ys) = (chain P p xs \<and> chain P (if xs = [] then p else last xs) ys)"
  by (induction xs arbitrary: p) auto

lemma chain_indep: "(\<And>p c. c \<in> set xs \<Longrightarrow> P p c) \<Longrightarrow> chain P p xs"
  by (induction xs arbitrary: p) auto

text \<open>
  The contract that the three parsers of \<^verbatim>\<open>libpq-raii.hpp\<close> share: a character that is inert
  in a state (seen with its predecessor) is skipped without a change of state.
\<close>

locale char_scanner =
  fixes run :: "string \<Rightarrow> nat \<Rightarrow> 'st \<Rightarrow> 'r"
    and inert :: "'st \<Rightarrow> char \<Rightarrow> char \<Rightarrow> bool"
  assumes skip: "0 < i \<Longrightarrow> i < length input \<Longrightarrow> inert st (input ! (i - 1)) (input ! i)
    \<Longrightarrow> run input i st = run input (Suc i) st"
begin

lemma skip_chain:
  assumes "pre \<noteq> []" and "chain (inert st) (last pre) xs"
  shows "run (pre @ xs @ suf) (length pre) st = run (pre @ xs @ suf) (length pre + length xs) st"
  using assms
proof (induction xs arbitrary: pre)
  case Nil
  then show ?case by simp
next
  case (Cons x xs)
  let ?input = "pre @ (x # xs) @ suf"
  have at: "?input ! length pre = x" and before: "?input ! (length pre - 1) = last pre"
    using Cons.prems(1) by simp_all
  have "run ?input (length pre) st = run ?input (Suc (length pre)) st"
    using Cons.prems by (intro skip) (simp_all add: at before)
  also have "\<dots> = run ((pre @ [x]) @ xs @ suf) (length (pre @ [x])) st" by simp
  also have "\<dots> = run ((pre @ [x]) @ xs @ suf) (length (pre @ [x]) + length xs) st"
    using Cons.prems(2) by (intro Cons.IH) simp_all
  finally show ?case by simp
qed

end

section \<open>Comma separated printing\<close>

text \<open>
  \<^verbatim>\<open>int i = 0; for (m : xs) { if (i++ > 0) text += ","; text += m; }\<close>, started with the
  counter at \<open>i\<close>.
\<close>

fun comma_separated :: "nat \<Rightarrow> string list \<Rightarrow> string" where
  "comma_separated i [] = []"
| "comma_separated i (m # ms) = (if i > 0 then '','' else []) @ m @ comma_separated (Suc i) ms"

lemma comma_separated_Suc [simp]:
  "comma_separated (Suc i) ms = concat (map (\<lambda>m. CHR '','' # m) ms)"
  by (induction ms arbitrary: i) auto


lemma comma_separated_two:
  "comma_separated 0 (m # m' # ms) = m @ CHR '','' # comma_separated 0 (m' # ms)"
  by simp


section \<open>Text formats\<close>

text \<open>
  The contract between a printer of the \<^verbatim>\<open>as_text_\<close> family and its parser of the
  \<^verbatim>\<open>from_text_\<close> family: on valid values the parser returns what the text denotes.
\<close>

locale text_format =
  fixes valid :: "'a \<Rightarrow> bool" and print_text :: "'a \<Rightarrow> string"
    and parse_text :: "string \<Rightarrow> 'r" and denotes :: "'a \<Rightarrow> 'r"
  assumes parse_print: "valid x \<Longrightarrow> parse_text (print_text x) = denotes x"
begin

lemma unambiguous:
  assumes "valid x" and "valid y" and "print_text x = print_text y"
  shows "denotes x = denotes y"
  using parse_print [OF assms(1)] parse_print [OF assms(2)] assms(3) by simp

lemma parse_print_map:
  assumes "valid x" and "parse_text (print_text x) = r"
  shows "r = denotes x"
  using assms parse_print by simp

end


section \<open>Sequences of assignments that may throw\<close>

text \<open>
  The body of a \<^verbatim>\<open>try\<close> block that fills an object field by field: each statement either
  updates the object or throws, and what was assigned before the throw stays assigned.
\<close>

type_synonym 's action = "'s \<Rightarrow> fault option \<times> 's"

definition assign :: "fault + 'v \<Rightarrow> ('v \<Rightarrow> 's \<Rightarrow> 's) \<Rightarrow> 's action" where
  "assign r upd s = (case r of Inl f \<Rightarrow> (Some f, s) | Inr v \<Rightarrow> (None, upd v s))"

fun run_actions :: "'s action list \<Rightarrow> 's action" where
  "run_actions [] s = (None, s)"
| "run_actions (a # as) s =
     (case a s of (None, s') \<Rightarrow> run_actions as s' | (Some f, s') \<Rightarrow> (Some f, s'))"

lemma assign_simps [simp]:
  "assign (Inr v) upd s = (None, upd v s)"
  "assign (Inl f) upd s = (Some f, s)"
  by (simp_all add: assign_def)

lemma run_actions_completes:
  "fst (run_actions as s) = None \<Longrightarrow> a \<in> set as \<Longrightarrow> \<exists>s'. fst (a s') = None"
proof (induction as arbitrary: s)
  case (Cons b bs)
  obtain f s' where b: "b s = (f, s')" by fastforce
  with Cons.prems(1) have "f = None" by (cases f) auto
  with b Cons show ?case by (cases "a = b") (auto intro: exI [of _ s])
qed simp

text \<open>Exceptions are values of a sum; these two compose computations that may throw.\<close>

definition bind_exn :: "fault + 'a \<Rightarrow> ('a \<Rightarrow> fault + 'b) \<Rightarrow> fault + 'b" where
  "bind_exn r f = (case r of Inl e \<Rightarrow> Inl e | Inr v \<Rightarrow> f v)"

definition map_exn :: "('a \<Rightarrow> 'b) \<Rightarrow> fault + 'a \<Rightarrow> fault + 'b" where
  "map_exn f r = (case r of Inl e \<Rightarrow> Inl e | Inr v \<Rightarrow> Inr (f v))"

lemma bind_exn_simps [simp]:
  "bind_exn (Inl e) f = Inl e"
  "bind_exn (Inr v) f = f v"
  by (simp_all add: bind_exn_def)

lemma map_exn_simps [simp]:
  "map_exn g (Inl e) = Inl e"
  "map_exn g (Inr v) = Inr (g v)"
  by (simp_all add: map_exn_def)

lemma bind_exn_Inr_iff: "bind_exn r f = Inr y \<longleftrightarrow> (\<exists>x. r = Inr x \<and> f x = Inr y)"
  by (cases r) simp_all

lemma map_exn_Inr_iff: "map_exn g r = Inr y \<longleftrightarrow> (\<exists>x. r = Inr x \<and> g x = y)"
  by (cases r) simp_all

end
