(* ===== verification/CxxStd.thy ===== *)
theory CxxStd
  imports Prelude
begin

text \<open>
  The parts of the C++ standard library that the sources use on numbers and maps:
  \<^verbatim>\<open>std::stoi\<close>, \<^verbatim>\<open>std::stod\<close>, \<^verbatim>\<open>std::to_string\<close>, \<^verbatim>\<open>printf\<close>'s \<^verbatim>\<open>%f\<close> and
  \<^verbatim>\<open>unordered_map::at\<close>.  A \<^verbatim>\<open>double\<close> is a rational number: the rounding of binary
  floating point is not modelled, nor are infinities and NaN, which no column of the database
  and no clock produces.
\<close>

section \<open>Decimal digits\<close>

definition is_space_char :: "char \<Rightarrow> bool" where
  "is_space_char c \<longleftrightarrow> c \<in> {CHR '' '', CHR 0x09, CHR 0x0A, CHR 0x0B, CHR 0x0C, CHR 0x0D}"

definition is_digit_char :: "char \<Rightarrow> bool" where
  "is_digit_char c \<longleftrightarrow> c \<in> set ''0123456789''"

definition digit_value :: "char \<Rightarrow> int" where
  "digit_value c = of_char c - 48"

definition digit_char :: "nat \<Rightarrow> char" where
  "digit_char n = ''0123456789'' ! n"

definition digits_value :: "string \<Rightarrow> int" where
  "digits_value ds = foldl (\<lambda>a c. 10 * a + digit_value c) 0 ds"

fun show_nat :: "nat \<Rightarrow> string" where
  "show_nat n = (if n < 10 then [digit_char n] else show_nat (n div 10) @ [digit_char (n mod 10)])"

declare show_nat.simps [simp del]

text \<open>\<^verbatim>\<open>std::to_string(int)\<close>\<close>

definition show_int :: "int \<Rightarrow> string" where
  "show_int i = (if i < 0 then CHR ''-'' # show_nat (nat (- i)) else show_nat (nat i))"

section \<open>Reading numbers\<close>

definition split_sign :: "string \<Rightarrow> bool \<times> string" where
  "split_sign s = (case s of
      [] \<Rightarrow> (False, [])
    | c # cs \<Rightarrow> if c = CHR ''-'' then (True, cs) else if c = CHR ''+'' then (False, cs) else (False, s))"

text \<open>
  \<^verbatim>\<open>std::stoi\<close>: leading white space, a sign, the longest run of digits; the rest is ignored.
  No digits is \<^verbatim>\<open>std::invalid_argument\<close>, a value outside \<^verbatim>\<open>int\<close> \<^verbatim>\<open>std::out_of_range\<close>.
\<close>

definition stoi :: "string \<Rightarrow> fault + int" where
  "stoi s =
     (let (neg, s2) = split_sign (dropWhile is_space_char (c_string s));
          ds = takeWhile is_digit_char s2;
          n = (if neg then - digits_value ds else digits_value ds)
      in if ds = [] then Inl (Exn Invalid_argument)
         else if n < - (2 ^ 31) \<or> 2 ^ 31 \<le> n then Inl (Exn Out_of_range)
         else Inr n)"

text \<open>\<^verbatim>\<open>std::stod\<close> on decimal notation, with an optional fraction and exponent.\<close>

definition exponent_of :: "string \<Rightarrow> int" where
  "exponent_of s = (case s of
      [] \<Rightarrow> 0
    | c # cs \<Rightarrow>
        (if c = CHR ''e'' \<or> c = CHR ''E'' then
           (let (neg, s2) = split_sign cs; ds = takeWhile is_digit_char s2
            in if neg then - digits_value ds else digits_value ds)
         else 0))"

definition scale10 :: "int \<Rightarrow> rat \<Rightarrow> rat" where
  "scale10 e x = (if 0 \<le> e then x * 10 ^ nat e else x / 10 ^ nat (- e))"

definition stod :: "string \<Rightarrow> fault + rat" where
  "stod s =
     (let (neg, s2) = split_sign (dropWhile is_space_char (c_string s));
          whole = takeWhile is_digit_char s2;
          s3 = dropWhile is_digit_char s2;
          frac = (case s3 of [] \<Rightarrow> [] | c # cs \<Rightarrow> if c = CHR ''.'' then takeWhile is_digit_char cs else []);
          s4 = (case s3 of [] \<Rightarrow> [] | c # cs \<Rightarrow> if c = CHR ''.'' then dropWhile is_digit_char cs else s3);
          m = scale10 (exponent_of s4 - int (length frac)) (of_int (digits_value (whole @ frac)))
      in if whole @ frac = [] then Inl (Exn Invalid_argument)
         else Inr (if neg then - m else m))"

section \<open>Printing a number with six decimals\<close>

definition pad_left :: "nat \<Rightarrow> string \<Rightarrow> string" where
  "pad_left n s = replicate (n - length s) (CHR ''0'') @ s"

definition show_f :: "rat \<Rightarrow> string" where
  "show_f x =
     (let n = nat (round (\<bar>x\<bar> * 10 ^ 6))
      in (if x < 0 then ''-'' else []) @ show_nat (n div 10 ^ 6) @ ''.'' @ pad_left 6 (show_nat (n mod 10 ^ 6)))"

text \<open>Assigning a \<^verbatim>\<open>double\<close> to an \<^verbatim>\<open>int\<close> truncates towards zero.\<close>

definition trunc :: "rat \<Rightarrow> int" where
  "trunc x = (if 0 \<le> x then \<lfloor>x\<rfloor> else \<lceil>x\<rceil>)"

section \<open>Maps\<close>

text \<open>\<^verbatim>\<open>unordered_map::at\<close>\<close>

definition map_at :: "('k \<rightharpoonup> 'v) \<Rightarrow> 'k \<Rightarrow> fault + 'v" where
  "map_at m k = (case m k of None \<Rightarrow> Inl (Exn Out_of_range) | Some v \<Rightarrow> Inr v)"

lemma map_at_simps [simp]:
  "m k = Some v \<Longrightarrow> map_at m k = Inr v"
  "m k = None \<Longrightarrow> map_at m k = Inl (Exn Out_of_range)"
  by (simp_all add: map_at_def)

lemma map_at_Inr_iff: "map_at m k = Inr v \<longleftrightarrow> m k = Some v"
  by (simp add: map_at_def split: option.splits)

section \<open>Reading back what was printed\<close>

lemma digits_value_snoc: "digits_value (ds @ [c]) = 10 * digits_value ds + digit_value c"
  by (simp add: digits_value_def)

lemma digit_less_10: "n < 10 \<Longrightarrow> n \<in> {0, 1, 2, 3, 4, 5, 6, 7, 8, 9::nat}"
  by auto

lemma digit_char_ok:
  assumes "n < 10"
  shows "is_digit_char (digit_char n)" and "digit_value (digit_char n) = int n"
    and "digit_char n \<noteq> nul"
proof -
  have "is_digit_char (digit_char n) \<and> digit_value (digit_char n) = int n \<and> digit_char n \<noteq> nul"
    using digit_less_10 [OF assms]
    by (elim insertE emptyE) (simp_all add: is_digit_char_def digit_char_def digit_value_def)
  then show "is_digit_char (digit_char n)" and "digit_value (digit_char n) = int n"
    and "digit_char n \<noteq> nul" by blast+
qed

lemma show_nat_ok:
  "show_nat n \<noteq> [] \<and> (\<forall>c\<in>set (show_nat n). is_digit_char c \<and> c \<noteq> nul) \<and> digits_value (show_nat n) = int n"
proof (induction n rule: show_nat.induct)
  case (1 n)
  show ?case
  proof (cases "n < 10")
    case True
    then show ?thesis
      by (simp add: show_nat.simps [of n] digit_char_ok digits_value_def)
  next
    case False
    with "1.IH" have IH: "\<forall>c\<in>set (show_nat (n div 10)). is_digit_char c \<and> c \<noteq> nul"
      "digits_value (show_nat (n div 10)) = int (n div 10)" by simp_all
    have "int n = 10 * int (n div 10) + int (n mod 10)" by presburger
    with False IH show ?thesis
      by (auto simp: show_nat.simps [of n] digits_value_snoc digit_char_ok)
  qed
qed

lemma digit_char_classes:
  "is_digit_char c \<Longrightarrow> \<not> is_space_char c \<and> c \<noteq> CHR ''-'' \<and> c \<noteq> CHR ''+''"
  by (auto simp: is_digit_char_def is_space_char_def)

lemma c_string_show_int: "c_string (show_int i) = show_int i"
proof -
  have "\<forall>c\<in>set (show_int i). c \<noteq> nul" using show_nat_ok by (auto simp: show_int_def)
  then show ?thesis unfolding c_string_def by (simp add: takeWhile_eq_all_conv)
qed

lemma takeWhile_show_nat: "takeWhile is_digit_char (show_nat n) = show_nat n"
  using show_nat_ok [of n] by (simp add: takeWhile_eq_all_conv)

lemma show_nat_Cons: obtains c cs where "show_nat n = c # cs" "is_digit_char c"
  using show_nat_ok [of n] by (cases "show_nat n") auto

lemma stoi_show_int:
  assumes "- (2 ^ 31) \<le> i" and "i < 2 ^ 31"
  shows "stoi (show_int i) = Inr i"
proof (cases "i < 0")
  case True
  then show ?thesis
    using assms show_nat_ok [of "nat (- i)"]
    by (simp add: stoi_def c_string_show_int)
      (simp add: show_int_def split_sign_def is_space_char_def takeWhile_show_nat)
next
  case False
  obtain c cs where c: "show_nat (nat i) = c # cs" "is_digit_char c" by (rule show_nat_Cons)
  have "split_sign (dropWhile is_space_char (show_int i)) = (False, show_nat (nat i))"
    using False c digit_char_classes [OF c(2)] by (simp add: show_int_def split_sign_def)
  then show ?thesis
    using assms False show_nat_ok [of "nat i"]
    by (simp add: stoi_def c_string_show_int takeWhile_show_nat)
qed

end
