(* ===== verification/PqResult.thy ===== *)
theory PqResult
  imports CxxStd
begin

text \<open>
  \<^verbatim>\<open>PG::result\<close> and the accessors of the namespace \<^verbatim>\<open>PQ\<close> on it.  A result is what libpq
  documents: a status, the names of the columns, and rows of cells that are text or SQL
  \<^verbatim>\<open>NULL\<close>.  libpq itself is not modelled beyond these documented accessors.
\<close>

datatype exec_status =
    PGRES_EMPTY_QUERY
  | PGRES_COMMAND_OK
  | PGRES_TUPLES_OK
  | PGRES_COPY_OUT
  | PGRES_COPY_IN
  | PGRES_COPY_BOTH
  | PGRES_SINGLE_TUPLE
  | PGRES_BAD_RESPONSE
  | PGRES_NONFATAL_ERROR
  | PGRES_FATAL_ERROR

type_synonym error_fields = "(char \<times> string option) list"

record pg_result =
  res_status :: exec_status
  res_fnames :: "string list"
  res_rows :: "string option list list"
  res_error_message :: string
  res_diag :: "char \<Rightarrow> string option"

text \<open>
  \<^verbatim>\<open>PQgetvalue\<close> returns the empty string for a \<^verbatim>\<open>NULL\<close> cell and a null pointer (\<open>None\<close>)
  for a cell that does not exist; \<^verbatim>\<open>PQgetisnull\<close> says 1 for both.
\<close>

definition cell_exists :: "pg_result \<Rightarrow> nat \<Rightarrow> nat \<Rightarrow> bool" where
  "cell_exists res row col \<longleftrightarrow> row < length (res_rows res) \<and> col < length (res_rows res ! row)"

definition PQgetvalue :: "pg_result \<Rightarrow> nat \<Rightarrow> nat \<Rightarrow> string option" where
  "PQgetvalue res row col =
     (if cell_exists res row col
      then (case res_rows res ! row ! col of None \<Rightarrow> Some [] | Some v \<Rightarrow> Some (c_string v))
      else None)"

definition getisnull :: "pg_result \<Rightarrow> nat \<Rightarrow> nat \<Rightarrow> bool" where
  "getisnull res row col =
     (if cell_exists res row col then res_rows res ! row ! col = None else True)"

definition ntuples :: "pg_result \<Rightarrow> nat" where
  "ntuples res = length (res_rows res)"

text \<open>Constructing a \<^verbatim>\<open>std::string\<close> from a null pointer throws \<^verbatim>\<open>std::logic_error\<close>.\<close>

definition string_of_ptr :: "string option \<Rightarrow> fault + string" where
  "string_of_ptr p = (case p of None \<Rightarrow> Inl (Exn (Logic_error ''construction from null'')) | Some s \<Rightarrow> Inr s)"

definition getvalue :: "pg_result \<Rightarrow> nat \<Rightarrow> nat \<Rightarrow> fault + string" where
  "getvalue res row col = string_of_ptr (PQgetvalue res row col)"

definition getnullable :: "pg_result \<Rightarrow> nat \<Rightarrow> nat \<Rightarrow> fault + string option" where
  "getnullable res row col =
     (if getisnull res row col then Inr None
      else map_exn Some (string_of_ptr (PQgetvalue res row col)))"

definition fnumbers :: "pg_result \<Rightarrow> (string \<rightharpoonup> nat)" where
  "fnumbers res = foldl (\<lambda>m (i, name). m(name \<mapsto> i)) Map.empty (enumerate 0 (res_fnames res))"

text \<open>
  \<^verbatim>\<open>PQ::from_text\<close> and \<^verbatim>\<open>PQ::resultErrorFields\<close>: all the diagnostic fields, keyed by the
  \<^verbatim>\<open>PG_DIAG_*\<close> characters; \<^verbatim>\<open>std::map\<close> iterates them in the order of the characters.
\<close>

definition PG_DIAG_codes :: "char list" where
  "PG_DIAG_codes = ''SVCMDHPpqWstcdnFLR''"

definition resultErrorFields :: "pg_result \<Rightarrow> (char \<rightharpoonup> string option)" where
  "resultErrorFields res =
     (\<lambda>c. if c \<in> set PG_DIAG_codes then Some (map_option c_string (res_diag res c)) else None)"

text \<open>\<^verbatim>\<open>PQ::values_to_vector\<close> on such a map: the values in key order.\<close>

definition PG_DIAG_sorted :: "char list" where
  "PG_DIAG_sorted = ''CDFHLMPRSVWcdnpqst''"

definition values_to_vector :: "(char \<rightharpoonup> string option) \<Rightarrow> string option list" where
  "values_to_vector m = concat (map (\<lambda>c. case m c of None \<Rightarrow> [] | Some v \<Rightarrow> [v]) PG_DIAG_sorted)"

lemma getvalue_cell:
  "cell_exists res row col \<Longrightarrow> getvalue res row col =
     Inr (case res_rows res ! row ! col of None \<Rightarrow> [] | Some v \<Rightarrow> c_string v)"
  by (simp add: getvalue_def PQgetvalue_def string_of_ptr_def split: option.splits)

lemma getnullable_cell:
  "cell_exists res row col \<Longrightarrow> getnullable res row col =
     Inr (map_option c_string (res_rows res ! row ! col))"
  by (simp add: getnullable_def getisnull_def PQgetvalue_def string_of_ptr_def split: option.splits)

lemma sorted_PG_DIAG: "sorted_wrt (\<lambda>a b. (of_char a :: nat) < of_char b) PG_DIAG_sorted"
  by (simp add: PG_DIAG_sorted_def)

lemma set_PG_DIAG: "set PG_DIAG_sorted = set PG_DIAG_codes"
  by (auto simp: PG_DIAG_sorted_def PG_DIAG_codes_def)

lemma length_values_to_vector: "length (values_to_vector (resultErrorFields res)) = 18"
  by (simp add: values_to_vector_def resultErrorFields_def PG_DIAG_sorted_def PG_DIAG_codes_def)

text \<open>The last column of a name wins; a name that no column has is absent.\<close>

lemma fnumbers_snoc:
  "fnumbers (res\<lparr>res_fnames := ns @ [n]\<rparr>) = (fnumbers (res\<lparr>res_fnames := ns\<rparr>))(n \<mapsto> length ns)"
  by (simp add: fnumbers_def enumerate_append_eq)

lemma fnumbers_Some: "fnumbers res name = Some i \<Longrightarrow> i < length (res_fnames res) \<and> res_fnames res ! i = name"
proof -
  have "fnumbers (res\<lparr>res_fnames := ns\<rparr>) name = Some i \<Longrightarrow> i < length ns \<and> ns ! i = name" for ns
  proof (induction ns rule: rev_induct)
    case Nil
    then show ?case by (simp add: fnumbers_def)
  next
    case (snoc n ns)
    then show ?case by (auto simp: fnumbers_snoc nth_append split: if_splits)
  qed
  from this [of "res_fnames res"] show "fnumbers res name = Some i \<Longrightarrow> ?thesis" by simp
qed

lemma fnumbers_distinct:
  assumes "distinct (res_fnames res)" and "i < length (res_fnames res)"
  shows "fnumbers res (res_fnames res ! i) = Some i"
proof -
  have "distinct ns \<Longrightarrow> i < length ns \<Longrightarrow> fnumbers (res\<lparr>res_fnames := ns\<rparr>) (ns ! i) = Some i" for ns
  proof (induction ns rule: rev_induct)
    case (snoc n ns)
    then show ?case by (auto simp: fnumbers_snoc nth_append less_Suc_eq)
  qed simp
  from this [of "res_fnames res"] assms show ?thesis by simp
qed

end
