(* ===== verification/CmdQueueMeta.thy ===== *)
theory CmdQueueMeta
  imports PqResult
begin

text \<open>
  The two objects built from a row of a result: \<^verbatim>\<open>CmdQueue\<close> (\<^verbatim>\<open>cmdqueue.cpp\<close>), the
  configuration of a queue, and \<^verbatim>\<open>QueueCmdMetadata\<close> (\<^verbatim>\<open>queuecmdmetadata.cpp\<close>), what all kinds
  of queue commands have in common.  Both constructors are \<^verbatim>\<open>noexcept\<close>: a \<^verbatim>\<open>try\<close> block of
  assignments (\<open>run_actions\<close>) whose exceptions make the object invalid.  The text of
  \<^verbatim>\<open>ex.what()\<close> for the exceptions of the standard library is a parameter (\<open>what\<close>).
\<close>

text \<open>\<^verbatim>\<open>PQ::getvalue(result, row_number, field_numbers.at(name))\<close> and its variants\<close>

definition column :: "pg_result \<Rightarrow> nat \<Rightarrow> (string \<rightharpoonup> nat) \<Rightarrow> string \<Rightarrow> fault + string" where
  "column res row field_numbers name = bind_exn (map_at field_numbers name) (getvalue res row)"

definition nullable_column :: "pg_result \<Rightarrow> nat \<Rightarrow> (string \<rightharpoonup> nat) \<Rightarrow> string \<Rightarrow> fault + string option" where
  "nullable_column res row field_numbers name =
     bind_exn (map_at field_numbers name) (getnullable res row)"

text \<open>\<^verbatim>\<open>if (not getisnull(...)) { s = getvalue(...); ... = f(s); }\<close>\<close>

definition parsed_column ::
    "pg_result \<Rightarrow> nat \<Rightarrow> (string \<rightharpoonup> nat) \<Rightarrow> string \<Rightarrow> (string \<Rightarrow> fault + 'v) \<Rightarrow> fault + 'v option" where
  "parsed_column res row field_numbers name f =
     bind_exn (map_at field_numbers name)
       (\<lambda>col. if getisnull res row col then Inr None
              else map_exn Some (bind_exn (getvalue res row col) f))"

section \<open>CmdQueue\<close>

record cmd_queue =
  cq_is_valid :: bool
  cq_validation_error_message :: string
  cq_cmd_class_identity :: string
  cq_cmd_class_relname :: string
  cq_cmd_signature_class_relname :: string
  cq_queue_runner_role :: "string option"
  cq_queue_notify_channel :: "string option"
  cq_queue_reselect_interval_msec :: int
  cq_queue_reselect_randomized_every_nth :: "int option"
  cq_queue_cmd_timeout_sec :: rat
  cq_ansi_fg :: string

text \<open>The members before the constructor's body; the two numbers are not initialised in C++.\<close>

definition cmd_queue_blank :: cmd_queue where
  "cmd_queue_blank = \<lparr>cq_is_valid = False, cq_validation_error_message = [],
     cq_cmd_class_identity = [], cq_cmd_class_relname = [], cq_cmd_signature_class_relname = [],
     cq_queue_runner_role = None, cq_queue_notify_channel = None,
     cq_queue_reselect_interval_msec = 0, cq_queue_reselect_randomized_every_nth = None,
     cq_queue_cmd_timeout_sec = 0, cq_ansi_fg = []\<rparr>"

definition cmd_queue_assignments :: "pg_result \<Rightarrow> nat \<Rightarrow> (string \<rightharpoonup> nat) \<Rightarrow> cmd_queue action list" where
  "cmd_queue_assignments result row_number field_numbers =
    [assign (column result row_number field_numbers ''cmd_class_identity'')
       (\<lambda>v q. q\<lparr>cq_cmd_class_identity := v\<rparr>),
     assign (column result row_number field_numbers ''cmd_class_relname'')
       (\<lambda>v q. q\<lparr>cq_cmd_class_relname := v\<rparr>),
     assign (column result row_number field_numbers ''cmd_signature_class_relname'')
       (\<lambda>v q. q\<lparr>cq_cmd_signature_class_relname := v\<rparr>),
     assign (nullable_column result row_number field_numbers ''queue_runner_role'')
       (\<lambda>v q. q\<lparr>cq_queue_runner_role := v\<rparr>),
     assign (nullable_column result row_number field_numbers ''queue_notify_channel'')
       (\<lambda>v q. q\<lparr>cq_queue_notify_channel := v\<rparr>),
     assign (bind_exn (column result row_number field_numbers ''queue_reselect_interval_msec'') stoi)
       (\<lambda>v q. q\<lparr>cq_queue_reselect_interval_msec := v\<rparr>),
     assign (parsed_column result row_number field_numbers ''queue_reselect_randomized_every_nth'' stoi)
       (\<lambda>v q. case v of None \<Rightarrow> q | Some n \<Rightarrow> q\<lparr>cq_queue_reselect_randomized_every_nth := Some n\<rparr>),
     assign (parsed_column result row_number field_numbers ''queue_cmd_timeout_sec'' stod)
       (\<lambda>v q. q\<lparr>cq_queue_cmd_timeout_sec := (case v of None \<Rightarrow> 0 | Some t \<Rightarrow> t)\<rparr>),
     assign (column result row_number field_numbers ''ansi_fg'')
       (\<lambda>v q. q\<lparr>cq_ansi_fg := v\<rparr>)]"

definition fault_text :: "(exn \<Rightarrow> string) \<Rightarrow> fault \<Rightarrow> string" where
  "fault_text what f = (case f of Exn e \<Rightarrow> what e | Assert_failed \<Rightarrow> [])"

definition cmd_queue_of_row ::
    "(exn \<Rightarrow> string) \<Rightarrow> pg_result \<Rightarrow> nat \<Rightarrow> (string \<rightharpoonup> nat) \<Rightarrow> cmd_queue" where
  "cmd_queue_of_row what result row_number field_numbers =
     (case run_actions (cmd_queue_assignments result row_number field_numbers) cmd_queue_blank of
        (None, q) \<Rightarrow> q\<lparr>cq_is_valid := True\<rparr>
      | (Some f, q) \<Rightarrow> q\<lparr>cq_validation_error_message :=
            ''Error parsing cmd_queue metadata for `'' @ c_string (cq_cmd_class_identity q) @
            ''` queue: '' @ fault_text what f,
          cq_is_valid := False\<rparr>)"

section \<open>QueueCmdMetadata\<close>

record cmd_meta =
  md_is_valid :: bool
  md_cmd_class_identity :: string
  md_cmd_class_relname :: string
  md_cmd_id :: string
  md_cmd_subid :: "string option"
  md_cmd_runtime_start :: rat
  md_cmd_runtime_end :: rat

definition cmd_meta_blank :: cmd_meta where
  "cmd_meta_blank = \<lparr>md_is_valid = False, md_cmd_class_identity = [], md_cmd_class_relname = [],
     md_cmd_id = [], md_cmd_subid = None, md_cmd_runtime_start = 0, md_cmd_runtime_end = 0\<rparr>"

definition cmd_meta_assignments :: "pg_result \<Rightarrow> nat \<Rightarrow> (string \<rightharpoonup> nat) \<Rightarrow> cmd_meta action list" where
  "cmd_meta_assignments result row_number field_numbers =
    [assign (column result row_number field_numbers ''cmd_class_identity'')
       (\<lambda>v m. m\<lparr>md_cmd_class_identity := v\<rparr>),
     assign (column result row_number field_numbers ''cmd_class_relname'')
       (\<lambda>v m. m\<lparr>md_cmd_class_relname := v\<rparr>),
     assign (column result row_number field_numbers ''cmd_id'') (\<lambda>v m. m\<lparr>md_cmd_id := v\<rparr>),
     assign (nullable_column result row_number field_numbers ''cmd_subid'')
       (\<lambda>v m. m\<lparr>md_cmd_subid := v\<rparr>)]"

definition cmd_meta_of_row :: "pg_result \<Rightarrow> nat \<Rightarrow> (string \<rightharpoonup> nat) \<Rightarrow> cmd_meta" where
  "cmd_meta_of_row result row_number field_numbers =
     (case run_actions (cmd_meta_assignments result row_number field_numbers) cmd_meta_blank of
        (None, m) \<Rightarrow> m\<lparr>md_is_valid := True\<rparr>
      | (Some f, m) \<Rightarrow> m\<lparr>md_is_valid := False\<rparr>)"

definition cmd_meta_of_args :: "string \<Rightarrow> string \<Rightarrow> string \<Rightarrow> string option \<Rightarrow> cmd_meta" where
  "cmd_meta_of_args cmd_class_identity cmd_class_relname cmd_id cmd_subid =
     cmd_meta_blank\<lparr>md_cmd_class_identity := cmd_class_identity,
       md_cmd_class_relname := cmd_class_relname, md_cmd_id := cmd_id, md_cmd_subid := cmd_subid\<rparr>"

text \<open>
  \<^verbatim>\<open>unix_timestamp\<close> divides the microseconds of the system clock by a million; the two stamps
  store it.
\<close>

definition unix_timestamp :: "int \<Rightarrow> rat" where
  "unix_timestamp clock_usec = of_int clock_usec / 1000000"

definition stamp_start_time :: "int \<Rightarrow> cmd_meta \<Rightarrow> cmd_meta" where
  "stamp_start_time clock_usec m = m\<lparr>md_cmd_runtime_start := unix_timestamp clock_usec\<rparr>"

definition stamp_end_time :: "int \<Rightarrow> cmd_meta \<Rightarrow> cmd_meta" where
  "stamp_end_time clock_usec m = m\<lparr>md_cmd_runtime_end := unix_timestamp clock_usec\<rparr>"

section \<open>Rows\<close>

text \<open>
  A row given by its columns: \<open>row_has res row fns name v\<close> says that the column exists and
  holds \<open>v\<close> in this row.
\<close>

definition row_has :: "pg_result \<Rightarrow> nat \<Rightarrow> (string \<rightharpoonup> nat) \<Rightarrow> string \<Rightarrow> string option \<Rightarrow> bool" where
  "row_has res row field_numbers name v \<longleftrightarrow>
     (case field_numbers name of None \<Rightarrow> False
      | Some col \<Rightarrow> cell_exists res row col \<and> res_rows res ! row ! col = v)"

lemma row_has_column:
  assumes "row_has res row fns name v"
  shows "column res row fns name = Inr (case v of None \<Rightarrow> [] | Some s \<Rightarrow> c_string s)"
    and "nullable_column res row fns name = Inr (map_option c_string v)"
    and "parsed_column res row fns name f =
      (case v of None \<Rightarrow> Inr None | Some s \<Rightarrow> map_exn Some (f (c_string s)))"
  using assms
  by (auto simp: row_has_def column_def nullable_column_def parsed_column_def getvalue_cell
      getnullable_cell getisnull_def split: option.splits)

lemma column_Inr_exists:
  "column res row fns name = Inr s \<Longrightarrow> \<exists>v. row_has res row fns name v"
  by (auto simp: column_def bind_exn_Inr_iff map_at_Inr_iff row_has_def getvalue_def
      PQgetvalue_def string_of_ptr_def split: option.splits if_splits)

lemma assign_None_iff: "assign r upd s = (None, s') \<longleftrightarrow> (\<exists>v. r = Inr v \<and> s' = upd v s)"
  by (auto simp: assign_def split: sum.splits)

text \<open>What a fully populated row of \<^verbatim>\<open>cmdqd.cmd_queue\<close> is turned into.\<close>

lemma cmd_queue_of_row_ok:
  assumes "row_has res row fns ''cmd_class_identity'' (Some ident)"
    and "row_has res row fns ''cmd_class_relname'' (Some rel)"
    and "row_has res row fns ''cmd_signature_class_relname'' (Some sig)"
    and "row_has res row fns ''queue_runner_role'' role"
    and "row_has res row fns ''queue_notify_channel'' chan"
    and "row_has res row fns ''queue_reselect_interval_msec'' (Some msec_text)"
    and "row_has res row fns ''queue_reselect_randomized_every_nth'' nth_text"
    and "row_has res row fns ''queue_cmd_timeout_sec'' tmo_text"
    and "row_has res row fns ''ansi_fg'' fg"
    and "stoi (c_string msec_text) = Inr msec"
    and "(case nth_text of None \<Rightarrow> Inr None | Some s \<Rightarrow> map_exn Some (stoi (c_string s))) = Inr nth_val"
    and "(case tmo_text of None \<Rightarrow> Inr None | Some s \<Rightarrow> map_exn Some (stod (c_string s))) = Inr tmo"
  shows "cmd_queue_of_row what res row fns =
    \<lparr>cq_is_valid = True, cq_validation_error_message = [],
     cq_cmd_class_identity = c_string ident, cq_cmd_class_relname = c_string rel,
     cq_cmd_signature_class_relname = c_string sig,
     cq_queue_runner_role = map_option c_string role,
     cq_queue_notify_channel = map_option c_string chan,
     cq_queue_reselect_interval_msec = msec,
     cq_queue_reselect_randomized_every_nth = nth_val,
     cq_queue_cmd_timeout_sec = (case tmo of None \<Rightarrow> 0 | Some t \<Rightarrow> t),
     cq_ansi_fg = (case fg of None \<Rightarrow> [] | Some s \<Rightarrow> c_string s)\<rparr>"
  using assms(10-12)
  by (simp add: cmd_queue_of_row_def cmd_queue_assignments_def cmd_queue_blank_def
      assms(1-9) [THEN row_has_column(1)] assms(1-9) [THEN row_has_column(2)]
      assms(1-9) [THEN row_has_column(3)] split: option.splits)

lemma cmd_meta_of_row_ok:
  assumes "row_has res row fns ''cmd_class_identity'' (Some ident)"
    and "row_has res row fns ''cmd_class_relname'' (Some rel)"
    and "row_has res row fns ''cmd_id'' (Some cid)"
    and "row_has res row fns ''cmd_subid'' subid"
  shows "cmd_meta_of_row res row fns =
    \<lparr>md_is_valid = True, md_cmd_class_identity = c_string ident, md_cmd_class_relname = c_string rel,
     md_cmd_id = c_string cid, md_cmd_subid = map_option c_string subid,
     md_cmd_runtime_start = 0, md_cmd_runtime_end = 0\<rparr>"
  by (simp add: cmd_meta_of_row_def cmd_meta_assignments_def cmd_meta_blank_def
      assms [THEN row_has_column(1)] assms [THEN row_has_column(2)])

end
