(* ===== verification/TextQuoting.thy ===== *)
theory TextQuoting
  imports Prelude
begin

text \<open>
  The quoting half of the text conversions of \<^verbatim>\<open>pq-raii/libpq-raii.hpp\<close>: \<^verbatim>\<open>double_quote\<close>,
  the printers \<^verbatim>\<open>as_text_array\<close>, \<^verbatim>\<open>as_text_composite_value\<close> and \<^verbatim>\<open>as_text_hstore\<close>, and
  the facts about escaped bodies that the parsers of the other theories rest on.  An
  \<^verbatim>\<open>unordered_map\<close> is the list of its pairs in iteration order.
\<close>

section \<open>Quoting\<close>

text \<open>\<^verbatim>\<open>std::regex_replace(unquoted, std::regex("\"|\\\\"), "\\$&")\<close>\<close>

definition escape_quoted :: "string \<Rightarrow> string" where
  "escape_quoted s = concat (map (\<lambda>c. if c = dquote \<or> c = backslash then [backslash, c] else [c]) s)"

definition double_quote :: "string \<Rightarrow> string" where
  "double_quote unquoted = [dquote] @ escape_quoted unquoted @ [dquote]"

definition NULL_text :: string where
  "NULL_text = ''NULL''"

definition as_text_array_opt :: "string option list \<Rightarrow> string" where
  "as_text_array_opt arrayish =
     ''{'' @ comma_separated 0
       (map (\<lambda>member. case member of Some m \<Rightarrow> double_quote m | None \<Rightarrow> NULL_text) arrayish) @ ''}''"

definition as_text_array :: "string list \<Rightarrow> string" where
  "as_text_array arrayish = ''{'' @ comma_separated 0 (map double_quote arrayish) @ ''}''"

text \<open>The iterator overload and the overload on containers of optional strings.\<close>

definition as_text_composite_strings :: "string list \<Rightarrow> string" where
  "as_text_composite_strings fields = ''('' @ comma_separated 0 (map double_quote fields) @ '')''"

definition as_text_composite_value :: "string option list \<Rightarrow> string" where
  "as_text_composite_value field_values =
     ''('' @ comma_separated 0
       (map (\<lambda>field. case field of Some v \<Rightarrow> double_quote v | None \<Rightarrow> NULL_text) field_values) @ '')''"

definition as_text_hstore_opt :: "(string \<times> string option) list \<Rightarrow> string" where
  "as_text_hstore_opt m = comma_separated 0
     (map (\<lambda>(k, v). double_quote k @ ''=>'' @
        (case v of Some x \<Rightarrow> double_quote x | None \<Rightarrow> NULL_text)) m)"

definition as_text_hstore :: "(string \<times> string) list \<Rightarrow> string" where
  "as_text_hstore m = comma_separated 0
     (map (\<lambda>(k, v). double_quote k @ ''=>'' @ double_quote v) m)"

lemma escape_quoted_Nil [simp]: "escape_quoted [] = []"
  by (simp add: escape_quoted_def)

lemma escape_quoted_Cons [simp]:
  "escape_quoted (c # cs) =
     (if c = dquote \<or> c = backslash then [backslash, c] else [c]) @ escape_quoted cs"
  by (simp add: escape_quoted_def)

lemma escape_quoted_append [simp]: "escape_quoted (xs @ ys) = escape_quoted xs @ escape_quoted ys"
  by (simp add: escape_quoted_def)

lemma escape_quoted_eq_Nil [simp]: "escape_quoted s = [] \<longleftrightarrow> s = []"
  by (cases s) auto

lemma escape_quoted_id: "set s \<inter> {dquote, backslash} = {} \<Longrightarrow> escape_quoted s = s"
  by (induction s) auto

section \<open>Bodies of quoted values\<close>

text \<open>
  The test by which every parser of the header recognises the end of a quoted value: a quote
  whose predecessor is not a backslash.
\<close>

definition bare_quote :: "char \<Rightarrow> char \<Rightarrow> bool" where
  "bare_quote p c \<longleftrightarrow> c = dquote \<and> p \<noteq> backslash"

definition ends_in_backslash :: "string \<Rightarrow> bool" where
  "ends_in_backslash s \<longleftrightarrow> s \<noteq> [] \<and> last s = backslash"

definition strip_backslashes :: "string \<Rightarrow> string" where
  "strip_backslashes s = filter (\<lambda>c. c \<noteq> backslash) s"

lemma ends_in_backslash_Nil [simp]: "\<not> ends_in_backslash []"
  by (simp add: ends_in_backslash_def)

lemma last_escape_quoted: "s \<noteq> [] \<Longrightarrow> last (escape_quoted s) = last s"
  by (induction s) auto

text \<open>Escaping leaves no bare quote inside the body, whatever precedes the body.\<close>

lemma chain_escape_quoted [simp]: "chain (\<lambda>p c. \<not> bare_quote p c) p (escape_quoted s)"
  by (induction s arbitrary: p) (auto simp: bare_quote_def)

lemma strip_escape_quoted [simp]: "strip_backslashes (escape_quoted s) = strip_backslashes s"
  by (induction s) (auto simp: strip_backslashes_def)

lemma strip_backslashes_id [simp]: "backslash \<notin> set s \<Longrightarrow> strip_backslashes s = s"
  unfolding strip_backslashes_def by (induction s) auto

lemma not_ends_in_backslash: "backslash \<notin> set s \<Longrightarrow> \<not> ends_in_backslash s"
  unfolding ends_in_backslash_def using last_in_set by fastforce

text \<open>The closing quote is recognised exactly when the value does not end in a backslash.\<close>

lemma bare_quote_after_body:
  "bare_quote (last (pre @ dquote # escape_quoted s)) dquote \<longleftrightarrow> \<not> ends_in_backslash s"
  by (cases "s = []") (auto simp: bare_quote_def ends_in_backslash_def last_escape_quoted)


text \<open>
  A body, standing between two quotes, in which the test finds no quote before the closing one
  and does find the closing one.
\<close>

definition closed_body :: "string \<Rightarrow> bool" where
  "closed_body b \<longleftrightarrow> chain (\<lambda>p c. \<not> bare_quote p c) dquote b \<and> \<not> ends_in_backslash b"

lemma closed_body_escape_quoted: "closed_body (escape_quoted s) \<longleftrightarrow> \<not> ends_in_backslash s"
  by (cases "s = []") (simp_all add: closed_body_def ends_in_backslash_def last_escape_quoted)

lemma closed_body_last: "closed_body b \<Longrightarrow> last (dquote # b) \<noteq> backslash"
  by (auto simp: closed_body_def ends_in_backslash_def)

end
