(* ===== verification/TextArray.thy ===== *)
theory TextArray
  imports TextQuoting
begin

text \<open>
  \<^verbatim>\<open>PQ::from_text_array\<close>, the parser of PostgreSQL's text form of a one-dimensional array.
  The loop is kept as the code has it: an index into the input, the depth and quoting flags, the
  three positions with 0 as "not set", and the values pushed so far.  Its value is \<open>None\<close> when
  it does not return, \<open>Some (Inl f)\<close> when it fails.
\<close>

record array_scan =
  arr_depth :: int
  arr_in_quotes :: bool
  arr_start_pos :: nat
  arr_end_pos :: nat
  arr_next_start_pos :: nat
  arr_result :: "string list"

definition array_scan_init :: array_scan where
  "array_scan_init = \<lparr>arr_depth = 0, arr_in_quotes = False, arr_start_pos = 1, arr_end_pos = 0,
     arr_next_start_pos = 0, arr_result = []\<rparr>"

text \<open>
  The \<^verbatim>\<open>if\<close>/\<^verbatim>\<open>else if\<close> chain on one character.  \<^verbatim>\<open>input.at(i-1)\<close> throws for \<open>i = 0\<close>.
\<close>

definition array_scan_char :: "string \<Rightarrow> nat \<Rightarrow> array_scan \<Rightarrow> fault + array_scan" where
  "array_scan_char input i st =
     (let c = input ! i in
      if c = CHR ''{'' \<and> \<not> arr_in_quotes st then
        Inr (let st' = st\<lparr>arr_depth := arr_depth st + 1\<rparr>
             in if arr_depth st' = 1 then st'\<lparr>arr_start_pos := i + 1\<rparr> else st')
      else if c = CHR ''}'' \<and> \<not> arr_in_quotes st then
        Inr (let st' = st\<lparr>arr_depth := arr_depth st - 1\<rparr>
             in if arr_depth st = 1 \<and> arr_end_pos st = 0
                then st'\<lparr>arr_end_pos := sz_dec i, arr_next_start_pos := 0\<rparr> else st')
      else if c = CHR '','' \<and> \<not> arr_in_quotes st then
        Inr (st\<lparr>arr_end_pos := sz_dec i, arr_next_start_pos := i + 1\<rparr>)
      else if c = dquote then
        if i = 0 then Inl (Exn Out_of_range)
        else if input ! (i - 1) \<noteq> backslash then
          Inr (if arr_in_quotes st
               then st\<lparr>arr_end_pos := sz_dec i, arr_next_start_pos := i + 2, arr_in_quotes := False\<rparr>
               else st\<lparr>arr_start_pos := i + 1, arr_in_quotes := True\<rparr>)
        else Inr st
      else Inr st)"

partial_function (option) array_loop ::
    "string \<Rightarrow> nat \<Rightarrow> array_scan \<Rightarrow> (fault + string list) option" where
  "array_loop input i st =
     (if i < length input then
        (case array_scan_char input i st of
           Inl f \<Rightarrow> Some (Inl f)
         | Inr st1 \<Rightarrow>
             if arr_start_pos st1 > 0 \<and> arr_end_pos st1 > 0 then
               (case substr input (arr_start_pos st1) (sz_span (arr_end_pos st1) (arr_start_pos st1)) of
                  Inl f \<Rightarrow> Some (Inl f)
                | Inr t \<Rightarrow>
                    (if arr_next_start_pos st1 = 0
                     then Some (Inr (arr_result st1 @ [strip_backslashes t]))
                     else array_loop input (arr_next_start_pos st1)
                       (st1\<lparr>arr_result := arr_result st1 @ [strip_backslashes t],
                            arr_end_pos := 0, arr_start_pos := arr_next_start_pos st1\<rparr>)))
             else array_loop input (i + 1) st1)
      else Some (Inr (arr_result st)))"

text \<open>
  \<^verbatim>\<open>assert(input.at(0) == '{'); assert(input.back() == '}');\<close> are compiled in only without
  \<^verbatim>\<open>NDEBUG\<close> (\<open>asserts\<close>); \<^verbatim>\<open>at(0)\<close> on an empty input throws.
\<close>

definition check_brackets :: "bool \<Rightarrow> char \<Rightarrow> char \<Rightarrow> string \<Rightarrow> fault option" where
  "check_brackets asserts opening closing input =
     (if \<not> asserts then None
      else if input = [] then Some (Exn Out_of_range)
      else if hd input \<noteq> opening \<or> last input \<noteq> closing then Some Assert_failed
      else None)"

definition from_text_array :: "bool \<Rightarrow> string \<Rightarrow> (fault + string list) option" where
  "from_text_array asserts input =
     (case check_brackets asserts (CHR ''{'') (CHR ''}'') input of
        Some f \<Rightarrow> Some (Inl f)
      | None \<Rightarrow> array_loop input 0 array_scan_init)"

text \<open>
  The value of a call that returns; \<open>from_text_array_returns\<close> below shows that every call does.
\<close>

definition text_array_value :: "bool \<Rightarrow> string \<Rightarrow> fault + string list" where
  "text_array_value asserts input = the (from_text_array asserts input)"

section \<open>Skipping inert characters\<close>

definition array_inert :: "array_scan \<Rightarrow> char \<Rightarrow> char \<Rightarrow> bool" where
  "array_inert st p c \<longleftrightarrow> arr_end_pos st = 0 \<and>
     (if arr_in_quotes st then \<not> bare_quote p c
      else c \<noteq> CHR ''{'' \<and> c \<noteq> CHR ''}'' \<and> c \<noteq> CHR '','' \<and> c \<noteq> dquote)"

lemma array_scan_char_inert:
  "0 < i \<Longrightarrow> array_inert st (input ! (i - 1)) (input ! i) \<Longrightarrow> array_scan_char input i st = Inr st"
  by (cases "arr_in_quotes st") (simp_all add: array_scan_char_def array_inert_def bare_quote_def Let_def)

interpretation array_scanner: char_scanner array_loop array_inert
proof unfold_locales
  fix i :: nat and input :: string and st
  assume i: "0 < i" "i < length input" and inert: "array_inert st (input ! (i - 1)) (input ! i)"
  have "array_scan_char input i st = Inr st"
    using i(1) inert by (rule array_scan_char_inert)
  moreover have "arr_end_pos st = 0" using inert by (simp add: array_inert_def)
  ultimately show "array_loop input i st = array_loop input (Suc i) st"
    using i(2) by (subst array_loop.simps) simp
qed


text \<open>The two ways an iteration can push an element.\<close>

lemma array_loop_push:
  assumes "i < length input" and "array_scan_char input i st = Inr st1"
    and "0 < arr_start_pos st1" and "0 < arr_end_pos st1"
    and "substr input (arr_start_pos st1) (sz_span (arr_end_pos st1) (arr_start_pos st1)) = Inr t"
  shows "array_loop input i st =
    (if arr_next_start_pos st1 = 0 then Some (Inr (arr_result st1 @ [strip_backslashes t]))
     else array_loop input (arr_next_start_pos st1)
       (st1\<lparr>arr_result := arr_result st1 @ [strip_backslashes t],
            arr_end_pos := 0, arr_start_pos := arr_next_start_pos st1\<rparr>))"
  using assms by (subst array_loop.simps) simp

lemma array_loop_keep:
  assumes "i < length input" and "array_scan_char input i st = Inr st1" and "arr_end_pos st1 = 0"
  shows "array_loop input i st = array_loop input (Suc i) st1"
  using assms by (subst array_loop.simps) simp

lemma array_loop_end: "length input \<le> i \<Longrightarrow> array_loop input i st = Some (Inr (arr_result st))"
  by (subst array_loop.simps) simp

section \<open>One element\<close>

definition plain_element :: "string \<Rightarrow> bool" where
  "plain_element s \<longleftrightarrow>
     s \<noteq> [] \<and> set s \<inter> {CHR ''{'', CHR ''}'', CHR '','', dquote, backslash} = {}"

text \<open>The scanner stands at the start of an element: after \<open>{\<close> or after a comma.\<close>

definition at_element :: "string \<Rightarrow> array_scan \<Rightarrow> bool" where
  "at_element pre st \<longleftrightarrow> pre \<noteq> [] \<and> last pre \<noteq> backslash \<and> \<not> arr_in_quotes st \<and>
     arr_end_pos st = 0 \<and> arr_start_pos st = length pre \<and> arr_depth st = 1"

lemma plain_element_no_backslash: "plain_element s \<Longrightarrow> strip_backslashes s = s"
  by (simp add: plain_element_def)

lemma plain_element_chain:
  assumes "plain_element s" and "at_element pre st"
  shows "chain (array_inert st) p s"
  using assms by (intro chain_indep) (auto simp: plain_element_def at_element_def array_inert_def)

lemma array_loop_plain_skip:
  assumes "plain_element s" and "at_element pre st"
  shows "array_loop (pre @ s @ suf) (length pre) st =
    array_loop (pre @ s @ suf) (length (pre @ s)) st"
  using assms(2) array_scanner.skip_chain [OF _ plain_element_chain [OF assms]]
  by (simp add: at_element_def)

text \<open>The opening quote, the body and the closing quote of a quoted element.\<close>

lemma array_loop_open_quote:
  assumes "at_element pre st"
  shows "array_loop (pre @ dquote # suf) (length pre) st =
    array_loop ((pre @ [dquote]) @ suf) (length (pre @ [dquote]))
      (st\<lparr>arr_start_pos := Suc (length pre), arr_in_quotes := True\<rparr>)"
proof -
  have "array_scan_char (pre @ dquote # suf) (length pre) st =
      Inr (st\<lparr>arr_start_pos := Suc (length pre), arr_in_quotes := True\<rparr>)"
    using assms by (simp add: array_scan_char_def at_element_def)
  then show ?thesis using assms by (subst array_loop_keep) (auto simp: at_element_def)
qed

lemma array_loop_quoted_skip:
  assumes "arr_in_quotes st" and "arr_end_pos st = 0" and "pre \<noteq> []"
  shows "array_loop (pre @ escape_quoted s @ suf) (length pre) st =
    array_loop (pre @ escape_quoted s @ suf) (length (pre @ escape_quoted s)) st"
proof -
  have "array_inert st = (\<lambda>p c. \<not> bare_quote p c)"
    using assms by (intro ext) (simp add: array_inert_def)
  then show ?thesis
    using assms(3) array_scanner.skip_chain [of pre st "escape_quoted s" suf] by simp
qed

lemma array_loop_close_quote:
  assumes pre: "pre \<noteq> []"
    and st: "arr_in_quotes st" "arr_start_pos st = Suc (length pre)" "arr_end_pos st = 0"
    and s: "\<not> ends_in_backslash s"
  shows "array_loop ((pre @ dquote # escape_quoted s) @ dquote # suf)
      (length (pre @ dquote # escape_quoted s)) st =
    (let n = Suc (Suc (length (pre @ dquote # escape_quoted s))) in
     array_loop ((pre @ dquote # escape_quoted s) @ dquote # suf) n
      (st\<lparr>arr_result := arr_result st @ [strip_backslashes s], arr_end_pos := 0,
          arr_start_pos := n, arr_next_start_pos := n, arr_in_quotes := False\<rparr>))"
proof -
  let ?body = "pre @ dquote # escape_quoted s"
  let ?input = "?body @ dquote # suf"
  let ?st1 = "st\<lparr>arr_end_pos := length ?body - 1, arr_next_start_pos := Suc (Suc (length ?body)),
    arr_in_quotes := False\<rparr>"
  have "?input ! (length ?body - Suc 0) = last ?body" by (rule nth_before_middle) simp
  then have "?input ! (length ?body - Suc 0) \<noteq> backslash"
    using s bare_quote_after_body [of pre s] by (simp only: bare_quote_def) simp
  then have step: "array_scan_char ?input (length ?body) st = Inr ?st1"
    using st(1) nth_middle [of ?body dquote suf] unfolding array_scan_char_def Let_def
    by (simp del: nth_middle)
  have "substr ?input (arr_start_pos ?st1) (sz_span (arr_end_pos ?st1) (arr_start_pos ?st1)) =
      Inr (escape_quoted s)"
    using st(2) by simp
  with st(2,3) show ?thesis
    by (cases st) (subst array_loop_push [OF _ step, where t = "escape_quoted s"],
      simp_all add: Let_def pre)
qed


text \<open>
  An element as PostgreSQL prints it: quoted with backslash escapes, or plain when it is nonempty
  and has no delimiter, quote, brace or backslash.
\<close>

definition array_element :: "bool \<times> string \<Rightarrow> string" where
  "array_element x = (if fst x then double_quote (snd x) else snd x)"

definition parsable_element :: "bool \<times> string \<Rightarrow> bool" where
  "parsable_element x = (if fst x then \<not> ends_in_backslash (snd x) else plain_element (snd x))"

text \<open>The scanner's state after an element and the comma behind it.\<close>

definition next_element :: "array_scan \<Rightarrow> nat \<Rightarrow> string \<Rightarrow> array_scan" where
  "next_element st n s = st\<lparr>arr_next_start_pos := n,
     arr_result := arr_result st @ [strip_backslashes s], arr_end_pos := 0, arr_start_pos := n\<rparr>"

lemma array_loop_quoted_element:
  assumes "at_element pre st" and "\<not> ends_in_backslash s"
  shows "array_loop (pre @ double_quote s @ suf) (length pre) st =
    (let n = Suc (length (pre @ double_quote s)) in
     array_loop (pre @ double_quote s @ suf) n (next_element st n s))"
proof -
  let ?st1 = "st\<lparr>arr_start_pos := Suc (length pre), arr_in_quotes := True\<rparr>"
  let ?input = "pre @ dquote # escape_quoted s @ dquote # suf"
  have "array_loop ?input (length pre) st =
      array_loop ((pre @ [dquote]) @ escape_quoted s @ dquote # suf) (length (pre @ [dquote])) ?st1"
    using array_loop_open_quote [OF assms(1), of "escape_quoted s @ dquote # suf"] by simp
  also have "\<dots> = array_loop ((pre @ [dquote]) @ escape_quoted s @ dquote # suf)
      (length ((pre @ [dquote]) @ escape_quoted s)) ?st1"
    using assms(1) by (intro array_loop_quoted_skip) (simp_all add: at_element_def)
  also have "\<dots> = (let n = Suc (Suc (length (pre @ dquote # escape_quoted s))) in
     array_loop ?input n (next_element st n s))"
    using array_loop_close_quote [of pre ?st1 s suf] assms
    by (cases st) (simp add: at_element_def next_element_def Let_def)
  finally show ?thesis by (simp add: double_quote_def Let_def)
qed

lemma array_loop_plain_comma:
  assumes el: "at_element pre st" and s: "plain_element s"
  shows "array_loop (pre @ s @ CHR '','' # suf) (length pre) st =
    (let n = Suc (length (pre @ s)) in
     array_loop (pre @ s @ CHR '','' # suf) n (next_element st n s))"
proof -
  let ?input = "(pre @ s) @ CHR '','' # suf"
  have step: "array_scan_char ?input (length (pre @ s)) st = Inr (st\<lparr>arr_end_pos :=
      length (pre @ s) - 1, arr_next_start_pos := Suc (length (pre @ s))\<rparr>)"
    using el nth_middle [of "pre @ s" "CHR '',''" suf]
    unfolding array_scan_char_def Let_def by (simp add: at_element_def del: nth_middle)
  have len: "Suc 0 < length pre + length s"
    using el s by (cases pre; cases s) (simp_all add: at_element_def plain_element_def)
  have "array_loop ?input (length pre) st = array_loop ?input (length (pre @ s)) st"
    using array_loop_plain_skip [OF s el] by simp
  also have "\<dots> = (let n = Suc (length (pre @ s)) in array_loop ?input n (next_element st n s))"
    using el len plain_element_no_backslash [OF s]
    by (subst array_loop_push [OF _ step, where t = s])
      (simp_all add: at_element_def next_element_def Let_def)
  finally show ?thesis by (simp add: Let_def)
qed

lemma array_loop_plain_last:
  assumes el: "at_element pre st" and s: "plain_element s"
  shows "array_loop (pre @ s @ ''}'') (length pre) st = Some (Inr (arr_result st @ [s]))"
proof -
  let ?input = "(pre @ s) @ ''}''"
  have step: "array_scan_char ?input (length (pre @ s)) st = Inr (st\<lparr>arr_depth := 0,
      arr_end_pos := length (pre @ s) - 1, arr_next_start_pos := 0\<rparr>)"
    using el nth_middle [of "pre @ s" "CHR ''}''" "[]"]
    unfolding array_scan_char_def Let_def by (simp add: at_element_def del: nth_middle)
  have len: "Suc 0 < length pre + length s"
    using el s by (cases pre; cases s) (simp_all add: at_element_def plain_element_def)
  have "array_loop ?input (length pre) st = array_loop ?input (length (pre @ s)) st"
    using array_loop_plain_skip [OF s el] by simp
  also have "\<dots> = Some (Inr (arr_result st @ [s]))"
    using el len plain_element_no_backslash [OF s]
    by (subst array_loop_push [OF _ step, where t = s]) (simp_all add: at_element_def)
  finally show ?thesis by simp
qed

lemma array_loop_element_comma:
  assumes "at_element pre st" and "parsable_element x"
  shows "array_loop (pre @ array_element x @ CHR '','' # suf) (length pre) st =
    (let n = Suc (length (pre @ array_element x)) in
     array_loop (pre @ array_element x @ CHR '','' # suf) n (next_element st n (snd x)))"
  using assms array_loop_plain_comma array_loop_quoted_element
  by (cases "fst x") (simp_all add: array_element_def parsable_element_def)

lemma array_loop_element_last:
  assumes "at_element pre st" and "parsable_element x"
  shows "array_loop (pre @ array_element x @ ''}'') (length pre) st =
    Some (Inr (arr_result st @ [strip_backslashes (snd x)]))"
proof (cases "fst x")
  case True
  then show ?thesis
    using assms array_loop_quoted_element [of pre st "snd x" "''}''"]
    by (simp add: array_element_def parsable_element_def Let_def array_loop_end next_element_def)
next
  case False
  then show ?thesis
    using assms array_loop_plain_last [of pre st "snd x"]
    by (simp add: array_element_def parsable_element_def plain_element_def)
qed

lemma at_element_next:
  "at_element pre st \<Longrightarrow>
   at_element (pre @ e @ '','') (next_element st (Suc (length (pre @ e))) s)"
  by (simp add: at_element_def next_element_def)

section \<open>A whole array\<close>

definition array_text :: "(bool \<times> string) list \<Rightarrow> string" where
  "array_text xs = ''{'' @ comma_separated 0 (map array_element xs) @ ''}''"

lemma array_loop_elements:
  assumes "at_element pre st" and "list_all parsable_element xs" and "xs \<noteq> []"
  shows "array_loop (pre @ comma_separated 0 (map array_element xs) @ ''}'') (length pre) st =
    Some (Inr (arr_result st @ map (strip_backslashes \<circ> snd) xs))"
  using assms
proof (induction xs arbitrary: pre st rule: induct_list012)
  case (2 x)
  then show ?case using array_loop_element_last [of pre st x] by simp
next
  case (3 x y zs)
  let ?e = "array_element x" and ?rest = "comma_separated 0 (map array_element (y # zs)) @ ''}''"
  let ?n = "Suc (length (pre @ ?e))"
  have "array_loop (pre @ comma_separated 0 (map array_element (x # y # zs)) @ ''}'') (length pre) st =
      array_loop (pre @ ?e @ CHR '','' # ?rest) (length pre) st"
    by (simp add: comma_separated_two)
  also have "\<dots> = array_loop (pre @ ?e @ CHR '','' # ?rest) ?n (next_element st ?n (snd x))"
    using "3.prems" array_loop_element_comma [of pre st x ?rest] by (simp add: Let_def)
  also have "\<dots> = array_loop ((pre @ ?e @ '','') @ ?rest) (length (pre @ ?e @ '',''))
      (next_element st ?n (snd x))" by simp
  also have "\<dots> = Some (Inr (arr_result (next_element st ?n (snd x)) @
      map (strip_backslashes \<circ> snd) (y # zs)))"
    using "3.prems" by (intro "3.IH"(2) at_element_next) simp_all
  finally show ?case by (simp add: next_element_def)
qed simp

lemma array_loop_opening:
  "array_loop (CHR ''{'' # suf) 0 array_scan_init =
   array_loop (CHR ''{'' # suf) 1 (array_scan_init\<lparr>arr_depth := 1\<rparr>)"
  by (subst array_loop_keep) (simp_all add: array_scan_char_def array_scan_init_def)

lemma check_brackets_ok [simp]: "check_brackets asserts l r (l # mid @ [r]) = None"
  by (simp add: check_brackets_def)

lemma from_text_array_empty [simp]: "from_text_array asserts ''{}'' = Some (Inr [])"
proof -
  have "array_loop ''{}'' 1 (array_scan_init\<lparr>arr_depth := 1\<rparr>) = Some (Inr [])"
    by (simp add: array_loop.simps array_scan_char_def array_scan_init_def)
  then show ?thesis
    using check_brackets_ok [of asserts "CHR ''{''" "CHR ''}''" "[]"]
    by (simp add: from_text_array_def array_loop_opening)
qed

lemma from_text_array_text:
  assumes "list_all parsable_element xs"
  shows "from_text_array asserts (array_text xs) = Some (Inr (map (strip_backslashes \<circ> snd) xs))"
proof (cases "xs = []")
  case True
  then show ?thesis by (simp add: array_text_def)
next
  case False
  let ?st = "array_scan_init\<lparr>arr_depth := 1\<rparr>"
  have "at_element ''{'' ?st" by (simp add: at_element_def array_scan_init_def)
  from array_loop_elements [OF this assms False]
  have "array_loop (CHR ''{'' # comma_separated 0 (map array_element xs) @ ''}'') 1 ?st =
      Some (Inr (map (strip_backslashes \<circ> snd) xs))"
    by (simp add: array_scan_init_def)
  then show ?thesis
    using check_brackets_ok [of asserts "CHR ''{''" "CHR ''}''" "comma_separated 0 (map array_element xs)"]
    by (simp add: from_text_array_def array_text_def array_loop_opening)
qed


section \<open>Termination and absence of exceptions\<close>

definition array_inv :: "nat \<Rightarrow> array_scan \<Rightarrow> bool" where
  "array_inv i st \<longleftrightarrow> arr_end_pos st = 0 \<and> 0 < arr_start_pos st \<and> arr_start_pos st \<le> max 1 i"

lemma array_inv_init: "array_inv 0 array_scan_init"
  by (simp add: array_inv_def array_scan_init_def)

lemma array_scan_char_fault:
  "array_scan_char input i st = Inl f \<longleftrightarrow> i = 0 \<and> input ! 0 = dquote \<and> f = Exn Out_of_range"
  by (cases "i = 0") (auto simp: array_scan_char_def Let_def)

lemma array_scan_char_start:
  "array_scan_char input i st = Inr st1 \<Longrightarrow>
   arr_start_pos st1 = arr_start_pos st \<or> arr_start_pos st1 = Suc i"
  by (auto simp: array_scan_char_def Let_def split: if_splits)

lemma array_scan_char_end:
  "array_scan_char input i st = Inr st1 \<Longrightarrow> arr_end_pos st = 0 \<Longrightarrow> 0 < arr_end_pos st1 \<Longrightarrow>
   arr_next_start_pos st1 = 0 \<or> i < arr_next_start_pos st1"
  by (auto simp: array_scan_char_def Let_def split: if_splits)

lemma array_loop_returns:
  assumes "array_inv i st"
  shows "\<exists>r. array_loop input i st = Some r \<and>
    (isl r \<longrightarrow> i = 0 \<and> input \<noteq> [] \<and> hd input = dquote)"
  using assms
proof (induction "length input - i" arbitrary: i st rule: less_induct)
  case less
  show ?case
  proof (cases "i < length input")
    case False
    then show ?thesis by (simp add: array_loop_end)
  next
    case lt: True
    show ?thesis
    proof (cases "array_scan_char input i st")
      case (Inl f)
      then have "array_loop input i st = Some (Inl f)" using lt by (subst array_loop.simps) simp
      then show ?thesis using Inl lt by (auto simp: array_scan_char_fault hd_conv_nth)
    next
      case (Inr st1)
      have start: "0 < arr_start_pos st1" "arr_start_pos st1 \<le> Suc i"
        using array_scan_char_start [OF Inr] less.prems by (auto simp: array_inv_def)
      show ?thesis
      proof (cases "arr_end_pos st1 = 0")
        case True
        then have "array_inv (Suc i) st1" using start by (simp add: array_inv_def)
        moreover have "length input - Suc i < length input - i" using lt by simp
        ultimately show ?thesis
          using less.hyps [of "Suc i" st1] array_loop_keep [OF lt Inr True] by auto
      next
        case False
        let ?t = "take (sz_span (arr_end_pos st1) (arr_start_pos st1)) (drop (arr_start_pos st1) input)"
        let ?st2 = "st1\<lparr>arr_result := arr_result st1 @ [strip_backslashes ?t], arr_end_pos := 0,
          arr_start_pos := arr_next_start_pos st1\<rparr>"
        have push: "array_loop input i st =
          (if arr_next_start_pos st1 = 0 then Some (Inr (arr_result st1 @ [strip_backslashes ?t]))
           else array_loop input (arr_next_start_pos st1) ?st2)"
          using start False lt by (intro array_loop_push [OF lt Inr]) simp_all
        have "arr_next_start_pos st1 = 0 \<or> i < arr_next_start_pos st1"
          using array_scan_char_end [OF Inr] less.prems False by (simp add: array_inv_def)
        moreover have "array_inv (arr_next_start_pos st1) ?st2" if "i < arr_next_start_pos st1"
          using that by (simp add: array_inv_def)
        ultimately show ?thesis
          using less.hyps [of "arr_next_start_pos st1" ?st2] lt push by fastforce
      qed
    qed
  qed
qed

interpretation array_format: text_format "list_all parsable_element" array_text
    "from_text_array asserts" "\<lambda>xs. Some (Inr (map (strip_backslashes \<circ> snd) xs))" for asserts
  by unfold_locales (rule from_text_array_text)

lemma as_text_array_text: "as_text_array xs = array_text (map (Pair True) xs)"
  by (simp add: as_text_array_def array_text_def array_element_def comp_def)

lemma from_text_array_as_text:
  assumes "\<forall>s\<in>set xs. \<not> ends_in_backslash s"
  shows "from_text_array asserts (as_text_array xs) = Some (Inr (map strip_backslashes xs))"
proof -
  have "list_all parsable_element (map (Pair True) xs)"
    using assms by (auto simp: list_all_iff parsable_element_def)
  from array_format.parse_print [OF this, of asserts]
  show ?thesis by (simp add: as_text_array_text comp_def)
qed


lemma from_text_array_returns: "\<exists>r. from_text_array asserts input = Some r"
  using array_loop_returns [OF array_inv_init, of input]
  by (auto simp: from_text_array_def split: option.splits)

lemma from_text_array_no_fault:
  assumes "check_brackets asserts (CHR ''{'') (CHR ''}'') input = None"
    and "input = [] \<or> hd input \<noteq> dquote"
  shows "\<exists>xs. from_text_array asserts input = Some (Inr xs)"
proof -
  from array_loop_returns [OF array_inv_init, of input] obtain r
    where "array_loop input 0 array_scan_init = Some r" "isl r \<longrightarrow> input \<noteq> [] \<and> hd input = dquote"
    by auto
  with assms show ?thesis by (cases r) (auto simp: from_text_array_def)
qed

end
