(* ===== verification/Utils.thy ===== *)
theory Utils
  imports CxxStd "HOL-Library.AList" "HOL-Library.Word"
begin

text \<open>
  \<^verbatim>\<open>utils.cpp\<close>, \<^verbatim>\<open>utils.h\<close>, \<^verbatim>\<open>sigstate.cpp\<close> and the log levels of \<^verbatim>\<open>logger.h\<close> and
  \<^verbatim>\<open>logger.cpp\<close>.  An \<^verbatim>\<open>unordered_map\<close> is the list of its pairs.
\<close>

unbundle bit_operations_syntax

section \<open>Environment\<close>

text \<open>One member of \<^verbatim>\<open>**environ\<close>, split at the first equals sign.\<close>

definition split_environ_member :: "string \<Rightarrow> fault + string \<times> string" where
  "split_environ_member s =
     (if CHR ''='' \<in> set s
      then Inr (takeWhile (\<lambda>c. c \<noteq> CHR ''='') s, tl (dropWhile (\<lambda>c. c \<noteq> CHR ''='') s))
      else Inl (Exn (Runtime_error ''`**environ` member strings are each expected to have an equals sign.'')))"

fun environ_loop :: "string list \<Rightarrow> (string \<times> string) list \<Rightarrow> fault + (string \<times> string) list" where
  "environ_loop [] m = Inr m"
| "environ_loop (s # ss) m =
     (case split_environ_member s of
        Inl f \<Rightarrow> Inl f
      | Inr (k, v) \<Rightarrow> environ_loop ss (AList.update k v m))"

definition environ_to_unordered_map :: "string list \<Rightarrow> fault + (string \<times> string) list" where
  "environ_to_unordered_map environ = environ_loop environ []"

fun throw_if_missing_any_value :: "('k \<times> 'v option) list \<Rightarrow> fault + ('k \<times> 'v) list" where
  "throw_if_missing_any_value [] = Inr []"
| "throw_if_missing_any_value ((k, v) # m) =
     (case v of
        None \<Rightarrow> Inl (Exn (Runtime_error ''Unexpected key without value.''))
      | Some x \<Rightarrow> map_exn (Cons (k, x)) (throw_if_missing_any_value m))"

lemma split_environ_member_eq:
  "CHR ''='' \<notin> set k \<Longrightarrow> split_environ_member (k @ CHR ''='' # v) = Inr (k, v)"
  unfolding split_environ_member_def by (simp add: takeWhile_append dropWhile_append)

lemma split_environ_member_Inr:
  "split_environ_member s = Inr (k, v) \<Longrightarrow> s = k @ CHR ''='' # v \<and> CHR ''='' \<notin> set k"
proof -
  let ?P = "\<lambda>c. c \<noteq> CHR ''=''"
  assume "split_environ_member s = Inr (k, v)"
  then have eq: "CHR ''='' \<in> set s" "k = takeWhile ?P s" "v = tl (dropWhile ?P s)"
    by (auto simp: split_environ_member_def split: if_splits)
  then obtain c cs where c: "dropWhile ?P s = c # cs" by (cases "dropWhile ?P s") auto
  then have "c = CHR ''=''" using dropWhile_eq_Cons_conv [of ?P s c cs] by simp
  with c eq have "s = k @ CHR ''='' # v" using takeWhile_dropWhile_id [of ?P s] by simp
  moreover have "CHR ''='' \<notin> set k" unfolding eq(2) by (auto dest: set_takeWhileD)
  ultimately show ?thesis by simp
qed


lemma update_fresh: "k \<notin> fst ` set al \<Longrightarrow> AList.update k v al = al @ [(k, v)]"
  by (induction al) auto

lemma environ_loop_pairs:
  "distinct (map fst al @ map fst m) \<Longrightarrow> \<forall>(k, v)\<in>set m. CHR ''='' \<notin> set k \<Longrightarrow>
   environ_loop (map (\<lambda>(k, v). k @ CHR ''='' # v) m) al = Inr (al @ m)"
  by (induction m arbitrary: al) (auto simp: update_fresh split_environ_member_eq)

lemma environ_loop_no_equals_sign:
  "s \<in> set ss \<Longrightarrow> CHR ''='' \<notin> set s \<Longrightarrow> isl (environ_loop ss m)"
  by (induction ss m rule: environ_loop.induct)
    (auto simp: split_environ_member_def split: sum.splits)

lemma throw_if_missing_Inr_iff:
  "throw_if_missing_any_value m = Inr m' \<longleftrightarrow> m = map (\<lambda>(k, v). (k, Some v)) m'"
proof (induction m arbitrary: m')
  case (Cons x m)
  then show ?case by (cases x; cases m') (auto simp: map_exn_Inr_iff split: option.splits)
qed auto

lemma throw_if_missing_Some [simp]:
  "throw_if_missing_any_value (map (\<lambda>(k, v). (k, Some v)) m) = Inr m"
  using throw_if_missing_Inr_iff by blast

lemma throw_if_missing_None: "(k, None) \<in> set m \<Longrightarrow>
  throw_if_missing_any_value m = Inl (Exn (Runtime_error ''Unexpected key without value.''))"
  by (induction m rule: throw_if_missing_any_value.induct) (auto split: option.splits)

section \<open>Received signals\<close>

type_synonym signal = nat

definition SIGINT :: signal where "SIGINT = 2"
definition SIGQUIT :: signal where "SIGQUIT = 3"
definition SIGABRT :: signal where "SIGABRT = 6"
definition SIGKILL :: signal where "SIGKILL = 9"
definition SIGUSR1 :: signal where "SIGUSR1 = 10"
definition SIGTERM :: signal where "SIGTERM = 15"
definition SIGCHLD :: signal where "SIGCHLD = 17"

lemmas signal_defs =
  SIGINT_def SIGQUIT_def SIGABRT_def SIGKILL_def SIGUSR1_def SIGTERM_def SIGCHLD_def

text \<open>\<^verbatim>\<open>sig_recv\<close> is the array of flags; the first of the given signals that has arrived, or 0.\<close>

fun sig_num_received :: "(signal \<Rightarrow> bool) \<Rightarrow> signal list \<Rightarrow> signal" where
  "sig_num_received sig_recv [] = 0"
| "sig_num_received sig_recv (s # ss) = (if sig_recv s then s else sig_num_received sig_recv ss)"

lemma sig_num_received_0_iff:
  "0 \<notin> set ss \<Longrightarrow> sig_num_received sig_recv ss = 0 \<longleftrightarrow> (\<forall>s\<in>set ss. \<not> sig_recv s)"
  by (induction ss) auto

lemma sig_num_received_in:
  "sig_num_received sig_recv ss = s \<Longrightarrow> s \<noteq> 0 \<Longrightarrow> s \<in> set ss \<and> sig_recv s"
  by (induction ss) (auto split: if_splits)

section \<open>Log levels\<close>

datatype log_level =
    LOG_NONE | LOG_PANIC | LOG_FATAL | LOG_LOG | LOG_ERROR | LOG_WARNING | LOG_NOTICE | LOG_INFO
  | LOG_DEBUG1 | LOG_DEBUG2 | LOG_DEBUG3 | LOG_DEBUG4 | LOG_DEBUG5

fun level_bits :: "log_level \<Rightarrow> 32 word" where
  "level_bits LOG_NONE    = 0b00000000000000000000000000000000"
| "level_bits LOG_PANIC   = 0b00000000000000000000000000000001"
| "level_bits LOG_FATAL   = 0b00000000000000000000000000000011"
| "level_bits LOG_LOG     = 0b00000000000000000000000000000111"
| "level_bits LOG_ERROR   = 0b00000000000000000000000000001111"
| "level_bits LOG_WARNING = 0b00000000000000000000000000011111"
| "level_bits LOG_NOTICE  = 0b00000000000000000000000000111111"
| "level_bits LOG_INFO    = 0b00000000000000000000000001111111"
| "level_bits LOG_DEBUG1  = 0b00000000000000000000000011111111"
| "level_bits LOG_DEBUG2  = 0b00000000000000000000000111111111"
| "level_bits LOG_DEBUG3  = 0b00000000000000000000001111111111"
| "level_bits LOG_DEBUG4  = 0b00000000000000000000011111111111"
| "level_bits LOG_DEBUG5  = 0b00000000000000000000111111111111"

instantiation log_level :: linorder
begin

definition less_eq_log_level :: "log_level \<Rightarrow> log_level \<Rightarrow> bool" where
  "less_eq_log_level a b \<longleftrightarrow> level_bits a \<le> level_bits b"

definition less_log_level :: "log_level \<Rightarrow> log_level \<Rightarrow> bool" where
  "less_log_level a b \<longleftrightarrow> level_bits a < level_bits b"

instance
proof
  fix a b c :: log_level
  have inj: "level_bits a = level_bits b \<Longrightarrow> a = b" by (cases a; cases b) simp_all
  show "a < b \<longleftrightarrow> a \<le> b \<and> \<not> b \<le> a"
    unfolding less_eq_log_level_def less_log_level_def by (rule less_le_not_le)
  show "a \<le> a" unfolding less_eq_log_level_def by (rule order_refl)
  show "a \<le> b \<Longrightarrow> b \<le> c \<Longrightarrow> a \<le> c" unfolding less_eq_log_level_def by (rule order_trans)
  show "a \<le> b \<Longrightarrow> b \<le> a \<Longrightarrow> a = b"
    unfolding less_eq_log_level_def by (rule inj) (rule antisym)
  show "a \<le> b \<or> b \<le> a" unfolding less_eq_log_level_def by (rule linear)
qed

end

definition StringToLogLevel :: "(string \<times> log_level) list" where
  "StringToLogLevel =
    [(''DEBUG1'', LOG_DEBUG1), (''DEBUG2'', LOG_DEBUG2), (''DEBUG3'', LOG_DEBUG3),
     (''DEBUG4'', LOG_DEBUG4), (''DEBUG5'', LOG_DEBUG5), (''ERROR'', LOG_ERROR),
     (''FATAL'', LOG_FATAL), (''INFO'', LOG_INFO), (''LOG'', LOG_LOG), (''NONE'', LOG_NONE),
     (''NOTICE'', LOG_NOTICE), (''PANIC'', LOG_PANIC), (''WARNING'', LOG_WARNING)]"

text \<open>\<^verbatim>\<open>m.emplace(level, name)\<close> for every pair: the first name of a level stays.\<close>

definition LogLevelToString :: "log_level \<rightharpoonup> string" where
  "LogLevelToString = map_of (map (\<lambda>(name, level). (level, name)) StringToLogLevel)"

fun getLogLevelString :: "log_level \<Rightarrow> string" where
  "getLogLevelString LOG_NONE = ''NONE''"
| "getLogLevelString LOG_PANIC = ''PANIC''"
| "getLogLevelString LOG_FATAL = ''FATAL''"
| "getLogLevelString LOG_LOG = ''LOG''"
| "getLogLevelString LOG_ERROR = ''ERROR''"
| "getLogLevelString LOG_WARNING = ''WARNING''"
| "getLogLevelString LOG_NOTICE = ''NOTICE''"
| "getLogLevelString LOG_INFO = ''INFO''"
| "getLogLevelString LOG_DEBUG1 = ''DEBUG1''"
| "getLogLevelString LOG_DEBUG2 = ''DEBUG2''"
| "getLogLevelString LOG_DEBUG3 = ''DEBUG3''"
| "getLogLevelString LOG_DEBUG4 = ''DEBUG4''"
| "getLogLevelString LOG_DEBUG5 = ''DEBUG5''"

definition normalize_log_level :: "string \<Rightarrow> string" where
  "normalize_log_level str = (if take 4 str = ''LOG_'' then drop 4 str else str)"

text \<open>\<^verbatim>\<open>if (level > curLogLevel) return;\<close>\<close>

definition level_is_logged :: "log_level \<Rightarrow> log_level \<Rightarrow> bool" where
  "level_is_logged curLogLevel level \<longleftrightarrow> \<not> level > curLogLevel"

lemma level_is_logged_masks:
  "level_is_logged cur level \<longleftrightarrow> level_bits level AND level_bits cur = level_bits level"
  by (cases cur; cases level) (simp_all add: level_is_logged_def less_log_level_def)

lemma level_names:
  "map_of StringToLogLevel (getLogLevelString l) = Some l"
  "LogLevelToString l = Some (getLogLevelString l)"
  by (cases l; simp add: StringToLogLevel_def LogLevelToString_def)+

lemma normalize_level_names:
  "normalize_log_level (getLogLevelString l) = getLogLevelString l"
  "normalize_log_level (''LOG_'' @ s) = s"
  by (cases l; simp add: normalize_log_level_def)+

end
