(* ===== verification/TextHstore.thy ===== *)
theory TextHstore
  imports TextQuoting TextArray Utils
begin

text \<open>
  \<^verbatim>\<open>PQ::from_text_hstore\<close> and \<^verbatim>\<open>PQ::unescape_hstore_text\<close>: the parser that turns the text of
  the \<^verbatim>\<open>cmd_env\<close> column into the environment of a command.  The result, an
  \<^verbatim>\<open>unordered_map\<close> of optional strings, is the list of its pairs, kept free of duplicate
  keys by \<open>AList.update\<close>.
\<close>

section \<open>Unescaping a value\<close>

text \<open>
  The loop over \<open>i\<close> with \<^verbatim>\<open>escaped[i-1]\<close> passed along as the previous character (\<open>None\<close> at
  \<open>i = 0\<close>).  Reading \<^verbatim>\<open>escaped[i]\<close> at \<open>i = size\<close> yields NUL.
\<close>

fun unescape_from :: "char option \<Rightarrow> string \<Rightarrow> string" where
  "unescape_from p [] = []"
| "unescape_from p (c # cs) =
     (if c = backslash \<and> p \<noteq> Some backslash
      then (case cs of [] \<Rightarrow> [nul] | d # ds \<Rightarrow> d # unescape_from (Some d) ds)
      else c # unescape_from (Some c) cs)"

definition unescape_hstore_text :: "string \<Rightarrow> string" where
  "unescape_hstore_text escaped = unescape_from None escaped"

definition ascii_lower :: "char \<Rightarrow> char" where
  "ascii_lower c =
     (let n = (of_char c :: nat) in if 65 \<le> n \<and> n \<le> 90 then char_of (n + 32) else c)"

text \<open>\<^verbatim>\<open>strcasecmp(raw_val.c_str(), "NULL") == 0\<close>\<close>

definition is_NULL_text :: "string \<Rightarrow> bool" where
  "is_NULL_text raw_val \<longleftrightarrow> map ascii_lower (c_string raw_val) = ''null''"

definition hstore_value :: "string \<Rightarrow> string option" where
  "hstore_value raw_val =
     (if \<not> is_NULL_text raw_val then Some (unescape_hstore_text raw_val) else None)"

section \<open>The scanner\<close>

record hstore_scan =
  hst_in_quotes :: bool
  hst_key_start :: nat
  hst_key_end :: nat
  hst_val_start :: nat
  hst_val_end :: nat
  hst_result :: "(string \<times> string option) list"

definition hstore_scan_init :: hstore_scan where
  "hstore_scan_init = \<lparr>hst_in_quotes = False, hst_key_start = 0, hst_key_end = 0,
     hst_val_start = 0, hst_val_end = 0, hst_result = []\<rparr>"

definition hstore_open_quote :: "nat \<Rightarrow> hstore_scan \<Rightarrow> hstore_scan" where
  "hstore_open_quote i st =
     (let st = st\<lparr>hst_in_quotes := True\<rparr> in
      if hst_key_start st = 0 then st\<lparr>hst_key_start := i + 1\<rparr>
      else if hst_val_start st = 0 then st\<lparr>hst_val_start := i + 1\<rparr>
      else st)"

definition hstore_close_quote :: "string \<Rightarrow> nat \<Rightarrow> hstore_scan \<Rightarrow> fault + hstore_scan" where
  "hstore_close_quote input i st =
     (let st = st\<lparr>hst_in_quotes := False\<rparr> in
      if hst_key_end st = 0 then Inr (st\<lparr>hst_key_end := sz_dec i\<rparr>)
      else if hst_val_end st = 0 then
        (let val_end = sz_dec i in
         case substr input (hst_val_start st) (sz_span val_end (hst_val_start st)) of
           Inl f \<Rightarrow> Inl f
         | Inr raw_val \<Rightarrow>
             (case substr input (hst_key_start st) (sz_span (hst_key_end st) (hst_key_start st)) of
                Inl f \<Rightarrow> Inl f
              | Inr key \<Rightarrow>
                  Inr (st\<lparr>hst_result := AList.update key (hstore_value raw_val) (hst_result st),
                          hst_key_start := 0, hst_key_end := 0,
                          hst_val_start := 0, hst_val_end := 0\<rparr>)))
      else Inr st)"

text \<open>One iteration: the new state and the index of the next one.\<close>

definition hstore_step :: "string \<Rightarrow> nat \<Rightarrow> hstore_scan \<Rightarrow> fault + nat \<times> hstore_scan" where
  "hstore_step input i st =
     (if input ! i = dquote \<and> (i = 0 \<or> input ! (i - 1) \<noteq> backslash) then
        (if \<not> hst_in_quotes st then Inr (i + 1, hstore_open_quote i st)
         else (case hstore_close_quote input i st of
                 Inl f \<Rightarrow> Inl f
               | Inr st1 \<Rightarrow> Inr (i + 1, st1)))
      else if \<not> hst_in_quotes st \<and> input ! i = CHR ''='' \<and>
              i + 1 < length input \<and> input ! (i + 1) = CHR ''>''
        then Inr (i + 2, st)
      else Inr (i + 1, st))"

lemma hstore_step_progress: "hstore_step input i st = Inr (j, st1) \<Longrightarrow> i < j"
  by (auto simp: hstore_step_def split: if_splits sum.splits)

function hstore_loop :: "string \<Rightarrow> nat \<Rightarrow> hstore_scan \<Rightarrow> fault + (string \<times> string option) list" where
  "hstore_loop input i st =
     (if i < length input then
        (case hstore_step input i st of
           Inl f \<Rightarrow> Inl f
         | Inr (j, st1) \<Rightarrow> hstore_loop input j st1)
      else Inr (hst_result st))"
  by pat_completeness auto
termination
  by (relation "measure (\<lambda>(input, i, st). length input - i)")
    (auto intro!: diff_less_mono2 dest: hstore_step_progress)

declare hstore_loop.simps [simp del]

definition from_text_hstore :: "string \<Rightarrow> fault + (string \<times> string option) list" where
  "from_text_hstore input = hstore_loop input 0 hstore_scan_init"

lemma hstore_loop_step:
  "i < length input \<Longrightarrow> hstore_step input i st = Inr (j, st1) \<Longrightarrow>
   hstore_loop input i st = hstore_loop input j st1"
  by (subst hstore_loop.simps) simp

lemma hstore_loop_end: "length input \<le> i \<Longrightarrow> hstore_loop input i st = Inr (hst_result st)"
  by (subst hstore_loop.simps) simp

definition hstore_inert :: "hstore_scan \<Rightarrow> char \<Rightarrow> char \<Rightarrow> bool" where
  "hstore_inert st p c \<longleftrightarrow>
     (if hst_in_quotes st then \<not> bare_quote p c else c \<noteq> dquote \<and> c \<noteq> CHR ''='')"

lemma hstore_step_inert:
  "0 < i \<Longrightarrow> hstore_inert st (input ! (i - 1)) (input ! i) \<Longrightarrow> hstore_step input i st = Inr (Suc i, st)"
  by (cases "hst_in_quotes st") (auto simp: hstore_step_def hstore_inert_def bare_quote_def)

interpretation hstore_scanner: char_scanner hstore_loop hstore_inert
  by unfold_locales (rule hstore_loop_step, assumption, rule hstore_step_inert, assumption+)

section \<open>One key or value\<close>

definition ready_for_quote :: "string \<Rightarrow> hstore_scan \<Rightarrow> bool" where
  "ready_for_quote pre st \<longleftrightarrow> \<not> hst_in_quotes st \<and> (pre = [] \<or> last pre \<noteq> backslash)"

lemma hstore_loop_quoted:
  assumes ready: "ready_for_quote pre st" and b: "closed_body b"
    and close: "hstore_close_quote (pre @ [dquote] @ b @ [dquote] @ suf)
      (length (pre @ [dquote] @ b)) (hstore_open_quote (length pre) st) = Inr st2"
  shows "hstore_loop (pre @ [dquote] @ b @ [dquote] @ suf) (length pre) st =
    hstore_loop (pre @ [dquote] @ b @ [dquote] @ suf) (length (pre @ [dquote] @ b @ [dquote])) st2"
proof -
  let ?st1 = "hstore_open_quote (length pre) st"
  let ?pre = "pre @ [dquote]"
  let ?input = "?pre @ b @ dquote # suf"
  have inq: "hst_in_quotes ?st1" by (simp add: hstore_open_quote_def Let_def)
  have inert: "hstore_inert ?st1 = (\<lambda>p c. \<not> bare_quote p c)"
    using inq by (intro ext) (simp add: hstore_inert_def)
  have "pre = [] \<or> ?input ! (length pre - Suc 0) \<noteq> backslash"
    using ready by (auto simp: ready_for_quote_def)
  then have "hstore_step ?input (length pre) st = Inr (Suc (length pre), ?st1)"
    using ready by (simp add: hstore_step_def ready_for_quote_def)
  from hstore_loop_step [OF _ this]
  have "hstore_loop ?input (length pre) st = hstore_loop ?input (length ?pre) ?st1" by simp
  also have "\<dots> = hstore_loop ?input (length (?pre @ b)) ?st1"
    using hstore_scanner.skip_chain [of ?pre ?st1 b "dquote # suf"] b inert
    by (simp add: closed_body_def)
  also have "\<dots> = hstore_loop ?input (Suc (length (?pre @ b))) st2"
  proof (rule hstore_loop_step)
    have "((?pre @ b) @ dquote # suf) ! (length (?pre @ b) - Suc 0) = last (?pre @ b)"
      by (rule nth_before_middle) simp
    moreover have "last (?pre @ b) \<noteq> backslash" using closed_body_last [OF b] by simp
    moreover have "((?pre @ b) @ dquote # suf) ! length (?pre @ b) = dquote" by (rule nth_middle)
    ultimately show "hstore_step ?input (length (?pre @ b)) ?st1 = Inr (Suc (length (?pre @ b)), st2)"
      using close inq by (simp add: hstore_step_def)
  qed simp
  finally show ?thesis by simp
qed


section \<open>One pair\<close>

definition between_pairs :: "string \<Rightarrow> hstore_scan \<Rightarrow> bool" where
  "between_pairs pre st \<longleftrightarrow> ready_for_quote pre st \<and> hst_key_start st = 0 \<and> hst_key_end st = 0 \<and>
     hst_val_start st = 0 \<and> hst_val_end st = 0"

definition pair_text :: "string \<times> string \<Rightarrow> string" where
  "pair_text x = double_quote (fst x) @ ''=>'' @ double_quote (snd x)"

definition plain_key :: "string \<Rightarrow> bool" where
  "plain_key k \<longleftrightarrow> k \<noteq> [] \<and> dquote \<notin> set k \<and> backslash \<notin> set k"

text \<open>Values in which no backslash stands before a quote, another backslash or the end.\<close>

definition lone_backslash :: "char \<Rightarrow> char \<Rightarrow> bool" where
  "lone_backslash p c \<longleftrightarrow> \<not> (p = backslash \<and> (c = backslash \<or> c = dquote))"

definition safe_value :: "string \<Rightarrow> bool" where
  "safe_value v \<longleftrightarrow> chain lone_backslash nul v \<and> \<not> ends_in_backslash v \<and>
     nul \<notin> set v \<and> map ascii_lower v \<noteq> ''null''"

lemma unescape_escape:
  "chain lone_backslash x v \<Longrightarrow> p = Some backslash \<longrightarrow> x = backslash \<Longrightarrow>
   unescape_from p (escape_quoted v) = v"
  by (induction v arbitrary: x p) (auto simp: lone_backslash_def)

lemma c_string_id: "nul \<notin> set s \<Longrightarrow> c_string s = s"
  unfolding c_string_def by (subst takeWhile_eq_all_conv) auto

lemma map_ascii_lower_escape:
  "map ascii_lower (escape_quoted v) = ''null'' \<Longrightarrow> map ascii_lower v = ''null''"
proof -
  have low: "ascii_lower backslash = backslash" by (simp add: ascii_lower_def)
  assume eq: "map ascii_lower (escape_quoted v) = ''null''"
  have "backslash \<notin> set (escape_quoted v)"
  proof
    assume "backslash \<in> set (escape_quoted v)"
    then have "ascii_lower backslash \<in> set (map ascii_lower (escape_quoted v))" by simp
    then show False unfolding eq low by simp
  qed
  then have "escape_quoted v = v" by (induction v) (auto split: if_splits)
  with eq show ?thesis by simp
qed

lemma set_escape_quoted: "set (escape_quoted v) \<subseteq> insert backslash (set v)"
  by (induction v) auto

lemma hstore_value_escape:
  assumes "safe_value v"
  shows "hstore_value (escape_quoted v) = Some v"
proof -
  have "c_string (escape_quoted v) = escape_quoted v"
    using assms set_escape_quoted [of v] by (intro c_string_id) (auto simp: safe_value_def)
  then show ?thesis
    using assms map_ascii_lower_escape [of v] unescape_escape [of nul v None]
    by (auto simp: hstore_value_def is_NULL_text_def safe_value_def unescape_hstore_text_def)
qed

lemma hstore_loop_arrow:
  assumes "\<not> hst_in_quotes st" and "pre \<noteq> []"
  shows "hstore_loop (pre @ ''=>'' @ suf) (length pre) st =
    hstore_loop (pre @ ''=>'' @ suf) (length (pre @ ''=>'')) st"
proof -
  have "(pre @ ''=>'' @ suf) ! Suc (length pre) = CHR ''>''"
    by (metis append_Cons append_Nil append_assoc length_append_singleton nth_middle)
  then have "hstore_step (pre @ ''=>'' @ suf) (length pre) st = Inr (length pre + 2, st)"
    using assms(1) by (simp add: hstore_step_def)
  from hstore_loop_step [OF _ this] show ?thesis by simp
qed

lemma hstore_loop_pair:
  assumes st: "between_pairs pre st" and k: "plain_key (fst x)" and v: "safe_value (snd x)"
  shows "hstore_loop (pre @ pair_text x @ suf) (length pre) st =
    hstore_loop (pre @ pair_text x @ suf) (length (pre @ pair_text x))
      (st\<lparr>hst_result := AList.update (fst x) (Some (snd x)) (hst_result st)\<rparr>)"
proof -
  let ?k = "fst x" and ?v = "escape_quoted (snd x)"
  let ?key = "[dquote] @ ?k @ [dquote]"
  let ?val = "[dquote] @ ?v @ [dquote]"
  let ?n = "length (pre @ ?key @ ''=>'')"
  let ?st1 = "st\<lparr>hst_key_start := Suc (length pre), hst_key_end := length pre + length ?k\<rparr>"
  let ?input = "pre @ ?key @ ''=>'' @ ?val @ suf"
  have esc: "escape_quoted ?k = ?k" using k by (intro escape_quoted_id) (auto simp: plain_key_def)
  have ck: "closed_body ?k"
    using k closed_body_escape_quoted [of ?k] esc by (simp add: plain_key_def not_ends_in_backslash)
  have cv: "closed_body ?v" using v by (simp add: closed_body_escape_quoted safe_value_def)
  have "hstore_loop ?input (length pre) st = hstore_loop ?input (length (pre @ ?key)) ?st1"
    using st k hstore_loop_quoted [OF _ ck, of pre st "''=>'' @ ?val @ suf" ?st1]
    by (cases st) (simp add: between_pairs_def ready_for_quote_def plain_key_def
        hstore_open_quote_def hstore_close_quote_def Let_def)
  also have "\<dots> = hstore_loop ?input ?n ?st1"
    using st hstore_loop_arrow [of ?st1 "pre @ ?key" "?val @ suf"]
    by (simp add: between_pairs_def ready_for_quote_def)
  also have "\<dots> = hstore_loop ?input (length (pre @ ?key @ ''=>'' @ ?val))
      (st\<lparr>hst_result := AList.update ?k (hstore_value ?v) (hst_result st)\<rparr>)"
  proof -
    have "substr ?input (Suc ?n) (sz_span (?n + length ?v) (Suc ?n)) = Inr ?v"
      using substr_middle [of "pre @ ?key @ ''=>'' @ [dquote]" ?v "dquote # suf"] by simp
    moreover have "substr ?input (Suc (length pre))
        (sz_span (length pre + length ?k) (Suc (length pre))) = Inr ?k" by simp
    moreover have "ready_for_quote (pre @ ?key @ ''=>'') ?st1"
      using st by (simp add: between_pairs_def ready_for_quote_def)
    ultimately show ?thesis
      using st k hstore_loop_quoted [OF _ cv, of "pre @ ?key @ ''=>''" ?st1 suf]
      by (cases st) (simp add: between_pairs_def ready_for_quote_def plain_key_def
          hstore_open_quote_def hstore_close_quote_def Let_def)
  qed
  finally show ?thesis using v by (simp add: pair_text_def double_quote_def esc hstore_value_escape)
qed

section \<open>A whole hstore\<close>

text \<open>PostgreSQL separates pairs by a comma and a space, \<^verbatim>\<open>as_text_hstore\<close> by a comma.\<close>

fun hstore_text :: "string \<Rightarrow> (string \<times> string) list \<Rightarrow> string" where
  "hstore_text sep [] = []"
| "hstore_text sep [x] = pair_text x"
| "hstore_text sep (x # y # zs) = pair_text x @ sep @ hstore_text sep (y # zs)"

definition good_pair :: "string \<times> string \<Rightarrow> bool" where
  "good_pair x \<longleftrightarrow> plain_key (fst x) \<and> safe_value (snd x)"

definition separator :: "string \<Rightarrow> bool" where
  "separator sep \<longleftrightarrow> set sep \<inter> {dquote, backslash, CHR ''=''} = {}"

lemma hstore_loop_separator:
  assumes "\<not> hst_in_quotes st" and "separator sep" and "pre \<noteq> []"
  shows "hstore_loop (pre @ sep @ suf) (length pre) st =
    hstore_loop (pre @ sep @ suf) (length (pre @ sep)) st"
proof -
  have "chain (hstore_inert st) (last pre) sep"
    using assms by (intro chain_indep) (auto simp: hstore_inert_def separator_def)
  from hstore_scanner.skip_chain [OF assms(3) this] show ?thesis by simp
qed

lemma pair_text_ends [simp]: "pair_text x \<noteq> []" "last (pair_text x) = dquote"
  by (simp_all add: pair_text_def double_quote_def)

lemma separator_last: "separator sep \<Longrightarrow> sep = [] \<or> last sep \<noteq> backslash"
  unfolding separator_def by (metis IntI empty_iff insertCI last_in_set)

lemma between_pairs_next:
  "between_pairs pre st \<Longrightarrow> separator sep \<Longrightarrow>
   between_pairs (pre @ pair_text x @ sep) (st\<lparr>hst_result := m\<rparr>)"
  using separator_last [of sep]
  by (cases "sep = []") (auto simp: between_pairs_def ready_for_quote_def last_append)

definition env_pairs :: "(string \<times> string option) list \<Rightarrow> (string \<times> string) list \<Rightarrow> (string \<times> string option) list" where
  "env_pairs al m = fold (\<lambda>x. AList.update (fst x) (Some (snd x))) m al"

lemma env_pairs_simps [simp]:
  "env_pairs al [] = al"
  "env_pairs al (x # m) = env_pairs (AList.update (fst x) (Some (snd x)) al) m"
  by (simp_all add: env_pairs_def)

lemma env_pairs_distinct:
  "distinct (map fst al @ map fst m) \<Longrightarrow> env_pairs al m = al @ map (\<lambda>(k, v). (k, Some v)) m"
  by (induction m arbitrary: al) (auto simp: update_fresh split_beta)

lemma map_of_env_pairs:
  "map_of (env_pairs al m) = map_of al ++ map_of (rev (map (\<lambda>(k, v). (k, Some v)) m))"
  by (induction m arbitrary: al) (auto simp: update_conv' map_add_def fun_eq_iff split: option.splits)

lemma hstore_loop_pairs:
  assumes "between_pairs pre st" and "list_all good_pair m" and "separator sep"
  shows "hstore_loop (pre @ hstore_text sep m) (length pre) st =
    Inr (env_pairs (hst_result st) m)"
  using assms
proof (induction sep m arbitrary: pre st rule: hstore_text.induct)
  case (1 sep)
  then show ?case by (simp add: hstore_loop_end)
next
  case (2 sep x)
  then show ?case
    using hstore_loop_pair [of pre st x "[]"]
    by (simp add: hstore_loop_end good_pair_def)
next
  case (3 sep x y zs)
  let ?st = "st\<lparr>hst_result := AList.update (fst x) (Some (snd x)) (hst_result st)\<rparr>"
  let ?rest = "hstore_text sep (y # zs)"
  have "hstore_loop (pre @ pair_text x @ sep @ ?rest) (length pre) st =
      hstore_loop ((pre @ pair_text x) @ sep @ ?rest) (length (pre @ pair_text x)) ?st"
    using "3.prems" hstore_loop_pair [of pre st x "sep @ ?rest"] by (simp add: good_pair_def)
  also have "\<dots> = hstore_loop ((pre @ pair_text x @ sep) @ ?rest) (length (pre @ pair_text x @ sep)) ?st"
    using "3.prems" hstore_loop_separator [of ?st sep "pre @ pair_text x" ?rest]
    by (simp add: between_pairs_def ready_for_quote_def)
  also have "\<dots> = Inr (env_pairs (hst_result ?st) (y # zs))"
    using "3.prems" by (intro "3.IH" between_pairs_next) simp_all
  finally show ?case by simp
qed

lemma from_text_hstore_text:
  assumes "list_all good_pair m" and "separator sep"
  shows "from_text_hstore (hstore_text sep m) = Inr (env_pairs [] m)"
  using hstore_loop_pairs [of "[]" hstore_scan_init m sep] assms
  by (simp add: from_text_hstore_def hstore_scan_init_def between_pairs_def ready_for_quote_def)


lemma as_text_hstore_pairs: "as_text_hstore m = hstore_text '','' m"
proof (induction "'',''" m rule: hstore_text.induct)
  case (3 x y zs)
  then show ?case by (simp add: as_text_hstore_def pair_text_def split_beta)
qed (auto simp: as_text_hstore_def pair_text_def split_beta)

interpretation hstore_format: text_format "list_all good_pair" as_text_hstore from_text_hstore
    "\<lambda>m. Inr (env_pairs [] m)"
  by unfold_locales (simp add: as_text_hstore_pairs from_text_hstore_text separator_def)

end
