(* ===== verification/NixCmd.thy ===== *)
theory NixCmd
  imports CmdQueueMeta TextHstore
begin

text \<open>
  \<^verbatim>\<open>NixQueueCmd\<close> without its \<^verbatim>\<open>run_cmd\<close> (\<^verbatim>\<open>nixqueuecmd.cpp\<close>, \<^verbatim>\<open>nixqueuecmd.h\<close>): the object,
  its construction from a row, the parameters of its \<^verbatim>\<open>UPDATE\<close>, and the line by line logging
  of what the command writes to its standard error.
\<close>

record nix_cmd =
  nx_is_valid :: bool
  nx_flush_stderr_pos :: nat
  nx_meta :: cmd_meta
  nx_cmd_argv :: "string list"
  nx_cmd_env :: "(string \<times> string) list"
  nx_cmd_stdin :: string
  nx_cmd_term_sig :: "int option"
  nx_cmd_exit_code :: "int option"
  nx_cmd_stdout :: string
  nx_cmd_stderr :: string

definition nix_cmd_blank :: "cmd_meta \<Rightarrow> nix_cmd" where
  "nix_cmd_blank meta = \<lparr>nx_is_valid = False, nx_flush_stderr_pos = 0, nx_meta = meta,
     nx_cmd_argv = [], nx_cmd_env = [], nx_cmd_stdin = [], nx_cmd_term_sig = None,
     nx_cmd_exit_code = None, nx_cmd_stdout = [], nx_cmd_stderr = []\<rparr>"

section \<open>Construction\<close>

text \<open>A column that must not be \<^verbatim>\<open>NULL\<close>, converted by \<open>f\<close>.\<close>

definition required_column ::
    "pg_result \<Rightarrow> nat \<Rightarrow> (string \<rightharpoonup> nat) \<Rightarrow> string \<Rightarrow> string \<Rightarrow> (string \<Rightarrow> fault + 'v) \<Rightarrow> fault + 'v" where
  "required_column res row field_numbers name message f =
     bind_exn (map_at field_numbers name)
       (\<lambda>col. if getisnull res row col then Inl (Exn (Domain_error message))
              else bind_exn (getvalue res row col) f)"

definition nix_cmd_assignments ::
    "bool \<Rightarrow> pg_result \<Rightarrow> nat \<Rightarrow> (string \<rightharpoonup> nat) \<Rightarrow> nix_cmd action list" where
  "nix_cmd_assignments asserts result row_number field_numbers =
    [assign (required_column result row_number field_numbers ''cmd_argv''
         ''`cmd_argv` should never be `NULL`.'' (text_array_value asserts))
       (\<lambda>v c. c\<lparr>nx_cmd_argv := v\<rparr>),
     assign (required_column result row_number field_numbers ''cmd_env''
         ''`cmd_env` should never be `NULL`.''
         (\<lambda>raw. bind_exn (from_text_hstore raw) throw_if_missing_any_value))
       (\<lambda>v c. c\<lparr>nx_cmd_env := v\<rparr>),
     assign (column result row_number field_numbers ''cmd_stdin'')
       (\<lambda>v c. c\<lparr>nx_cmd_stdin := v\<rparr>)]"

text \<open>
  The handler catches \<^verbatim>\<open>std::exception\<close>; a failed assertion aborts the process (\<open>Inl\<close>).
\<close>

definition nix_cmd_of_row ::
    "bool \<Rightarrow> pg_result \<Rightarrow> nat \<Rightarrow> (string \<rightharpoonup> nat) \<Rightarrow> fault + nix_cmd" where
  "nix_cmd_of_row asserts result row_number field_numbers =
     (case run_actions (nix_cmd_assignments asserts result row_number field_numbers)
         (nix_cmd_blank (cmd_meta_of_row result row_number field_numbers)) of
        (None, c) \<Rightarrow> Inr (c\<lparr>nx_is_valid := True\<rparr>)
      | (Some (Exn e), c) \<Rightarrow> Inr (c\<lparr>nx_is_valid := False\<rparr>)
      | (Some Assert_failed, c) \<Rightarrow> Inl Assert_failed)"

definition nix_cmd_of_args ::
    "string \<Rightarrow> string \<Rightarrow> string \<Rightarrow> string option \<Rightarrow> string list \<Rightarrow> (string \<times> string) list \<Rightarrow> string
     \<Rightarrow> nix_cmd" where
  "nix_cmd_of_args cmd_class_identity cmd_class_relname cmd_id cmd_subid cmd_argv cmd_env cmd_stdin =
     (nix_cmd_blank (cmd_meta_of_args cmd_class_identity cmd_class_relname cmd_id cmd_subid))
       \<lparr>nx_cmd_argv := cmd_argv, nx_cmd_env := cmd_env, nx_cmd_stdin := cmd_stdin\<rparr>"

text \<open>What a complete row is turned into, and a row whose environment cannot be read.\<close>

lemma required_column_row:
  "row_has res row fns name v \<Longrightarrow> required_column res row fns name m f =
    (case v of None \<Rightarrow> Inl (Exn (Domain_error m)) | Some s \<Rightarrow> f (c_string s))"
  by (auto simp: required_column_def row_has_def getisnull_def getvalue_cell split: option.splits)

lemma nix_cmd_of_row_ok:
  assumes "row_has res row fns ''cmd_argv'' (Some argv_text)" and "row_has res row fns ''cmd_env'' (Some env_text)"
    and "row_has res row fns ''cmd_stdin'' stdin_text"
    and "text_array_value asserts (c_string argv_text) = Inr argv"
    and "bind_exn (from_text_hstore (c_string env_text)) throw_if_missing_any_value = Inr env"
  shows "nix_cmd_of_row asserts res row fns = Inr ((nix_cmd_blank (cmd_meta_of_row res row fns))
    \<lparr>nx_cmd_argv := argv, nx_cmd_env := env,
     nx_cmd_stdin := (case stdin_text of None \<Rightarrow> [] | Some s \<Rightarrow> c_string s), nx_is_valid := True\<rparr>)"
  using assms(4,5)
  by (simp add: nix_cmd_of_row_def nix_cmd_assignments_def required_column_row [OF assms(1)]
      required_column_row [OF assms(2)] row_has_column(1) [OF assms(3)] split: option.split)

lemma nix_cmd_of_row_bad_env:
  assumes "row_has res row fns ''cmd_argv'' (Some argv_text)" and "row_has res row fns ''cmd_env'' (Some env_text)"
    and "text_array_value asserts (c_string argv_text) = Inr argv"
    and "bind_exn (from_text_hstore (c_string env_text)) throw_if_missing_any_value = Inl (Exn e)"
  shows "nix_cmd_of_row asserts res row fns = Inr ((nix_cmd_blank (cmd_meta_of_row res row fns))
    \<lparr>nx_cmd_argv := argv, nx_is_valid := False\<rparr>)"
  using assms(3,4)
  by (simp add: nix_cmd_of_row_def nix_cmd_assignments_def required_column_row [OF assms(1)]
      required_column_row [OF assms(2)])

section \<open>Parameters of the UPDATE\<close>

text \<open>\<^verbatim>\<open>PQ::as_text(std::optional<int>)\<close>\<close>

definition as_text_int :: "int option \<Rightarrow> string option" where
  "as_text_int i = map_option show_int i"

definition nix_update_params :: "nix_cmd \<Rightarrow> string option list" where
  "nix_update_params c =
    [Some (md_cmd_id (nx_meta c)),
     md_cmd_subid (nx_meta c),
     Some (show_f (md_cmd_runtime_start (nx_meta c))),
     Some (show_f (md_cmd_runtime_end (nx_meta c))),
     as_text_int (nx_cmd_exit_code c),
     as_text_int (nx_cmd_term_sig c),
     Some (nx_cmd_stdout c),
     Some (nx_cmd_stderr c)]"

text \<open>\<^verbatim>\<open>(const int)\<close> of a \<^verbatim>\<open>size_t\<close> keeps the low 32 bits, read as two's complement.\<close>

definition int_of_size :: "nat \<Rightarrow> int" where
  "int_of_size n = (let m = int (n mod 2 ^ 32) in if m < 2 ^ 31 then m else m - 2 ^ 32)"

definition nix_update_param_lengths :: "nix_cmd \<Rightarrow> int list" where
  "nix_update_param_lengths c =
     [-1, -1, -1, -1, -1, -1, int_of_size (length (nx_cmd_stdout c)), int_of_size (length (nx_cmd_stderr c))]"

definition nix_update_param_formats :: "nix_cmd \<Rightarrow> int list" where
  "nix_update_param_formats c = [0, 0, 0, 0, 0, 0, 1, 1]"

definition cmd_succeeded :: "nix_cmd \<Rightarrow> bool" where
  "cmd_succeeded c \<longleftrightarrow> nx_cmd_exit_code c = Some 0"

section \<open>The command line in the log\<close>

text \<open>
  \<^verbatim>\<open>std::regex_replace(arg, "^.*[ \"$?!&%#,;].*$", "\"$&\"")\<close>: an argument with one of the
  special characters is put between quotes; the dot matches no line terminator.
\<close>

definition special_in_cmd_line :: "char \<Rightarrow> bool" where
  "special_in_cmd_line c \<longleftrightarrow> c \<in> set ('' $?!&%#,;'') \<or> c = dquote"

definition cmd_line_arg :: "string \<Rightarrow> string" where
  "cmd_line_arg arg =
     (if (\<exists>c\<in>set arg. special_in_cmd_line c) \<and> newline \<notin> set arg \<and> carriage_return \<notin> set arg
      then [dquote] @ arg @ [dquote] else arg)"

fun cmd_line_loop :: "nat \<Rightarrow> string list \<Rightarrow> string" where
  "cmd_line_loop i [] = []"
| "cmd_line_loop i (arg # args) =
     (if i > 0 then '' '' else []) @ cmd_line_arg arg @ cmd_line_loop (Suc i) args"

definition cmd_line :: "nix_cmd \<Rightarrow> string" where
  "cmd_line c = cmd_line_loop 0 (nx_cmd_argv c)"

section \<open>Logging the standard error\<close>

definition is_line_end :: "char \<Rightarrow> bool" where
  "is_line_end c \<longleftrightarrow> c = newline \<or> c = carriage_return"

text \<open>
  The loop over the characters: the pending line and the lines logged, in order.  (The line is
  passed to the logger as its format string.)
\<close>

fun flush_chars :: "string \<Rightarrow> string \<Rightarrow> string \<times> string list" where
  "flush_chars line [] = (line, [])"
| "flush_chars line (c # cs) =
     (if is_line_end c then
        (let (line', logged) = flush_chars [] cs
         in (line', if line \<noteq> [] then line # logged else logged))
      else flush_chars (line @ [c]) cs)"

text \<open>\<^verbatim>\<open>string_view::substr\<close> throws when the position is past the end.\<close>

definition flush_stderr :: "bool \<Rightarrow> nix_cmd \<Rightarrow> fault + string list \<times> nix_cmd" where
  "flush_stderr flush_on_end c =
     (case substr (nx_cmd_stderr c) (nx_flush_stderr_pos c) (length (nx_cmd_stderr c)) of
        Inl f \<Rightarrow> Inl f
      | Inr v \<Rightarrow>
          (let (line, logged) = flush_chars [] v in
           Inr (if flush_on_end \<and> line \<noteq> [] then logged @ [line] else logged,
                c\<lparr>nx_flush_stderr_pos := nx_flush_stderr_pos c + length v\<rparr>)))"

text \<open>The complete nonempty lines of a text, and its unfinished last line.\<close>

definition complete_lines :: "string \<Rightarrow> string list" where
  "complete_lines s = snd (flush_chars [] s)"

definition unfinished_line :: "string \<Rightarrow> string" where
  "unfinished_line s = fst (flush_chars [] s)"

lemma flush_chars_append:
  "flush_chars line (xs @ ys) =
     (let (l1, g1) = flush_chars line xs; (l2, g2) = flush_chars l1 ys in (l2, g1 @ g2))"
  by (induction line xs rule: flush_chars.induct) (auto simp: Let_def split: prod.splits)

lemma complete_lines_append:
  "unfinished_line xs = [] \<Longrightarrow> complete_lines (xs @ ys) = complete_lines xs @ complete_lines ys"
  by (simp add: complete_lines_def unfinished_line_def flush_chars_append split_beta Let_def)

lemma flush_chars_line: "\<forall>c\<in>set s. \<not> is_line_end c \<Longrightarrow> flush_chars line s = (line @ s, [])"
  by (induction line s rule: flush_chars.induct) auto

lemma flush_stderr_eq:
  assumes "nx_flush_stderr_pos c \<le> length (nx_cmd_stderr c)"
  defines "v \<equiv> drop (nx_flush_stderr_pos c) (nx_cmd_stderr c)"
  shows "flush_stderr flush_on_end c =
    Inr (complete_lines v @ (if flush_on_end \<and> unfinished_line v \<noteq> [] then [unfinished_line v] else []),
         c\<lparr>nx_flush_stderr_pos := length (nx_cmd_stderr c)\<rparr>)"
  using assms
  by (simp add: flush_stderr_def complete_lines_def unfinished_line_def Let_def split_beta)

lemma flush_stderr_frame:
  "flush_stderr fin c = Inr (ls, c') \<Longrightarrow> \<exists>p. c' = c\<lparr>nx_flush_stderr_pos := p\<rparr>"
  by (auto simp: flush_stderr_def Let_def split: sum.splits prod.splits if_splits)

end
