(* ===== verification/Fds.thy ===== *)
theory Fds
  imports Prelude "HOL-Library.Multiset"
begin

text \<open>
  The wrappers of file descriptors, \<^verbatim>\<open>PipeFds\<close> (\<^verbatim>\<open>pipefds.cpp\<close>) and \<^verbatim>\<open>FdGuard\<close>
  (\<^verbatim>\<open>fdguard.cpp\<close>).  What the operating system answers is an input: a list of the results of
  the successive calls.  A loop that retries on \<^verbatim>\<open>EINTR\<close> returns \<open>None\<close> when the list ends
  before the loop does.  Every descriptor passed to \<^verbatim>\<open>close()\<close> is recorded.
\<close>

datatype errno = EINTR | EAGAIN | EACCES | EPIPE | Errno nat

text \<open>\<^verbatim>\<open>while ((close_result = close(fd)) == -1 && errno == EINTR) {}\<close>; \<open>None\<close> is success.\<close>

fun close_loop :: "errno option list \<Rightarrow> errno option option" where
  "close_loop [] = None"
| "close_loop (Some EINTR # as) = close_loop as"
| "close_loop (a # as) = Some a"

record pipe_fds =
  pf_read_fd :: int
  pf_write_fd :: int
  pf_closed :: "int list"

datatype fcntl_answer = Fcntl_ok | Fcntl_fails errno

text \<open>
  The constructor: \<^verbatim>\<open>pipe()\<close> answers an error or two descriptors, and with flags each end is
  reconfigured by \<^verbatim>\<open>fcntl()\<close>.  When it throws, the destructor does not run.
\<close>

definition PipeFds ::
    "(errno \<Rightarrow> string) \<Rightarrow> nat \<Rightarrow> errno + int \<times> int \<Rightarrow> fcntl_answer \<Rightarrow> fcntl_answer \<Rightarrow> fault + pipe_fds" where
  "PipeFds strerror pipe2_flags pipe_answer fcntl0 fcntl1 =
     (case pipe_answer of
        Inl e \<Rightarrow> Inl (Exn (Runtime_error (strerror e)))
      | Inr (r, w) \<Rightarrow>
          (if pipe2_flags \<noteq> 0 then
             (case fcntl0 of
                Fcntl_fails e \<Rightarrow> Inl (Exn (Runtime_error (strerror e)))
              | Fcntl_ok \<Rightarrow>
                  (case fcntl1 of
                     Fcntl_fails e \<Rightarrow> Inl (Exn (Runtime_error (strerror e)))
                   | Fcntl_ok \<Rightarrow> Inr \<lparr>pf_read_fd = r, pf_write_fd = w, pf_closed = []\<rparr>))
           else Inr \<lparr>pf_read_fd = r, pf_write_fd = w, pf_closed = []\<rparr>))"

text \<open>
  Closing an end: nothing for an end closed before; else the member becomes \<open>-1\<close>, also when
  \<^verbatim>\<open>close()\<close> failed and the function throws.
\<close>

definition close_read_fd ::
    "(errno \<Rightarrow> string) \<Rightarrow> errno option list \<Rightarrow> pipe_fds \<Rightarrow> (fault option \<times> pipe_fds) option" where
  "close_read_fd strerror answers p =
     (if pf_read_fd p = -1 then Some (None, p)
      else
        (case close_loop answers of
           None \<Rightarrow> None
         | Some r \<Rightarrow>
             Some (map_option (\<lambda>e. Exn (Runtime_error (strerror e))) r,
                   p\<lparr>pf_read_fd := -1, pf_closed := pf_closed p @ [pf_read_fd p]\<rparr>)))"

definition close_write_fd ::
    "(errno \<Rightarrow> string) \<Rightarrow> errno option list \<Rightarrow> pipe_fds \<Rightarrow> (fault option \<times> pipe_fds) option" where
  "close_write_fd strerror answers p =
     (if pf_write_fd p = -1 then Some (None, p)
      else
        (case close_loop answers of
           None \<Rightarrow> None
         | Some r \<Rightarrow>
             Some (map_option (\<lambda>e. Exn (Runtime_error (strerror e))) r,
                   p\<lparr>pf_write_fd := -1, pf_closed := pf_closed p @ [pf_write_fd p]\<rparr>)))"

text \<open>
  The destructor closes both ends; an exception that leaves it (it is \<^verbatim>\<open>noexcept\<close>) terminates
  the program, which is the first component of the result.
\<close>

definition destroy_PipeFds ::
    "(errno \<Rightarrow> string) \<Rightarrow> errno option list \<Rightarrow> errno option list \<Rightarrow> pipe_fds \<Rightarrow> (fault option \<times> pipe_fds) option" where
  "destroy_PipeFds strerror answers0 answers1 p =
     (case close_read_fd strerror answers0 p of
        None \<Rightarrow> None
      | Some (Some f, p') \<Rightarrow> Some (Some f, p')
      | Some (None, p') \<Rightarrow> close_write_fd strerror answers1 p')"

text \<open>\<^verbatim>\<open>FdGuard\<close>: a descriptor that is not \<open>-1\<close>, closed once by the destructor, which ignores errors.\<close>

definition FdGuard :: "(errno \<Rightarrow> string) \<Rightarrow> errno \<Rightarrow> int \<Rightarrow> fault + int" where
  "FdGuard strerror errno fd = (if fd = -1 then Inl (Exn (Runtime_error (strerror errno))) else Inr fd)"

definition destroy_FdGuard :: "errno option list \<Rightarrow> int \<Rightarrow> int list option" where
  "destroy_FdGuard answers fd = (case close_loop answers of None \<Rightarrow> None | Some r \<Rightarrow> Some [fd])"

section \<open>Every descriptor is closed at most once\<close>

text \<open>The descriptors that \<open>p\<close> still owns.\<close>

definition owned_fds :: "pipe_fds \<Rightarrow> int list" where
  "owned_fds p = filter (\<lambda>fd. fd \<noteq> -1) [pf_read_fd p, pf_write_fd p]"

lemma close_loop_retries: "close_loop (replicate n (Some EINTR) @ as) = close_loop as"
  by (induction n) simp_all

lemma close_loop_returns: "a \<noteq> Some EINTR \<Longrightarrow> close_loop (replicate n (Some EINTR) @ [a]) = Some a"
  by (cases a rule: option.exhaust; cases "the a") (auto simp: close_loop_retries)

lemma close_read_fd_effect:
  assumes "close_read_fd strerror answers p = Some (f, p')"
  shows "pf_read_fd p' = -1" and "pf_write_fd p' = pf_write_fd p"
    and "mset (pf_closed p') + mset (owned_fds p') = mset (pf_closed p) + mset (owned_fds p)"
  using assms by (auto simp: close_read_fd_def owned_fds_def split: if_splits option.splits)

lemma close_write_fd_effect:
  assumes "close_write_fd strerror answers p = Some (f, p')"
  shows "pf_write_fd p' = -1" and "pf_read_fd p' = pf_read_fd p"
    and "mset (pf_closed p') + mset (owned_fds p') = mset (pf_closed p) + mset (owned_fds p)"
  using assms by (auto simp: close_write_fd_def owned_fds_def split: if_splits option.splits)

lemma close_twice:
  assumes "close_write_fd strerror answers p = Some (f, p')"
  shows "close_write_fd strerror answers' p' = Some (None, p')"
  using close_write_fd_effect(1) [OF assms] by (simp add: close_write_fd_def)

lemma destroy_closes_all:
  assumes "destroy_PipeFds strerror answers0 answers1 p = Some (None, p')"
  shows "owned_fds p' = []" and "mset (pf_closed p') = mset (pf_closed p) + mset (owned_fds p)"
proof -
  obtain p1 where p1: "close_read_fd strerror answers0 p = Some (None, p1)"
    and p': "close_write_fd strerror answers1 p1 = Some (None, p')"
    using assms by (auto simp: destroy_PipeFds_def split: option.splits)
  show none: "owned_fds p' = []"
    using close_read_fd_effect(1) [OF p1] close_write_fd_effect(1,2) [OF p'] by (simp add: owned_fds_def)
  show "mset (pf_closed p') = mset (pf_closed p) + mset (owned_fds p)"
    using close_read_fd_effect(3) [OF p1] close_write_fd_effect(3) [OF p'] none by simp
qed

end
