(* ===== verification/Turns.thy ===== *)
theory Turns
  imports Prelude
begin

text \<open>
  The event loops of the program (\<^verbatim>\<open>while (true)\<close> around \<^verbatim>\<open>poll()\<close> or a condition
  variable) have one shape: a turn of the loop consumes what the environment answers during it and
  ends in one of four ways.  This theory holds that shape, the rule for composing the phases of a
  turn, and the contract (a locale) by which an invariant of one turn is one of the loop.
\<close>

text \<open>
  How one turn ends: with the next turn, by leaving the loop, by an exception, or not yet (the
  process still sits in a system call).
\<close>

datatype 'a turn = Next 'a | Leave 'a | Throws fault 'a | Blocked

fun and_then :: "'a turn \<Rightarrow> ('a \<Rightarrow> 'a turn) \<Rightarrow> 'a turn" where
  "and_then (Next st) f = f st"
| "and_then (Leave st) f = Leave st"
| "and_then (Throws x st) f = Throws x st"
| "and_then Blocked f = Blocked"

text \<open>The loop over the answers; \<open>Next\<close> as the result of the whole is a loop that still runs.\<close>

fun run_turns :: "('i \<Rightarrow> 's \<Rightarrow> 's turn) \<Rightarrow> 'i list \<Rightarrow> 's \<Rightarrow> 's turn" where
  "run_turns step [] st = Next st"
| "run_turns step (i # is) st = and_then (step i st) (run_turns step is)"

text \<open>
  \<open>ends P Q R t\<close>: the state satisfies \<open>P\<close> when the loop goes on, \<open>Q\<close> when it is left and
  \<open>R\<close> when an exception passes.
\<close>

definition ends :: "('s \<Rightarrow> bool) \<Rightarrow> ('s \<Rightarrow> bool) \<Rightarrow> (fault \<Rightarrow> 's \<Rightarrow> bool) \<Rightarrow> 's turn \<Rightarrow> bool" where
  "ends P Q R t = (case t of Next s \<Rightarrow> P s | Leave s \<Rightarrow> Q s | Throws f s \<Rightarrow> R f s | Blocked \<Rightarrow> True)"

lemma ends_simps [simp]:
  "ends P Q R (Next s) = P s"
  "ends P Q R (Leave s) = Q s"
  "ends P Q R (Throws f s) = R f s"
  "ends P Q R Blocked"
  by (simp_all add: ends_def)

lemma ends_and_then:
  assumes "ends P Q R t" and "\<And>s. P s \<Longrightarrow> ends P' Q R (f s)"
  shows "ends P' Q R (and_then t f)"
  using assms by (cases t) simp_all

lemma ends_mono:
  assumes "ends P Q R t" and "\<And>s. P s \<Longrightarrow> P' s" and "\<And>s. Q s \<Longrightarrow> Q' s" and "\<And>f s. R f s \<Longrightarrow> R' f s"
  shows "ends P' Q' R' t"
  using assms by (cases t) simp_all

lemma run_turns_append: "run_turns step (is @ js) st = and_then (run_turns step is st) (run_turns step js)"
proof (induction "is" arbitrary: st)
  case (Cons i "is")
  then show ?case by (cases "step i st") simp_all
qed simp

text \<open>
  The contract of a turn: started in a state of \<open>keeps\<close> it ends in one of \<open>keeps\<close>, in one of
  \<open>leaves\<close> when it leaves the loop, and in one of \<open>throws\<close> when it throws.
\<close>

locale turn_contract =
  fixes step :: "'i \<Rightarrow> 's \<Rightarrow> 's turn" and keeps :: "'s \<Rightarrow> bool" and leaves :: "'s \<Rightarrow> bool"
    and throws :: "fault \<Rightarrow> 's \<Rightarrow> bool"
  assumes turn: "keeps st \<Longrightarrow> ends keeps leaves throws (step i st)"
begin

lemma loop: "keeps st \<Longrightarrow> ends keeps leaves throws (run_turns step is st)"
proof (induction "is" arbitrary: st)
  case (Cons i "is")
  then show ?case by (auto intro: ends_and_then turn)
qed simp

lemma loop_next: "keeps st \<Longrightarrow> run_turns step is st = Next st' \<Longrightarrow> keeps st'"
  using loop [of st "is"] by simp

lemma loop_leave: "keeps st \<Longrightarrow> run_turns step is st = Leave st' \<Longrightarrow> leaves st'"
  using loop [of st "is"] by simp

lemma loop_throw: "keeps st \<Longrightarrow> run_turns step is st = Throws f st' \<Longrightarrow> throws f st'"
  using loop [of st "is"] by simp

end

end
