(* ===== verification/NixRun.thy ===== *)
theory NixRun
  imports NixCmd Fds Turns
begin

text \<open>
  \<^verbatim>\<open>NixQueueCmd::run_cmd\<close> (\<^verbatim>\<open>nixqueuecmd.cpp\<close>): the fork, what the child does before
  \<^verbatim>\<open>execvp()\<close>, the loop of the parent around \<^verbatim>\<open>poll()\<close>, and the collection of the
  result.  The operating system is an input: one \<open>iteration\<close> record holds everything it answers
  during one turn of the loop (clock, \<^verbatim>\<open>waitpid()\<close>, \<^verbatim>\<open>poll()\<close>, and the results of
  the successive calls of \<^verbatim>\<open>write()\<close>, \<^verbatim>\<open>read()\<close> and \<^verbatim>\<open>close()\<close>), and a
  run is given by a list of such records.  A turn in which the answers end before the code stops
  asking is \<open>Blocked\<close>: the process still sits in that call.  \<^verbatim>\<open>double\<close>s are rational
  numbers; the times are seconds.
\<close>

definition CMDQD_PIPE_BUFFER_SIZE :: nat where "CMDQD_PIPE_BUFFER_SIZE = 512"

definition GRACE_SECONDS_BETWEEN_SIGTERM_AND_SIGKILL :: rat where
  "GRACE_SECONDS_BETWEEN_SIGTERM_AND_SIGKILL = 1"

section \<open>Answers of the operating system\<close>

datatype wait_status = Exited int | Signaled int | Neither

datatype wait_result = Wait_error errno | Not_yet | Reaped wait_status

datatype write_result = Wrote nat | Write_error errno

datatype read_result = Got string | Read_error errno

record poll_flags =
  POLLIN :: bool
  POLLOUT :: bool
  POLLERR :: bool
  POLLHUP :: bool

record pollfd =
  pfd_fd :: int
  pfd_events :: poll_flags

definition no_flags :: poll_flags where
  "no_flags = \<lparr>POLLIN = False, POLLOUT = False, POLLERR = False, POLLHUP = False\<rparr>"

text \<open>
  What \<^verbatim>\<open>poll()\<close> documents: \<^verbatim>\<open>revents\<close> is 0 for a negative descriptor, and has no flags
  but the requested ones, \<^verbatim>\<open>POLLERR\<close> and \<^verbatim>\<open>POLLHUP\<close>; the count is that of the
  descriptors with a nonzero \<^verbatim>\<open>revents\<close>.
\<close>

definition revents :: "pollfd \<Rightarrow> poll_flags \<Rightarrow> poll_flags" where
  "revents p ready =
     (if pfd_fd p < 0 then no_flags
      else \<lparr>POLLIN = (POLLIN (pfd_events p) \<and> POLLIN ready),
            POLLOUT = (POLLOUT (pfd_events p) \<and> POLLOUT ready),
            POLLERR = POLLERR ready, POLLHUP = POLLHUP ready\<rparr>)"

record iteration =
  it_now :: rat
  it_wait :: wait_result
  it_poll :: "errno + poll_flags \<times> poll_flags \<times> poll_flags"
  it_now_after :: rat
  it_kill_wait :: "errno + wait_status"
  it_writes :: "write_result list"
  it_stdin_close :: "errno option list"
  it_stdout_reads :: "read_result list"
  it_stderr_reads :: "read_result list"

section \<open>State of the loop\<close>

text \<open>
  \<open>rs_sent\<close>, \<open>rs_kills\<close> and \<open>rs_log\<close> record what was passed to \<^verbatim>\<open>write()\<close>, to
  \<^verbatim>\<open>kill()\<close> (with the time the code knows) and to the logger (its debugging levels
  apart), and \<open>rs_sigmask\<close> is the signal mask of the thread; the others are the local variables.
\<close>

record run_state =
  rs_cmd :: nix_cmd
  rs_pid :: int
  rs_sigmask :: "signal set"
  rs_stdin_fds :: pipe_fds
  rs_stdout_fds :: pipe_fds
  rs_stderr_fds :: pipe_fds
  rs_fd0 :: pollfd
  rs_fd1 :: pollfd
  rs_fd2 :: pollfd
  rs_cum_stdin_bytes_written :: nat
  rs_tried_sigterm :: bool
  rs_sigterm_time :: rat
  rs_res_pid :: wait_result
  rs_reaped :: bool
  rs_sent :: string
  rs_kills :: "(signal \<times> rat) list"
  rs_log :: "(log_level \<times> string) list"

text \<open>The ways to fail with a message on \<^verbatim>\<open>cmd_stderr\<close> and \<^verbatim>\<open>SIGABRT\<close>.\<close>

definition abort_with :: "string \<Rightarrow> nix_cmd \<Rightarrow> nix_cmd" where
  "abort_with message c = c\<lparr>nx_cmd_stderr := message, nx_cmd_term_sig := Some (int SIGABRT)\<rparr>"

definition log_at :: "log_level \<Rightarrow> string \<Rightarrow> run_state \<Rightarrow> run_state" where
  "log_at level line st = st\<lparr>rs_log := rs_log st @ [(level, line)]\<rparr>"

section \<open>Reading and writing\<close>

text \<open>
  The inner loop over \<^verbatim>\<open>write()\<close>, from \<open>cum\<close> bytes written: the system accepts at most what
  it is given.  The result is the new count, the bytes accepted, and the error.
\<close>

fun write_stdin :: "write_result list \<Rightarrow> string \<Rightarrow> nat \<Rightarrow> string \<Rightarrow> (nat \<times> string \<times> errno option) option" where
  "write_stdin answers data cum sent =
     (if cum < length data then
        (case answers of
           [] \<Rightarrow> None
         | Write_error EINTR # as \<Rightarrow> write_stdin as data cum sent
         | Write_error e # as \<Rightarrow> Some (cum, sent, Some e)
         | Wrote n # as \<Rightarrow>
             (let n' = min n (length data - cum)
              in write_stdin as data (cum + n') (sent @ take n' (drop cum data))))
      else Some (cum, sent, None))"

declare write_stdin.simps [simp del]

text \<open>
  The inner loop over \<^verbatim>\<open>read()\<close>: at most a buffer at a time, until the end of file (an empty
  answer) or an error, of which \<^verbatim>\<open>EAGAIN\<close> is none.
\<close>

fun read_all :: "read_result list \<Rightarrow> string \<Rightarrow> (string \<times> errno option) option" where
  "read_all [] acc = None"
| "read_all (Got s # as) acc =
     (if s = [] then Some (acc, None) else read_all as (acc @ take CMDQD_PIPE_BUFFER_SIZE s))"
| "read_all (Read_error e # as) acc = Some (acc, if e = EAGAIN then None else Some e)"

section \<open>One turn of the loop\<close>

text \<open>\<^verbatim>\<open>waitpid(pid, &wstatus, WNOHANG)\<close>, unless the child has been reaped before.\<close>

definition wait_phase :: "iteration \<Rightarrow> run_state \<Rightarrow> run_state turn" where
  "wait_phase it st =
     (if rs_reaped st then Next st
      else
        (case it_wait it of
           Not_yet \<Rightarrow> Next (st\<lparr>rs_res_pid := Not_yet\<rparr>)
         | Wait_error e \<Rightarrow> Leave (st\<lparr>rs_res_pid := Wait_error e\<rparr>)
         | Reaped s \<Rightarrow> Next (st\<lparr>rs_res_pid := Reaped s, rs_reaped := True\<rparr>)))"

text \<open>The milliseconds for \<^verbatim>\<open>poll()\<close>; \<open>-1\<close> waits for ever.\<close>

definition poll_timeout :: "rat \<Rightarrow> iteration \<Rightarrow> run_state \<Rightarrow> int" where
  "poll_timeout queue_cmd_timeout_sec it st =
     (if rs_reaped st then 0
      else if queue_cmd_timeout_sec = 0 then -1
      else max 0 (trunc ((queue_cmd_timeout_sec
             - (it_now it - md_cmd_runtime_start (nx_meta (rs_cmd st)))
             + (if rs_tried_sigterm st then GRACE_SECONDS_BETWEEN_SIGTERM_AND_SIGKILL else 0)) * 1000)))"

text \<open>\<^verbatim>\<open>fd_count == 0\<close>: nothing is ready.\<close>

definition on_quiet :: "rat \<Rightarrow> iteration \<Rightarrow> run_state \<Rightarrow> run_state turn" where
  "on_quiet queue_cmd_timeout_sec it st =
     (if rs_reaped st then Leave st
      else
        let now = it_now_after it in
        if now - md_cmd_runtime_start (nx_meta (rs_cmd st)) \<ge> queue_cmd_timeout_sec then
          (if rs_tried_sigterm st then
             (if now - rs_sigterm_time st > GRACE_SECONDS_BETWEEN_SIGTERM_AND_SIGKILL then
                Leave ((log_at LOG_ERROR
                   (''We tried to kill PID '' @ show_int (rs_pid st) @ '' gently, '' @
                    show_f (now - rs_sigterm_time st) @
                    '' seconds ago; now we will SIGKILL it.'') st)
                  \<lparr>rs_res_pid := (case it_kill_wait it of Inl e \<Rightarrow> Wait_error e | Inr s \<Rightarrow> Reaped s),
                   rs_kills := rs_kills st @ [(SIGKILL, now)]\<rparr>)
              else Next st)
           else
             Next ((log_at LOG_ERROR
                (''queue_cmd_timeout of '' @ show_f queue_cmd_timeout_sec @
                 ''sec exceeded; sending SIGTERM signal to PID '' @ show_int (rs_pid st)) st)
               \<lparr>rs_tried_sigterm := True, rs_sigterm_time := now,
                rs_kills := rs_kills st @ [(SIGTERM, now)]\<rparr>))
        else Next st)"

definition on_stdin :: "(errno \<Rightarrow> string) \<Rightarrow> iteration \<Rightarrow> poll_flags \<Rightarrow> run_state \<Rightarrow> run_state turn" where
  "on_stdin strerror it revs st =
     (if POLLOUT revs then
        (case write_stdin (it_writes it) (nx_cmd_stdin (rs_cmd st)) (rs_cum_stdin_bytes_written st) (rs_sent st) of
           None \<Rightarrow> Blocked
         | Some (cum, sent, Some e) \<Rightarrow>
             Leave (st\<lparr>rs_cmd := abort_with (''Error during write() to cmd STDIN: '' @ strerror e) (rs_cmd st),
                       rs_cum_stdin_bytes_written := cum, rs_sent := sent\<rparr>)
         | Some (cum, sent, None) \<Rightarrow>
             (let st' = st\<lparr>rs_cum_stdin_bytes_written := cum, rs_sent := sent\<rparr> in
              if cum = length (nx_cmd_stdin (rs_cmd st)) then
                (case close_write_fd strerror (it_stdin_close it) (rs_stdin_fds st) of
                   None \<Rightarrow> Blocked
                 | Some (Some f, p) \<Rightarrow> Throws f (st'\<lparr>rs_stdin_fds := p\<rparr>)
                 | Some (None, p) \<Rightarrow>
                     Next (st'\<lparr>rs_stdin_fds := p, rs_fd0 := \<lparr>pfd_fd = -1, pfd_events = no_flags\<rparr>\<rparr>))
              else Next st'))
      else Next st)"

definition on_stdout :: "(errno \<Rightarrow> string) \<Rightarrow> iteration \<Rightarrow> poll_flags \<Rightarrow> run_state \<Rightarrow> run_state turn" where
  "on_stdout strerror it revs st =
     (if POLLIN revs then
        (case read_all (it_stdout_reads it) (nx_cmd_stdout (rs_cmd st)) of
           None \<Rightarrow> Blocked
         | Some (out, None) \<Rightarrow> Next (st\<lparr>rs_cmd := (rs_cmd st)\<lparr>nx_cmd_stdout := out\<rparr>\<rparr>)
         | Some (out, Some e) \<Rightarrow>
             Leave (st\<lparr>rs_cmd := abort_with (''Error during read() from cmd STDOUT: '' @ strerror e)
                                  ((rs_cmd st)\<lparr>nx_cmd_stdout := out\<rparr>)\<rparr>))
      else Next st)"

definition on_stderr :: "(errno \<Rightarrow> string) \<Rightarrow> iteration \<Rightarrow> poll_flags \<Rightarrow> run_state \<Rightarrow> run_state turn" where
  "on_stderr strerror it revs st =
     (if POLLIN revs then
        (case read_all (it_stderr_reads it) (nx_cmd_stderr (rs_cmd st)) of
           None \<Rightarrow> Blocked
         | Some (err, Some e) \<Rightarrow>
             Leave (st\<lparr>rs_cmd := abort_with (''Error during read() from cmd STDERR: '' @ strerror e) (rs_cmd st)\<rparr>)
         | Some (err, None) \<Rightarrow>
             (case flush_stderr False ((rs_cmd st)\<lparr>nx_cmd_stderr := err\<rparr>) of
                Inl f \<Rightarrow> Throws f (st\<lparr>rs_cmd := (rs_cmd st)\<lparr>nx_cmd_stderr := err\<rparr>\<rparr>)
              | Inr (lines, c) \<Rightarrow>
                  Next (st\<lparr>rs_cmd := c, rs_log := rs_log st @ map (Pair LOG_NOTICE) lines\<rparr>)))
      else Next st)"

definition hung_up :: "poll_flags \<Rightarrow> bool" where
  "hung_up revs \<longleftrightarrow> POLLERR revs \<or> POLLHUP revs"

definition on_hangup :: "poll_flags \<Rightarrow> poll_flags \<Rightarrow> poll_flags \<Rightarrow> run_state \<Rightarrow> run_state turn" where
  "on_hangup revents0 revents1 revents2 st =
     Next (st\<lparr>rs_fd0 := (if hung_up revents0 then (rs_fd0 st)\<lparr>pfd_fd := -1\<rparr> else rs_fd0 st),
              rs_fd1 := (if hung_up revents1 then (rs_fd1 st)\<lparr>pfd_fd := -1\<rparr> else rs_fd1 st),
              rs_fd2 := (if hung_up revents2 then (rs_fd2 st)\<lparr>pfd_fd := -1\<rparr> else rs_fd2 st)\<rparr>)"

text \<open>
  The part of the turn from \<^verbatim>\<open>poll()\<close> on.  With a timeout of \<open>-1\<close> the call does not
  return 0.
\<close>

definition poll_phase ::
    "(errno \<Rightarrow> string) \<Rightarrow> rat \<Rightarrow> iteration \<Rightarrow> run_state \<Rightarrow> run_state turn" where
  "poll_phase strerror queue_cmd_timeout_sec it st =
     (case it_poll it of
        Inl e \<Rightarrow>
          (if e = EINTR then Next st
           else Leave (st\<lparr>rs_cmd := abort_with (''poll() error: '' @ strerror e) (rs_cmd st)\<rparr>))
      | Inr (ready0, ready1, ready2) \<Rightarrow>
          (let revents0 = revents (rs_fd0 st) ready0; revents1 = revents (rs_fd1 st) ready1;
               revents2 = revents (rs_fd2 st) ready2 in
           if revents0 = no_flags \<and> revents1 = no_flags \<and> revents2 = no_flags then
             (if poll_timeout queue_cmd_timeout_sec it st = -1 then Blocked
              else on_quiet queue_cmd_timeout_sec it st)
           else
             and_then (and_then (and_then
               (on_stdin strerror it revents0 st)
               (on_stdout strerror it revents1))
               (on_stderr strerror it revents2))
               (on_hangup revents0 revents1 revents2)))"

definition run_iteration ::
    "(errno \<Rightarrow> string) \<Rightarrow> rat \<Rightarrow> iteration \<Rightarrow> run_state \<Rightarrow> run_state turn" where
  "run_iteration strerror queue_cmd_timeout_sec it st =
     and_then (wait_phase it st) (poll_phase strerror queue_cmd_timeout_sec it)"

text \<open>\<^verbatim>\<open>while (true)\<close>\<close>

definition run_loop ::
    "(errno \<Rightarrow> string) \<Rightarrow> rat \<Rightarrow> iteration list \<Rightarrow> run_state \<Rightarrow> run_state turn" where
  "run_loop strerror queue_cmd_timeout_sec =
     run_turns (run_iteration strerror queue_cmd_timeout_sec)"

section \<open>Collecting the result\<close>

text \<open>
  After the loop: \<^verbatim>\<open>if (res_pid == 0) res_pid = waitpid(pid, &wstatus, WNOHANG);\<close> and the
  reading of the status.
\<close>

definition collect_status :: "(errno \<Rightarrow> string) \<Rightarrow> int \<Rightarrow> wait_result \<Rightarrow> wait_result \<Rightarrow> nix_cmd \<Rightarrow> nix_cmd" where
  "collect_status strerror pid res_pid last_wait c =
     (case (if res_pid = Not_yet then last_wait else res_pid) of
        Wait_error e \<Rightarrow>
          c\<lparr>nx_cmd_term_sig := Some (-1),
            nx_cmd_stderr := nx_cmd_stderr c @ ''Unexpected error while calling `waitpid('' @ show_int pid @
              '', &wstatus, WNOHANG)`: '' @ [CHR 0x27] @ strerror e @ [CHR 0x27]\<rparr>
      | Not_yet \<Rightarrow> c
      | Reaped (Exited n) \<Rightarrow> c\<lparr>nx_cmd_exit_code := Some n\<rparr>
      | Reaped (Signaled n) \<Rightarrow> c\<lparr>nx_cmd_term_sig := Some n\<rparr>
      | Reaped Neither \<Rightarrow> c\<lparr>nx_cmd_term_sig := Some (-2)\<rparr>)"

definition cmd_in_log :: "cmd_meta \<Rightarrow> string" where
  "cmd_in_log m = ''cmd_id = '' @ [CHR 0x27] @ c_string (md_cmd_id m) @ [CHR 0x27] @
     (case md_cmd_subid m of None \<Rightarrow> []
      | Some s \<Rightarrow> c_string ('' (cmd_subid = '' @ [CHR 0x27] @ s @ [CHR 0x27] @ '')''))"

text \<open>
  The report of a command that did not succeed: its whole standard error is logged again, as
  errors, the unfinished last line included.
\<close>

definition report_failure ::
    "(int \<Rightarrow> string) \<Rightarrow> nix_cmd \<Rightarrow> fault + (log_level \<times> string) list \<times> nix_cmd" where
  "report_failure strsignal c =
     (if cmd_succeeded c then Inr ([], c)
      else
        (case flush_stderr True (c\<lparr>nx_flush_stderr_pos := 0\<rparr>) of
           Inl f \<Rightarrow> Inl f
         | Inr (lines, c') \<Rightarrow>
             Inr (map (Pair LOG_ERROR)
               ((case nx_cmd_exit_code c of None \<Rightarrow> []
                 | Some n \<Rightarrow> (if n \<noteq> 0 then
                     [cmd_in_log (nx_meta c) @ '': exited with non-zero exit_code: '' @ show_int n] else [])) @
                (case nx_cmd_term_sig c of None \<Rightarrow> []
                 | Some n \<Rightarrow> [''Command '' @ c_string (md_cmd_id (nx_meta c)) @ '' terminated with signal: '' @
                     show_int n @ '' / '' @ strsignal n]) @
                [''==== BEGIN PROCESS STDERR ===''] @ lines @ [''==== END PROCESS STDERR ==='']), c')))"


definition finish_run ::
    "(errno \<Rightarrow> string) \<Rightarrow> (int \<Rightarrow> string) \<Rightarrow> wait_result \<Rightarrow> run_state \<Rightarrow> fault + run_state" where
  "finish_run strerror strsignal last_wait st =
     map_exn (\<lambda>(entries, c). st\<lparr>rs_cmd := c, rs_log := rs_log st @ entries\<rparr>)
       (report_failure strsignal (collect_status strerror (rs_pid st) (rs_res_pid st) last_wait (rs_cmd st)))"

section \<open>Starting the command\<close>

record start_answers =
  sa_stdin_pipe :: "errno + int \<times> int"
  sa_stdout_pipe :: "errno + int \<times> int"
  sa_stderr_pipe :: "errno + int \<times> int"
  sa_fork :: "errno + int"
  sa_setpgid :: "errno option"
  sa_sigprocmask :: "errno option"
  sa_close_stdin :: "errno option list"
  sa_close_stdout :: "errno option list"
  sa_close_stderr :: "errno option list"

text \<open>\<^verbatim>\<open>SIGINT\<close> and \<^verbatim>\<open>SIGQUIT\<close> are blocked (and nothing else is) around the fork.\<close>

definition fork_sigmask :: "signal set" where
  "fork_sigmask = {SIGINT, SIGQUIT}"

definition stdin_pollfd :: "int \<Rightarrow> string \<Rightarrow> pollfd" where
  "stdin_pollfd fd cmd_stdin =
     \<lparr>pfd_fd = fd, pfd_events = \<lparr>POLLIN = False, POLLOUT = (cmd_stdin \<noteq> []), POLLERR = True, POLLHUP = True\<rparr>\<rparr>"

definition output_pollfd :: "int \<Rightarrow> pollfd" where
  "output_pollfd fd =
     \<lparr>pfd_fd = fd, pfd_events = \<lparr>POLLIN = True, POLLOUT = False, POLLERR = True, POLLHUP = True\<rparr>\<rparr>"

text \<open>The state before the fork.\<close>

definition run_state_init :: "signal set \<Rightarrow> pipe_fds \<Rightarrow> pipe_fds \<Rightarrow> pipe_fds \<Rightarrow> nix_cmd \<Rightarrow> run_state" where
  "run_state_init sigmask p0 p1 p2 c =
    \<lparr>rs_cmd = c, rs_pid = 0, rs_sigmask = sigmask,
     rs_stdin_fds = p0, rs_stdout_fds = p1, rs_stderr_fds = p2,
     rs_fd0 = stdin_pollfd (pf_write_fd p0) (nx_cmd_stdin c),
     rs_fd1 = output_pollfd (pf_read_fd p1), rs_fd2 = output_pollfd (pf_read_fd p2),
     rs_cum_stdin_bytes_written = 0, rs_tried_sigterm = False, rs_sigterm_time = 0,
     rs_res_pid = Not_yet, rs_reaped = False, rs_sent = [], rs_kills = [],
     rs_log = [(LOG_INFO, cmd_in_log (nx_meta c) @ '': '' @ [CHR 0x1B] @ ''[1m'' @ c_string (cmd_line c) @
       [CHR 0x1B] @ ''[22m'')]\<rparr>"

text \<open>The three ends that the parent does not need.\<close>

definition close_child_ends :: "(errno \<Rightarrow> string) \<Rightarrow> start_answers \<Rightarrow> run_state \<Rightarrow> run_state turn" where
  "close_child_ends strerror sa st =
     (case close_read_fd strerror (sa_close_stdin sa) (rs_stdin_fds st) of
        None \<Rightarrow> Blocked
      | Some (Some f, p0) \<Rightarrow> Throws f (st\<lparr>rs_stdin_fds := p0\<rparr>)
      | Some (None, p0) \<Rightarrow>
     (case close_write_fd strerror (sa_close_stdout sa) (rs_stdout_fds st) of
        None \<Rightarrow> Blocked
      | Some (Some f, p1) \<Rightarrow> Throws f (st\<lparr>rs_stdin_fds := p0, rs_stdout_fds := p1\<rparr>)
      | Some (None, p1) \<Rightarrow>
     (case close_write_fd strerror (sa_close_stderr sa) (rs_stderr_fds st) of
        None \<Rightarrow> Blocked
      | Some (Some f, p2) \<Rightarrow> Throws f (st\<lparr>rs_stdin_fds := p0, rs_stdout_fds := p1, rs_stderr_fds := p2\<rparr>)
      | Some (None, p2) \<Rightarrow> Next (st\<lparr>rs_stdin_fds := p0, rs_stdout_fds := p1, rs_stderr_fds := p2\<rparr>))))"

definition restore_sigmask ::
    "(errno \<Rightarrow> string) \<Rightarrow> start_answers \<Rightarrow> signal set \<Rightarrow> run_state \<Rightarrow> run_state turn" where
  "restore_sigmask strerror sa old_sigmask st =
     (case sa_sigprocmask sa of
        Some e \<Rightarrow>
          Leave (st\<lparr>rs_cmd := abort_with (''sigprocmask() error: '' @ strerror e @ [newline]) (rs_cmd st)\<rparr>)
      | None \<Rightarrow> Next (st\<lparr>rs_sigmask := old_sigmask\<rparr>))"

text \<open>
  The parent's side of the fork: \<open>Leave\<close> is one of the early returns, which skip the
  restoration of the signal mask.
\<close>

definition fork_phase :: "(errno \<Rightarrow> string) \<Rightarrow> start_answers \<Rightarrow> run_state \<Rightarrow> run_state turn" where
  "fork_phase strerror sa st =
     (let st1 = st\<lparr>rs_sigmask := fork_sigmask\<rparr> in
      case sa_fork sa of
        Inl e \<Rightarrow>
          Leave ((log_at LOG_ERROR (''fork() failed: '' @ strerror e) st1)
            \<lparr>rs_cmd := abort_with (''fork() failed: '' @ strerror e) ((rs_cmd st)\<lparr>nx_cmd_stdout := []\<rparr>)\<rparr>)
      | Inr pid \<Rightarrow>
          (let st2 = st1\<lparr>rs_pid := pid\<rparr> in
           case sa_setpgid sa of
             Some e \<Rightarrow>
               (if e \<noteq> EACCES
                then Leave (st2\<lparr>rs_cmd := abort_with (''setpgid() error: '' @ strerror e @ [newline]) (rs_cmd st)\<rparr>)
                else restore_sigmask strerror sa (rs_sigmask st) st2)
           | None \<Rightarrow> restore_sigmask strerror sa (rs_sigmask st) st2))"

text \<open>The pipes, each of which may throw.\<close>

definition open_pipes :: "(errno \<Rightarrow> string) \<Rightarrow> start_answers \<Rightarrow> fault + pipe_fds \<times> pipe_fds \<times> pipe_fds" where
  "open_pipes strerror sa =
     bind_exn (PipeFds strerror 0 (sa_stdin_pipe sa) Fcntl_ok Fcntl_ok) (\<lambda>p0.
     bind_exn (PipeFds strerror 0 (sa_stdout_pipe sa) Fcntl_ok Fcntl_ok) (\<lambda>p1.
     bind_exn (PipeFds strerror 0 (sa_stderr_pipe sa) Fcntl_ok Fcntl_ok) (\<lambda>p2. Inr (p0, p1, p2))))"

section \<open>The child\<close>

text \<open>
  What the child does after the fork: it leaves the process group (or exits with 128), and the
  command replaces it with an environment of \<^verbatim>\<open>PATH\<close> and \<open>cmd_env\<close>; \<^verbatim>\<open>setenv()\<close> refuses
  an empty name and one with an equals sign.  Without \<^verbatim>\<open>PATH\<close> a string is made from a null
  pointer; an empty \<open>cmd_argv\<close> has no first element (\<open>Child_undefined\<close>).
\<close>

datatype child =
    Child_exit int
  | Child_throws fault
  | Child_exec string "string list" "(string \<times> string) list"
  | Child_undefined

definition setenv :: "(string \<times> string) list \<Rightarrow> string \<times> string \<Rightarrow> (string \<times> string) list" where
  "setenv env var =
     (let name = c_string (fst var) in
      if name = [] \<or> CHR ''='' \<in> set name then env else AList.update name (c_string (snd var)) env)"

definition child_environ :: "string \<Rightarrow> nix_cmd \<Rightarrow> (string \<times> string) list" where
  "child_environ path c = foldl setenv (setenv [] (''PATH'', path)) (nx_cmd_env c)"

definition child_logic :: "errno option \<Rightarrow> string option \<Rightarrow> nix_cmd \<Rightarrow> child" where
  "child_logic setpgid_answer PATH c =
     (if setpgid_answer \<noteq> None then Child_exit 128
      else
        (case string_of_ptr PATH of
           Inl f \<Rightarrow> Child_throws f
         | Inr path \<Rightarrow>
             (case nx_cmd_argv c of
                [] \<Rightarrow> Child_undefined
              | file # args \<Rightarrow> Child_exec (c_string file) (map c_string (nx_cmd_argv c)) (child_environ path c))))"

text \<open>What is left of the child when \<^verbatim>\<open>execvp()\<close> fails.\<close>

definition exec_failed_exit :: child where
  "exec_failed_exit = Child_exit 127"

section \<open>The whole of run_cmd\<close>

text \<open>The destructors of the three pipes, at every return; \<open>Throws\<close> ends the program.\<close>

definition destroy_pipes ::
    "(errno \<Rightarrow> string) \<Rightarrow> (nat \<Rightarrow> errno option list) \<Rightarrow> run_state \<Rightarrow> run_state turn" where
  "destroy_pipes strerror closes st =
     (case destroy_PipeFds strerror (closes 0) (closes 1) (rs_stderr_fds st) of
        None \<Rightarrow> Blocked
      | Some (Some f, p2) \<Rightarrow> Throws f (st\<lparr>rs_stderr_fds := p2\<rparr>)
      | Some (None, p2) \<Rightarrow>
     (case destroy_PipeFds strerror (closes 2) (closes 3) (rs_stdout_fds st) of
        None \<Rightarrow> Blocked
      | Some (Some f, p1) \<Rightarrow> Throws f (st\<lparr>rs_stderr_fds := p2, rs_stdout_fds := p1\<rparr>)
      | Some (None, p1) \<Rightarrow>
     (case destroy_PipeFds strerror (closes 4) (closes 5) (rs_stdin_fds st) of
        None \<Rightarrow> Blocked
      | Some (Some f, p0) \<Rightarrow> Throws f (st\<lparr>rs_stderr_fds := p2, rs_stdout_fds := p1, rs_stdin_fds := p0\<rparr>)
      | Some (None, p0) \<Rightarrow> Next (st\<lparr>rs_stderr_fds := p2, rs_stdout_fds := p1, rs_stdin_fds := p0\<rparr>))))"

text \<open>
  \<open>Next\<close> is a \<^verbatim>\<open>run_cmd\<close> that returned, \<open>Blocked\<close> one that still runs.
\<close>

definition run_cmd ::
    "(errno \<Rightarrow> string) \<Rightarrow> (int \<Rightarrow> string) \<Rightarrow> rat \<Rightarrow> start_answers \<Rightarrow> iteration list \<Rightarrow> wait_result
     \<Rightarrow> (nat \<Rightarrow> errno option list) \<Rightarrow> signal set \<Rightarrow> nix_cmd \<Rightarrow> fault + run_state turn" where
  "run_cmd strerror strsignal queue_cmd_timeout_sec sa its last_wait closes sigmask c =
     map_exn (\<lambda>(p0, p1, p2).
       (case fork_phase strerror sa (run_state_init sigmask p0 p1 p2 c) of
          Leave st \<Rightarrow> destroy_pipes strerror closes st
        | Next st \<Rightarrow>
            (case and_then (close_child_ends strerror sa st) (run_loop strerror queue_cmd_timeout_sec its) of
               Leave st' \<Rightarrow>
                 (case finish_run strerror strsignal last_wait st' of
                    Inl f \<Rightarrow> Throws f st'
                  | Inr st'' \<Rightarrow> destroy_pipes strerror closes st'')
             | Throws f st' \<Rightarrow> Throws f st'
             | Next st' \<Rightarrow> Blocked
             | Blocked \<Rightarrow> Blocked)
        | Throws f st \<Rightarrow> Throws f st
        | Blocked \<Rightarrow> Blocked))
     (open_pipes strerror sa)"

end
