(* ===== verification/NixRunFacts.thy ===== *)
theory NixRunFacts
  imports NixRun
begin

text \<open>
  What \<^verbatim>\<open>run_cmd\<close> keeps to.  \<open>nix_phases\<close> is the contract of the phases of a turn; every
  block of facts below is an interpretation of it: how much of the standard input has been
  passed on, when the process is sent a signal, which outcome is recorded, which descriptors are
  closed.
\<close>

locale nix_phases =
  fixes strerror :: "errno \<Rightarrow> string" and queue_cmd_timeout_sec :: rat
    and keeps :: "run_state \<Rightarrow> bool" and leaves :: "run_state \<Rightarrow> bool"
    and throws :: "fault \<Rightarrow> run_state \<Rightarrow> bool"
  assumes wait: "keeps st \<Longrightarrow> ends keeps leaves throws (wait_phase it st)"
    and poll_error: "keeps st \<Longrightarrow> leaves (st\<lparr>rs_cmd := abort_with m (rs_cmd st)\<rparr>)"
    and quiet: "keeps st \<Longrightarrow> rs_reaped st \<or> queue_cmd_timeout_sec \<noteq> 0
      \<Longrightarrow> ends keeps leaves throws (on_quiet queue_cmd_timeout_sec it st)"
    and stdin: "keeps st
      \<Longrightarrow> ends keeps leaves throws (on_stdin strerror it (revents (rs_fd0 st) ready) st)"
    and stdout: "keeps st \<Longrightarrow> ends keeps leaves throws (on_stdout strerror it revs st)"
    and stderr: "keeps st \<Longrightarrow> ends keeps leaves throws (on_stderr strerror it revs st)"
    and hangup: "keeps st \<Longrightarrow> ends keeps leaves throws (on_hangup revs0 revs1 revs2 st)"

sublocale nix_phases \<subseteq> turn_contract "run_iteration strerror queue_cmd_timeout_sec" keeps leaves throws
proof
  fix st it
  assume "keeps st"
  have "ends keeps leaves throws (poll_phase strerror queue_cmd_timeout_sec it st')" if "keeps st'" for st'
  proof -
    have "rs_reaped st' \<or> queue_cmd_timeout_sec \<noteq> 0"
      if "poll_timeout queue_cmd_timeout_sec it st' \<noteq> -1"
      using that by (auto simp: poll_timeout_def)
    with \<open>keeps st'\<close> show ?thesis
      by (auto simp: poll_phase_def Let_def intro!: ends_and_then poll_error quiet stdin stdout stderr hangup
          split: sum.split)
  qed
  then show "ends keeps leaves throws (run_iteration strerror queue_cmd_timeout_sec it st)"
    unfolding run_iteration_def by (intro ends_and_then [OF wait [OF \<open>keeps st\<close>]])
qed

lemma poll_waits_for_ever:
  "poll_timeout queue_cmd_timeout_sec it st = -1 \<longleftrightarrow> \<not> rs_reaped st \<and> queue_cmd_timeout_sec = 0"
  by (auto simp: poll_timeout_def)

lemmas phase_defs = wait_phase_def on_quiet_def on_stdin_def on_stdout_def on_stderr_def
  on_hangup_def abort_with_def log_at_def

section \<open>The inner loops\<close>

lemma write_stdin_prefix:
  "write_stdin answers data cum (take cum data) = Some (cum', sent, err) \<Longrightarrow> cum \<le> length data \<Longrightarrow>
    cum \<le> cum' \<and> cum' \<le> length data \<and> sent = take cum' data \<and> (err = None \<longleftrightarrow> cum' = length data)"
proof (induction answers arbitrary: cum)
  case Nil
  then show ?case by (auto simp: write_stdin.simps split: if_splits)
next
  case (Cons a answers)
  show ?case
  proof (cases "cum < length data")
    case False
    with Cons.prems show ?thesis by (simp add: write_stdin.simps)
  next
    case True
    show ?thesis
    proof (cases a)
      case (Wrote n)
      let ?n = "min n (length data - cum)"
      have "take cum data @ take ?n (drop cum data) = take (cum + ?n) data"
        by (rule take_add [symmetric])
      with Cons.prems(1) True Wrote
      have "write_stdin answers data (cum + ?n) (take (cum + ?n) data) = Some (cum', sent, err)"
        by (simp add: write_stdin.simps [of "Wrote n # answers"] Let_def)
      moreover have "cum + ?n \<le> length data" using True by simp
      ultimately have "cum + ?n \<le> cum' \<and> cum' \<le> length data \<and> sent = take cum' data \<and>
          (err = None \<longleftrightarrow> cum' = length data)"
        by (rule Cons.IH)
      then show ?thesis using le_add1 le_trans by blast
    next
      case (Write_error e)
      with Cons True show ?thesis
        by (cases e) (auto simp: write_stdin.simps [of "Write_error _ # answers"])
    qed
  qed
qed

text \<open>The chunks come out in order and without a gap, up to the end of file or \<^verbatim>\<open>EAGAIN\<close>.\<close>

lemma read_all_chunks:
  assumes "\<forall>s\<in>set chunks. s \<noteq> [] \<and> length s \<le> CMDQD_PIPE_BUFFER_SIZE"
  shows "read_all (map Got chunks @ Got [] # rest) acc = Some (acc @ concat chunks, None)"
    and "read_all (map Got chunks @ Read_error e # rest) acc =
      Some (acc @ concat chunks, if e = EAGAIN then None else Some e)"
  using assms by (induction chunks arbitrary: acc) simp_all

lemma read_all_extends: "read_all answers acc = Some (out, err) \<Longrightarrow> \<exists>s. out = acc @ s"
  by (induction answers acc rule: read_all.induct) (auto split: if_splits)

section \<open>The standard input\<close>

text \<open>
  What was passed on is a prefix of \<open>cmd_stdin\<close>, and the pipe is closed only when it is all of
  it; \<^verbatim>\<open>POLLOUT\<close> is only asked for when there is something to write.
\<close>

definition stdin_kept :: "string \<Rightarrow> run_state \<Rightarrow> bool" where
  "stdin_kept data st \<longleftrightarrow> nx_cmd_stdin (rs_cmd st) = data \<and>
     rs_cum_stdin_bytes_written st \<le> length data \<and>
     rs_sent st = take (rs_cum_stdin_bytes_written st) data \<and>
     (pf_write_fd (rs_stdin_fds st) = -1 \<longrightarrow> rs_cum_stdin_bytes_written st = length data \<and> data \<noteq> []) \<and>
     (POLLOUT (pfd_events (rs_fd0 st)) \<longrightarrow> data \<noteq> [])"

lemma revents_POLLOUT: "POLLOUT (revents p ready) \<Longrightarrow> POLLOUT (pfd_events p)"
  by (auto simp: revents_def no_flags_def split: if_splits)

interpretation stdin_turn: nix_phases strerror queue_cmd_timeout_sec "stdin_kept data" "stdin_kept data"
  "\<lambda>_. stdin_kept data"
  for strerror queue_cmd_timeout_sec data
proof
  fix st it ready
  assume kept: "stdin_kept data st"
  let ?rev = "revents (rs_fd0 st) ready"
  show "ends (stdin_kept data) (stdin_kept data) (\<lambda>_. stdin_kept data) (on_stdin strerror it ?rev st)"
  proof (cases "POLLOUT ?rev")
    case True
    with kept have "data \<noteq> []" by (auto simp: stdin_kept_def dest: revents_POLLOUT)
    with True kept show ?thesis
      by (auto simp: on_stdin_def stdin_kept_def abort_with_def no_flags_def Let_def
          dest!: write_stdin_prefix split: option.split prod.split if_splits)
  qed (simp add: on_stdin_def kept)
qed (auto simp: phase_defs stdin_kept_def Let_def flush_stderr_def
    split: option.split prod.split wait_result.split sum.splits if_splits)

section \<open>Signals to the child\<close>

text \<open>
  \<open>t\<close> is the time of the first signal of the log: no signal before the timeout, first one
  \<^verbatim>\<open>SIGTERM\<close>.
\<close>

definition gentle_kills :: "rat \<Rightarrow> rat \<Rightarrow> run_state \<Rightarrow> bool" where
  "gentle_kills timeout start st \<longleftrightarrow> md_cmd_runtime_start (nx_meta (rs_cmd st)) = start \<and>
     (if rs_tried_sigterm st
      then rs_kills st = [(SIGTERM, rs_sigterm_time st)] \<and> timeout \<le> rs_sigterm_time st - start \<and> timeout \<noteq> 0
      else rs_kills st = [])"

definition kill_discipline :: "rat \<Rightarrow> rat \<Rightarrow> (signal \<times> rat) list \<Rightarrow> bool" where
  "kill_discipline timeout start kills \<longleftrightarrow>
     kills = [] \<or>
     (\<exists>t. kills = [(SIGTERM, t)] \<and> timeout \<le> t - start \<and> timeout \<noteq> 0) \<or>
     (\<exists>t t'. kills = [(SIGTERM, t), (SIGKILL, t')] \<and> timeout \<le> t - start \<and> timeout \<noteq> 0 \<and>
        GRACE_SECONDS_BETWEEN_SIGTERM_AND_SIGKILL < t' - t)"

lemma gentle_kills_discipline: "gentle_kills timeout start st \<Longrightarrow> kill_discipline timeout start (rs_kills st)"
  by (auto simp: gentle_kills_def kill_discipline_def split: if_splits)

interpretation kill_turn: nix_phases strerror timeout "gentle_kills timeout start"
  "\<lambda>st. kill_discipline timeout start (rs_kills st)" "\<lambda>_ st. kill_discipline timeout start (rs_kills st)"
  for strerror timeout start
proof
  fix st it
  assume kept: "gentle_kills timeout start st" and active: "rs_reaped st \<or> timeout \<noteq> 0"
  show "ends (gentle_kills timeout start) (\<lambda>st. kill_discipline timeout start (rs_kills st))
    (\<lambda>_ st. kill_discipline timeout start (rs_kills st)) (on_quiet timeout it st)"
  proof (cases "rs_reaped st")
    case True
    with kept show ?thesis by (simp add: on_quiet_def gentle_kills_discipline)
  next
    case False
    with kept active show ?thesis
      by (auto simp: on_quiet_def Let_def log_at_def gentle_kills_def kill_discipline_def split: if_splits)
  qed
qed (auto simp: phase_defs gentle_kills_def kill_discipline_def Let_def flush_stderr_def
    split: option.split prod.split wait_result.split sum.splits if_splits)

text \<open>No signal goes to a process that has been waited for: the identifier may be reused.\<close>

definition reaped_with :: "(signal \<times> rat) list \<Rightarrow> run_state \<Rightarrow> bool" where
  "reaped_with kills st \<longleftrightarrow> rs_reaped st \<and> rs_kills st = kills"

interpretation reaped_turn: nix_phases strerror timeout "reaped_with kills" "\<lambda>st. rs_kills st = kills"
  "\<lambda>_ st. rs_kills st = kills"
  for strerror timeout kills
  by unfold_locales
    (auto simp: phase_defs reaped_with_def Let_def flush_stderr_def
      split: option.split prod.split wait_result.split sum.splits if_splits)

lemma run_iteration_reaps:
  assumes "\<not> rs_reaped st" and "it_wait it = Reaped s"
  shows "run_iteration strerror timeout it st =
    run_iteration strerror timeout it (st\<lparr>rs_res_pid := Reaped s, rs_reaped := True\<rparr>)"
  using assms by (simp add: run_iteration_def wait_phase_def)

lemma no_kill_once_reaped:
  assumes "it_wait it = Reaped s \<or> rs_reaped st"
  shows "ends (\<lambda>st'. rs_kills st' = rs_kills st) (\<lambda>st'. rs_kills st' = rs_kills st)
    (\<lambda>_ st'. rs_kills st' = rs_kills st) (run_loop strerror timeout (it # its) st)"
proof -
  have reaped: "ends (\<lambda>st'. rs_kills st' = rs_kills st) (\<lambda>st'. rs_kills st' = rs_kills st)
      (\<lambda>_ st'. rs_kills st' = rs_kills st) (run_loop strerror timeout its st)"
    if "rs_reaped st" for st :: run_state and its
  proof -
    have "reaped_with (rs_kills st) st" using that by (simp add: reaped_with_def)
    from reaped_turn.loop [OF this] show ?thesis
      unfolding run_loop_def by (rule ends_mono) (simp_all add: reaped_with_def)
  qed
  show ?thesis
  proof (cases "rs_reaped st")
    case False
    with assms have wait: "it_wait it = Reaped s" by simp
    show ?thesis
      using reaped [of "st\<lparr>rs_res_pid := Reaped s, rs_reaped := True\<rparr>" "it # its"]
      by (simp add: run_loop_def run_iteration_reaps [OF False wait])
  next
    case True
    then show ?thesis by (rule reaped)
  qed
qed

section \<open>The recorded outcome\<close>

definition no_outcome_yet :: "run_state \<Rightarrow> bool" where
  "no_outcome_yet st \<longleftrightarrow> nx_cmd_exit_code (rs_cmd st) = None \<and> nx_cmd_term_sig (rs_cmd st) = None \<and>
     (if rs_reaped st then (\<exists>s. rs_res_pid st = Reaped s) else rs_res_pid st = Not_yet)"

text \<open>
  The loop is left with \<^verbatim>\<open>SIGABRT\<close> recorded after a failed call, or with an answer of
  \<^verbatim>\<open>waitpid()\<close>.
\<close>

definition outcome_known :: "run_state \<Rightarrow> bool" where
  "outcome_known st \<longleftrightarrow> nx_cmd_exit_code (rs_cmd st) = None \<and>
     (nx_cmd_term_sig (rs_cmd st) = Some (int SIGABRT) \<or>
      nx_cmd_term_sig (rs_cmd st) = None \<and> rs_res_pid st \<noteq> Not_yet)"

interpretation outcome_turn: nix_phases strerror timeout no_outcome_yet outcome_known "\<lambda>_ _. True"
  for strerror timeout
  by unfold_locales
    (auto simp: phase_defs no_outcome_yet_def outcome_known_def Let_def flush_stderr_def
      split: option.split prod.split wait_result.split sum.splits if_splits)

lemma collect_status_outcome:
  assumes "outcome_known st"
    and "c = collect_status strerror (rs_pid st) (rs_res_pid st) last_wait (rs_cmd st)"
  shows "nx_cmd_exit_code c \<noteq> None \<or> nx_cmd_term_sig c \<noteq> None"
    and "nx_cmd_term_sig (rs_cmd st) = None \<Longrightarrow> nx_cmd_exit_code c = None \<longleftrightarrow> nx_cmd_term_sig c \<noteq> None"
  using assms by (auto simp: collect_status_def outcome_known_def split: wait_result.splits wait_status.splits)

section \<open>The position in the standard error\<close>

definition flush_pos_kept :: "run_state \<Rightarrow> bool" where
  "flush_pos_kept st \<longleftrightarrow> nx_flush_stderr_pos (rs_cmd st) \<le> length (nx_cmd_stderr (rs_cmd st))"

interpretation flush_pos_turn: nix_phases strerror timeout flush_pos_kept "\<lambda>_. True"
  "\<lambda>f _. \<exists>e. f = Exn (Runtime_error (strerror e))"
  for strerror timeout
proof
  fix st it revs
  assume "flush_pos_kept st"
  then show "ends flush_pos_kept (\<lambda>_. True) (\<lambda>f _. \<exists>e. f = Exn (Runtime_error (strerror e)))
      (on_stderr strerror it revs st)"
    by (auto simp: on_stderr_def flush_pos_kept_def flush_stderr_eq dest!: read_all_extends
        split: option.split prod.split)
qed (auto simp: phase_defs flush_pos_kept_def Let_def close_write_fd_def
    split: option.split prod.split wait_result.split sum.splits if_splits)

section \<open>The descriptors\<close>

definition fds_kept :: "int multiset \<Rightarrow> run_state \<Rightarrow> bool" where
  "fds_kept opened st \<longleftrightarrow>
     (\<Sum>p\<leftarrow>[rs_stdin_fds st, rs_stdout_fds st, rs_stderr_fds st].
        mset (pf_closed p) + mset (owned_fds p)) = opened"

interpretation fds_turn: nix_phases strerror timeout "fds_kept opened" "fds_kept opened" "\<lambda>_. fds_kept opened"
  for strerror timeout opened
proof
  fix st it ready
  assume "fds_kept opened st"
  then show "ends (fds_kept opened) (fds_kept opened) (\<lambda>_. fds_kept opened)
      (on_stdin strerror it (revents (rs_fd0 st) ready) st)"
    by (auto simp: on_stdin_def fds_kept_def Let_def dest: close_write_fd_effect(3)
        split: option.split prod.split)
qed (auto simp: phase_defs fds_kept_def Let_def flush_stderr_def
    split: option.split prod.split wait_result.split sum.splits if_splits)

text \<open>The loop leaves the signal mask alone.\<close>

interpretation sigmask_turn: nix_phases strerror timeout "\<lambda>st. rs_sigmask st = m" "\<lambda>st. rs_sigmask st = m"
  "\<lambda>_ st. rs_sigmask st = m"
  for strerror timeout m
  by unfold_locales
    (auto simp: phase_defs Let_def flush_stderr_def
      split: option.split prod.split wait_result.split sum.splits if_splits)

section \<open>From the start to the return\<close>

text \<open>The state in which the loop begins.\<close>

definition started :: "nix_cmd \<Rightarrow> run_state \<Rightarrow> bool" where
  "started c st \<longleftrightarrow> rs_cmd st = c \<and> rs_cum_stdin_bytes_written st = 0 \<and> rs_sent st = [] \<and>
     rs_kills st = [] \<and> \<not> rs_tried_sigterm st \<and> \<not> rs_reaped st \<and> rs_res_pid st = Not_yet \<and>
     POLLOUT (pfd_events (rs_fd0 st)) = (nx_cmd_stdin c \<noteq> [])"

lemma started_init: "started c (run_state_init sigmask p0 p1 p2 c)"
  by (simp add: started_def run_state_init_def stdin_pollfd_def)

lemma fork_phase_Next:
  "fork_phase strerror sa st = Next st' \<Longrightarrow> \<exists>pid. sa_fork sa = Inr pid \<and> st' = st\<lparr>rs_pid := pid\<rparr>"
  by (auto simp: fork_phase_def restore_sigmask_def Let_def split: sum.splits option.splits if_splits)

definition fork_succeeds :: "start_answers \<Rightarrow> bool" where
  "fork_succeeds sa \<longleftrightarrow> (\<exists>pid. sa_fork sa = Inr pid) \<and> sa_setpgid sa \<in> {None, Some EACCES} \<and>
     sa_sigprocmask sa = None"

lemma fork_phase_Next_iff: "(\<exists>st'. fork_phase strerror sa st = Next st') \<longleftrightarrow> fork_succeeds sa"
  by (auto simp: fork_succeeds_def fork_phase_def restore_sigmask_def Let_def split: sum.splits option.splits)

text \<open>An early return.\<close>

lemma fork_phase_Leave:
  assumes "fork_phase strerror sa st = Leave st'"
  shows "nx_cmd_term_sig (rs_cmd st') = Some (int SIGABRT)"
    and "nx_cmd_exit_code (rs_cmd st') = nx_cmd_exit_code (rs_cmd st)"
    and "rs_sigmask st' = fork_sigmask" and "rs_kills st' = rs_kills st" and "rs_sent st' = rs_sent st"
    and "fds_kept opened st' = fds_kept opened st"
  using assms
  by (auto simp: fork_phase_def restore_sigmask_def Let_def abort_with_def log_at_def fds_kept_def
      split: sum.splits option.splits if_splits)

lemma fork_phase_total: "fork_phase strerror sa st \<noteq> Blocked" "fork_phase strerror sa st \<noteq> Throws f st'"
  by (auto simp: fork_phase_def restore_sigmask_def Let_def split: sum.splits option.splits)

lemma close_child_ends_Next:
  assumes "close_child_ends strerror sa st = Next st'"
  shows "\<exists>p0 p1 p2. st' = st\<lparr>rs_stdin_fds := p0, rs_stdout_fds := p1, rs_stderr_fds := p2\<rparr> \<and>
    pf_write_fd p0 = pf_write_fd (rs_stdin_fds st)"
    and "fds_kept opened st' = fds_kept opened st"
proof -
  obtain p0 p1 p2 where p: "close_read_fd strerror (sa_close_stdin sa) (rs_stdin_fds st) = Some (None, p0)"
      "close_write_fd strerror (sa_close_stdout sa) (rs_stdout_fds st) = Some (None, p1)"
      "close_write_fd strerror (sa_close_stderr sa) (rs_stderr_fds st) = Some (None, p2)"
    and st': "st' = st\<lparr>rs_stdin_fds := p0, rs_stdout_fds := p1, rs_stderr_fds := p2\<rparr>"
    using assms by (auto simp: close_child_ends_def split: option.splits)
  show "\<exists>p0 p1 p2. st' = st\<lparr>rs_stdin_fds := p0, rs_stdout_fds := p1, rs_stderr_fds := p2\<rparr> \<and>
      pf_write_fd p0 = pf_write_fd (rs_stdin_fds st)"
    using close_read_fd_effect(2) [OF p(1)] st' by blast
  show "fds_kept opened st' = fds_kept opened st"
    by (simp add: st' fds_kept_def close_read_fd_effect(3) [OF p(1)] close_write_fd_effect(3) [OF p(2)]
        close_write_fd_effect(3) [OF p(3)])
qed

lemma close_child_ends_not_Leave: "close_child_ends strerror sa st \<noteq> Leave st'"
  by (auto simp: close_child_ends_def split: option.splits)

lemma destroy_pipes_Next:
  assumes "destroy_pipes strerror closes st = Next st'"
  shows "\<exists>p0 p1 p2. st' = st\<lparr>rs_stderr_fds := p2, rs_stdout_fds := p1, rs_stdin_fds := p0\<rparr> \<and>
      owned_fds p0 = [] \<and> owned_fds p1 = [] \<and> owned_fds p2 = []"
    and "fds_kept opened st' = fds_kept opened st"
proof -
  obtain p0 p1 p2 where p: "destroy_PipeFds strerror (closes 0) (closes 1) (rs_stderr_fds st) = Some (None, p2)"
      "destroy_PipeFds strerror (closes 2) (closes 3) (rs_stdout_fds st) = Some (None, p1)"
      "destroy_PipeFds strerror (closes 4) (closes 5) (rs_stdin_fds st) = Some (None, p0)"
    and st': "st' = st\<lparr>rs_stderr_fds := p2, rs_stdout_fds := p1, rs_stdin_fds := p0\<rparr>"
    using assms by (auto simp: destroy_pipes_def split: option.splits)
  show "\<exists>p0 p1 p2. st' = st\<lparr>rs_stderr_fds := p2, rs_stdout_fds := p1, rs_stdin_fds := p0\<rparr> \<and>
      owned_fds p0 = [] \<and> owned_fds p1 = [] \<and> owned_fds p2 = []"
    using p [THEN destroy_closes_all(1)] st' by blast
  show "fds_kept opened st' = fds_kept opened st"
    by (simp add: st' fds_kept_def p [THEN destroy_closes_all(1)] p [THEN destroy_closes_all(2)])
qed

lemma finish_run_frame:
  assumes "finish_run strerror strsignal last_wait st = Inr st'"
  shows "rs_sigmask st' = rs_sigmask st" and "rs_kills st' = rs_kills st" and "rs_sent st' = rs_sent st"
    and "fds_kept opened st' = fds_kept opened st"
    and "\<exists>p. rs_cmd st' =
      (collect_status strerror (rs_pid st) (rs_res_pid st) last_wait (rs_cmd st))\<lparr>nx_flush_stderr_pos := p\<rparr>"
proof -
  let ?c = "collect_status strerror (rs_pid st) (rs_res_pid st) last_wait (rs_cmd st)"
  obtain entries c where c: "report_failure strsignal ?c = Inr (entries, c)"
    and st': "st' = st\<lparr>rs_cmd := c, rs_log := rs_log st @ entries\<rparr>"
    using assms by (auto simp: finish_run_def map_exn_Inr_iff)
  show "rs_sigmask st' = rs_sigmask st" and "rs_kills st' = rs_kills st" and "rs_sent st' = rs_sent st"
    and "fds_kept opened st' = fds_kept opened st"
    by (simp_all add: st' fds_kept_def)
  have "\<exists>p. c = ?c\<lparr>nx_flush_stderr_pos := p\<rparr>"
  proof (cases "cmd_succeeded ?c")
    case True
    with c show ?thesis by (auto simp: report_failure_def intro: exI [of _ "nx_flush_stderr_pos ?c"])
  next
    case False
    with c show ?thesis by (auto simp: report_failure_def dest!: flush_stderr_frame split: sum.splits)
  qed
  then show "\<exists>p. rs_cmd st' = ?c\<lparr>nx_flush_stderr_pos := p\<rparr>" by (simp add: st')
qed

text \<open>The ways for \<open>run_cmd\<close> to return.\<close>

lemma run_cmd_cases:
  assumes "run_cmd strerror strsignal timeout sa its last_wait closes sigmask c = Inr (Next st)"
  obtains (early) p0 p1 p2 st1 where "open_pipes strerror sa = Inr (p0, p1, p2)"
      and "fork_phase strerror sa (run_state_init sigmask p0 p1 p2 c) = Leave st1"
      and "destroy_pipes strerror closes st1 = Next st"
  | (run) p0 p1 p2 pid st1 st2 st3 where "open_pipes strerror sa = Inr (p0, p1, p2)"
      and "close_child_ends strerror sa ((run_state_init sigmask p0 p1 p2 c)\<lparr>rs_pid := pid\<rparr>) = Next st1"
      and "run_loop strerror timeout its st1 = Leave st2"
      and "finish_run strerror strsignal last_wait st2 = Inr st3"
      and "destroy_pipes strerror closes st3 = Next st"
      and "fork_phase strerror sa (run_state_init sigmask p0 p1 p2 c) =
        Next ((run_state_init sigmask p0 p1 p2 c)\<lparr>rs_pid := pid\<rparr>)"
proof -
  obtain p0 p1 p2 where pipes: "open_pipes strerror sa = Inr (p0, p1, p2)"
    using assms by (auto simp: run_cmd_def map_exn_Inr_iff)
  let ?st0 = "run_state_init sigmask p0 p1 p2 c"
  show ?thesis
  proof (cases "fork_phase strerror sa ?st0")
    case (Leave st1)
    with assms pipes early show ?thesis by (simp add: run_cmd_def)
  next
    case (Next st1)
    then obtain pid where st1: "st1 = ?st0\<lparr>rs_pid := pid\<rparr>" by (auto dest: fork_phase_Next)
    let ?loop = "and_then (close_child_ends strerror sa st1) (run_loop strerror timeout its)"
    from assms pipes Next obtain st2 st3 where st2: "?loop = Leave st2"
      and rest: "finish_run strerror strsignal last_wait st2 = Inr st3"
        "destroy_pipes strerror closes st3 = Next st"
      by (auto simp: run_cmd_def split: turn.splits sum.splits)
    from st2 obtain st1' where "close_child_ends strerror sa st1 = Next st1'"
      and "run_loop strerror timeout its st1' = Leave st2"
      using close_child_ends_not_Leave by (cases "close_child_ends strerror sa st1") auto
    with pipes rest run st1 Next show ?thesis by blast
  qed (use assms pipes fork_phase_total in \<open>auto simp: run_cmd_def\<close>)
qed

lemma started_loop:
  assumes "close_child_ends strerror sa ((run_state_init sigmask p0 p1 p2 c)\<lparr>rs_pid := pid\<rparr>) = Next st1"
  shows "started c st1" and "rs_sigmask st1 = sigmask"
    and "pf_write_fd (rs_stdin_fds st1) = pf_write_fd p0"
  using close_child_ends_Next(1) [OF assms]
  by (auto simp: started_def run_state_init_def stdin_pollfd_def)

section \<open>What a run does not change\<close>

definition inputs_kept :: "nix_cmd \<Rightarrow> nix_cmd \<Rightarrow> bool" where
  "inputs_kept c c' \<longleftrightarrow> nx_meta c' = nx_meta c \<and> nx_cmd_argv c' = nx_cmd_argv c \<and>
     nx_cmd_env c' = nx_cmd_env c \<and> nx_cmd_stdin c' = nx_cmd_stdin c \<and> nx_is_valid c' = nx_is_valid c"

interpretation inputs_turn: nix_phases strerror timeout "\<lambda>st. inputs_kept c (rs_cmd st)"
  "\<lambda>st. inputs_kept c (rs_cmd st)" "\<lambda>_ st. inputs_kept c (rs_cmd st)"
  for strerror timeout c
  by unfold_locales
    (auto simp: phase_defs inputs_kept_def Let_def flush_stderr_def
      split: option.split prod.split wait_result.split sum.splits if_splits)

lemma inputs_kept_update [simp]:
  "inputs_kept c (c'\<lparr>nx_flush_stderr_pos := p\<rparr>) = inputs_kept c c'"
  "inputs_kept c (collect_status strerror pid res_pid last_wait c') = inputs_kept c c'"
  by (auto simp: inputs_kept_def collect_status_def split: wait_result.split wait_status.split)

lemma fork_phase_Leave_inputs:
  "fork_phase strerror sa st = Leave st' \<Longrightarrow> inputs_kept c (rs_cmd st') = inputs_kept c (rs_cmd st)"
  by (auto simp: fork_phase_def restore_sigmask_def Let_def abort_with_def log_at_def inputs_kept_def
      split: sum.splits option.splits if_splits)

lemma run_cmd_inputs_kept:
  assumes "run_cmd strerror strsignal timeout sa its last_wait closes sigmask c = Inr (Next st)"
  shows "inputs_kept c (rs_cmd st)"
  using assms
proof (cases rule: run_cmd_cases)
  case (early p0 p1 p2 st1)
  have "inputs_kept c (rs_cmd st1)"
    unfolding fork_phase_Leave_inputs [OF early(2)] by (simp add: run_state_init_def inputs_kept_def)
  with destroy_pipes_Next(1) [OF early(3)] show ?thesis by auto
next
  case (run p0 p1 p2 pid st1 st2 st3)
  have "inputs_kept c (rs_cmd st1)"
    using started_loop(1) [OF run(2)] by (simp add: started_def inputs_kept_def)
  then have "inputs_kept c (rs_cmd st2)"
    using run(3) unfolding run_loop_def by (rule inputs_turn.loop_leave)
  then have "inputs_kept c (rs_cmd st3)" using finish_run_frame(5) [OF run(4)] by auto
  with destroy_pipes_Next(1) [OF run(5)] show ?thesis by auto
qed

end
