(* ===== verification/NixRunProps.thy ===== *)
theory NixRunProps
  imports NixRunFacts
begin

text \<open>The properties of \<^verbatim>\<open>NixQueueCmd::run_cmd\<close>, from the call to the return.\<close>

section \<open>A run for the witnesses\<close>

definition example_cmd :: nix_cmd where
  "example_cmd = nix_cmd_of_args ''q'' ''q'' ''7'' None [''cat'', ''-n''] [(''LANG'', ''C'')] ''in''"

definition example_start :: start_answers where
  "example_start = \<lparr>sa_stdin_pipe = Inr (10, 11), sa_stdout_pipe = Inr (12, 13), sa_stderr_pipe = Inr (14, 15),
     sa_fork = Inr 42, sa_setpgid = None, sa_sigprocmask = None,
     sa_close_stdin = [None], sa_close_stdout = [None], sa_close_stderr = [None]\<rparr>"

text \<open>A turn in which nothing happens.\<close>

definition quiet_turn :: "rat \<Rightarrow> rat \<Rightarrow> iteration" where
  "quiet_turn now now_after = \<lparr>it_now = now, it_wait = Not_yet, it_poll = Inr (no_flags, no_flags, no_flags),
     it_now_after = now_after, it_kill_wait = Inr (Signaled 9), it_writes = [], it_stdin_close = [None],
     it_stdout_reads = [], it_stderr_reads = []\<rparr>"

definition example_turns :: "iteration list" where
  "example_turns =
    [(quiet_turn 0 0)\<lparr>it_poll := Inr (no_flags\<lparr>POLLOUT := True\<rparr>, no_flags, no_flags), it_writes := [Wrote 1, Wrote 9]\<rparr>,
     (quiet_turn 1 1)\<lparr>it_poll := Inr (no_flags, no_flags\<lparr>POLLIN := True\<rparr>, no_flags),
       it_stdout_reads := [Got ''out'', Read_error EAGAIN]\<rparr>,
     (quiet_turn 6 6),
     (quiet_turn 6 8)\<lparr>it_wait := Reaped (Exited 0)\<rparr>]"

lemmas example_defs = example_cmd_def example_start_def quiet_turn_def example_turns_def
  nix_cmd_of_args_def nix_cmd_blank_def cmd_meta_of_args_def cmd_meta_blank_def

lemmas run_defs = run_cmd_def open_pipes_def PipeFds_def fork_phase_def restore_sigmask_def run_state_init_def
  close_child_ends_def close_read_fd_def close_write_fd_def run_loop_def run_iteration_def
  poll_phase_def phase_defs write_stdin.simps stdin_pollfd_def output_pollfd_def revents_def no_flags_def
  finish_run_def collect_status_def report_failure_def cmd_succeeded_def destroy_pipes_def destroy_PipeFds_def

lemma example_run_returns:
  obtains st where "run_cmd (\<lambda>_. ''e'') show_int 5 example_start example_turns Not_yet (\<lambda>_. [None]) {} example_cmd
      = Inr (Next st)"
    and "nx_cmd_exit_code (rs_cmd st) = Some 0" and "nx_cmd_stdout (rs_cmd st) = ''out''"
    and "rs_sent st = ''in''" and "rs_kills st = [(SIGTERM, 6)]"
  by (simp add: example_defs run_defs CMDQD_PIPE_BUFFER_SIZE_def
      poll_waits_for_ever Let_def hung_up_def)

section \<open>The outcome\<close>

lemma run_cmd_outcome:
  assumes "run_cmd strerror strsignal timeout sa its last_wait closes sigmask c = Inr (Next st)"
    and "nx_cmd_exit_code c = None" and "nx_cmd_term_sig c = None"
  shows "(nx_cmd_exit_code (rs_cmd st) \<noteq> None \<or> nx_cmd_term_sig (rs_cmd st) \<noteq> None) \<and>
    (nx_cmd_exit_code (rs_cmd st) = None \<or> nx_cmd_term_sig (rs_cmd st) = None \<or>
     nx_cmd_term_sig (rs_cmd st) = Some (int SIGABRT))"
  using assms(1)
proof (cases rule: run_cmd_cases)
  case (early p0 p1 p2 st1)
  from destroy_pipes_Next(1) [OF early(3)] fork_phase_Leave(1) [OF early(2)]
  show ?thesis by auto
next
  case (run p0 p1 p2 pid st1 st2 st3)
  have "no_outcome_yet st1"
    using started_loop(1) [OF run(2)] assms(2,3) by (simp add: started_def no_outcome_yet_def)
  then have known: "outcome_known st2"
    using run(3) unfolding run_loop_def by (rule outcome_turn.loop_leave)
  obtain p where st3: "rs_cmd st3 =
      (collect_status strerror (rs_pid st2) (rs_res_pid st2) last_wait (rs_cmd st2))\<lparr>nx_flush_stderr_pos := p\<rparr>"
    using finish_run_frame(5) [OF run(4)] by blast
  have "rs_cmd st = rs_cmd st3" using destroy_pipes_Next(1) [OF run(5)] by auto
  then show ?thesis
    using known collect_status_outcome(1) [OF known refl, of strerror last_wait] st3
    by (auto simp: outcome_known_def collect_status_def split: wait_result.splits wait_status.splits)
qed

text \<open>
  C30. A \<^verbatim>\<open>run_cmd\<close> that returns has recorded how the command ended, whatever the system
  answered on the way: an exit code or a terminating signal; both only when a failed call had
  already been recorded as \<^verbatim>\<open>SIGABRT\<close>.
\<close>

theorem run_cmd_records_outcome:
  assumes "run_cmd strerror strsignal timeout sa its last_wait closes sigmask c = Inr (Next st)"
    and "nx_cmd_exit_code c = None" and "nx_cmd_term_sig c = None"
  shows "(nx_cmd_exit_code (rs_cmd st) \<noteq> None \<or> nx_cmd_term_sig (rs_cmd st) \<noteq> None) \<and>
    (nx_cmd_exit_code (rs_cmd st) = None \<or> nx_cmd_term_sig (rs_cmd st) = None \<or>
     nx_cmd_term_sig (rs_cmd st) = Some (int SIGABRT))"
  using assms by (rule run_cmd_outcome)

theorem run_cmd_records_outcome_witness:
  "\<exists>st. run_cmd (\<lambda>_. ''e'') show_int 5 example_start example_turns Not_yet (\<lambda>_. [None]) {} example_cmd = Inr (Next st) \<and>
    (nx_cmd_exit_code (rs_cmd st) \<noteq> None \<or> nx_cmd_term_sig (rs_cmd st) \<noteq> None)"
proof -
  obtain st where st: "run_cmd (\<lambda>_. ''e'') show_int 5 example_start example_turns Not_yet (\<lambda>_. [None]) {} example_cmd
      = Inr (Next st)"
    by (rule example_run_returns)
  from run_cmd_records_outcome [OF st] st show ?thesis by (simp add: example_defs)
qed

section \<open>The standard input\<close>

text \<open>
  C31. However the writes are split, interrupted or refused, the command is sent a prefix of
  \<open>cmd_stdin\<close>, every byte once and in order; and at every moment of the loop the write end
  of the pipe has been closed only if all of a nonempty \<open>cmd_stdin\<close> has gone through.
\<close>

theorem run_loop_stdin:
  assumes "started c st" and "pf_write_fd (rs_stdin_fds st) \<noteq> -1"
    and "run_loop strerror timeout its st \<in> {Next st', Leave st'}"
  shows "rs_sent st' = take (rs_cum_stdin_bytes_written st') (nx_cmd_stdin c) \<and>
    (pf_write_fd (rs_stdin_fds st') = -1 \<longrightarrow> rs_sent st' = nx_cmd_stdin c \<and> nx_cmd_stdin c \<noteq> [])"
proof -
  have kept: "stdin_kept (nx_cmd_stdin c) st"
    using assms(1,2) by (simp add: started_def stdin_kept_def)
  have "stdin_kept (nx_cmd_stdin c) st'"
    using assms(3) stdin_turn.loop_next [OF kept] stdin_turn.loop_leave [OF kept]
    by (auto simp: run_loop_def)
  then show ?thesis by (auto simp: stdin_kept_def)
qed

text \<open>The state in which the example enters the loop.\<close>

definition example_state :: run_state where
  "example_state = (run_state_init {} \<lparr>pf_read_fd = -1, pf_write_fd = 11, pf_closed = [10]\<rparr>
     \<lparr>pf_read_fd = 12, pf_write_fd = -1, pf_closed = [13]\<rparr>
     \<lparr>pf_read_fd = 14, pf_write_fd = -1, pf_closed = [15]\<rparr> example_cmd)\<lparr>rs_pid := 42\<rparr>"

lemma example_state_started: "started example_cmd example_state"
  by (simp add: example_state_def started_def run_state_init_def stdin_pollfd_def)

theorem run_loop_stdin_witness:
  "\<exists>st'. run_loop (\<lambda>_. ''e'') 5 example_turns example_state = Leave st' \<and> rs_sent st' = ''in'' \<and>
    pf_write_fd (rs_stdin_fds st') = -1"
proof -
  let ?r = "run_loop (\<lambda>_. ''e'') 5 example_turns example_state"
  obtain st' where st': "?r = Leave st'" and closed: "pf_write_fd (rs_stdin_fds st') = -1"
    by (simp add: example_state_def example_defs run_defs CMDQD_PIPE_BUFFER_SIZE_def
      poll_waits_for_ever Let_def hung_up_def)
  have "pf_write_fd (rs_stdin_fds example_state) \<noteq> -1" by (simp add: example_state_def run_state_init_def)
  moreover have "?r \<in> {Next st', Leave st'}" by (simp add: st')
  ultimately have "rs_sent st' = nx_cmd_stdin example_cmd"
    using run_loop_stdin [OF example_state_started] closed by blast
  with st' closed show ?thesis by (simp add: example_defs)
qed

section \<open>Signals\<close>

text \<open>
  C32. The command is sent at most one \<^verbatim>\<open>SIGTERM\<close>, not before its timeout has passed (never
  without a timeout), and at most one \<^verbatim>\<open>SIGKILL\<close>, more than the grace period after it.
\<close>

theorem run_cmd_kills:
  assumes "run_cmd strerror strsignal timeout sa its last_wait closes sigmask c = Inr (Next st)"
  shows "kill_discipline timeout (md_cmd_runtime_start (nx_meta c)) (rs_kills st)"
  using assms
proof (cases rule: run_cmd_cases)
  case (early p0 p1 p2 st1)
  from destroy_pipes_Next(1) [OF early(3)] fork_phase_Leave(4) [OF early(2)]
  show ?thesis by (auto simp: run_state_init_def kill_discipline_def)
next
  case (run p0 p1 p2 pid st1 st2 st3)
  have "gentle_kills timeout (md_cmd_runtime_start (nx_meta c)) st1"
    using started_loop(1) [OF run(2)] by (simp add: started_def gentle_kills_def)
  then have "kill_discipline timeout (md_cmd_runtime_start (nx_meta c)) (rs_kills st2)"
    using run(3) unfolding run_loop_def by (rule kill_turn.loop_leave)
  then show ?thesis
    using finish_run_frame(2) [OF run(4)] destroy_pipes_Next(1) [OF run(5)] by auto
qed

theorem run_cmd_kills_witness: "kill_discipline 5 0 [(SIGTERM, 6)]"
proof -
  obtain st where "run_cmd (\<lambda>_. ''e'') show_int 5 example_start example_turns Not_yet (\<lambda>_. [None]) {} example_cmd
      = Inr (Next st)" and kills: "rs_kills st = [(SIGTERM, 6)]"
    by (rule example_run_returns)
  from run_cmd_kills [OF this(1)] kills show ?thesis by (simp add: example_defs)
qed

text \<open>
  C33. Once \<^verbatim>\<open>waitpid()\<close> has reported the end of the command no signal is sent to its process
  identifier, which the system may have given to another process.
\<close>

theorem no_signal_after_wait:
  assumes "it_wait it = Reaped s" and "run_loop strerror timeout its st = Next st1"
    and "run_loop strerror timeout (its @ it # its') st \<in> {Next st2, Leave st2, Throws f st2}"
  shows "rs_kills st2 = rs_kills st1"
proof -
  have "run_loop strerror timeout (its @ it # its') st = run_loop strerror timeout (it # its') st1"
    using assms(2) by (simp add: run_loop_def run_turns_append)
  then show ?thesis
    using no_kill_once_reaped [of it s st1 strerror timeout its'] assms(1,3) by auto
qed

theorem no_signal_after_wait_witness:
  "\<exists>st1 st2. run_loop (\<lambda>_. ''e'') 5 (take 3 example_turns) example_state = Next st1 \<and>
     run_loop (\<lambda>_. ''e'') 5 (take 3 example_turns @ [example_turns ! 3]) example_state = Leave st2 \<and>
     rs_kills st2 = rs_kills st1"
proof -
  let ?its = "take 3 example_turns" let ?it = "example_turns ! 3"
  obtain st1 st2 where r: "run_loop (\<lambda>_. ''e'') 5 ?its example_state = Next st1"
    "run_loop (\<lambda>_. ''e'') 5 (?its @ [?it]) example_state = Leave st2"
    by (simp add: example_state_def example_defs run_defs CMDQD_PIPE_BUFFER_SIZE_def
      poll_waits_for_ever Let_def hung_up_def)
  have "it_wait ?it = Reaped (Exited 0)" by (simp add: example_turns_def)
  then have "rs_kills st2 = rs_kills st1"
    by (rule no_signal_after_wait [OF _ r(1)]) (use r(2) in blast)
  with r show ?thesis by blast
qed

section \<open>The timeout\<close>

text \<open>
  C34. The timeout is enforced on a silent command: two turns in which nothing is ready, the
  first after the timeout, the second more than the grace period later, and the loop is left,
  whether or not the command heeds \<^verbatim>\<open>SIGTERM\<close> (and whatever happened before).
\<close>

theorem timeout_enforced_on_silence:
  assumes "started c st" and "run_loop strerror timeout its st = Next st1" and "timeout \<noteq> 0"
    and "\<forall>it\<in>{it1, it2}. it_poll it = Inr (no_flags, no_flags, no_flags)"
    and "timeout \<le> it_now_after it1 - md_cmd_runtime_start (nx_meta c)"
    and "rs_sigterm_time st1 \<le> it_now_after it1 \<or> \<not> rs_tried_sigterm st1"
    and "GRACE_SECONDS_BETWEEN_SIGTERM_AND_SIGKILL < it_now_after it2 - it_now_after it1"
  shows "\<exists>st2. run_loop strerror timeout (its @ [it1, it2]) st = Leave st2"
proof -
  let ?step = "run_iteration strerror timeout" and ?start = "md_cmd_runtime_start (nx_meta c)"
  have "gentle_kills timeout ?start st" using assms(1) by (simp add: started_def gentle_kills_def)
  then have start: "md_cmd_runtime_start (nx_meta (rs_cmd st1)) = ?start"
    using kill_turn.loop_next [of timeout ?start st strerror its st1] assms(2)
    by (simp add: run_loop_def gentle_kills_def)
  have no_events: "revents p no_flags = no_flags" for p by (simp add: revents_def no_flags_def)
  have turn: "?step it s = (if it_wait it = Not_yet \<or> rs_reaped s then on_quiet timeout it
        (if rs_reaped s then s else s\<lparr>rs_res_pid := Not_yet\<rparr>)
      else Leave (s\<lparr>rs_res_pid := it_wait it, rs_reaped := (\<exists>w. it_wait it = Reaped w)\<rparr>))"
    if "it \<in> {it1, it2}" for it s
    using that assms(3,4)
    by (auto simp: run_iteration_def wait_phase_def poll_phase_def no_events poll_waits_for_ever on_quiet_def
        split: wait_result.split)
  have later: "timeout \<le> it_now_after it2 - ?start"
    using assms(5,7) by (simp add: GRACE_SECONDS_BETWEEN_SIGTERM_AND_SIGKILL_def)
  have grace: "GRACE_SECONDS_BETWEEN_SIGTERM_AND_SIGKILL < it_now_after it2 - rs_sigterm_time st1"
    if "rs_tried_sigterm st1"
    using that assms(6,7) by auto
  have "\<exists>st2. and_then (?step it1 st1) (?step it2) = Leave st2"
    using assms(5,7) start later grace
    by (auto simp: turn on_quiet_def Let_def log_at_def)
  then show ?thesis
    using assms(2) by (cases "?step it1 st1") (auto simp: run_loop_def run_turns_append)
qed

theorem timeout_enforced_on_silence_witness:
  "\<exists>st2. run_loop (\<lambda>_. ''e'') 5 ([] @ [quiet_turn 0 6, quiet_turn 6 8]) example_state = Leave st2"
  by (rule timeout_enforced_on_silence [where ?st1.0 = example_state, OF example_state_started])
    (simp_all add: run_loop_def quiet_turn_def example_state_def run_state_init_def example_defs
      GRACE_SECONDS_BETWEEN_SIGTERM_AND_SIGKILL_def)

text \<open>
  C35. The timeout is not enforced on a command that keeps talking: as long as every
  \<^verbatim>\<open>poll()\<close> finds output to read, all of it is collected, but no signal is ever sent,
  however late the clock says it is.
\<close>

definition talking_turn :: "rat \<Rightarrow> string list \<Rightarrow> iteration" where
  "talking_turn now chunks = (quiet_turn now now)\<lparr>it_poll := Inr (no_flags, no_flags\<lparr>POLLIN := True\<rparr>, no_flags),
     it_stdout_reads := map Got chunks @ [Read_error EAGAIN]\<rparr>"

theorem talking_command_never_times_out:
  assumes "started c st" and "0 \<le> pfd_fd (rs_fd1 st)" and "POLLIN (pfd_events (rs_fd1 st))"
    and "\<forall>(now, chunks)\<in>set turns. \<forall>s\<in>set chunks. s \<noteq> [] \<and> length s \<le> CMDQD_PIPE_BUFFER_SIZE"
  shows "\<exists>st'. run_loop strerror timeout (map (\<lambda>(now, chunks). talking_turn now chunks) turns) st = Next st' \<and>
    nx_cmd_stdout (rs_cmd st') = nx_cmd_stdout c @ concat (concat (map snd turns)) \<and> rs_kills st' = []"
proof -
  let ?inv = "\<lambda>s. \<not> rs_reaped s \<and> rs_res_pid s = Not_yet \<and> 0 \<le> pfd_fd (rs_fd1 s) \<and> POLLIN (pfd_events (rs_fd1 s))"
  have one: "\<exists>s'. run_iteration strerror timeout (talking_turn now chunks) s = Next s' \<and> ?inv s' \<and>
      nx_cmd_stdout (rs_cmd s') = nx_cmd_stdout (rs_cmd s) @ concat chunks \<and> rs_kills s' = rs_kills s"
    if "?inv s" and "\<forall>s\<in>set chunks. s \<noteq> [] \<and> length s \<le> CMDQD_PIPE_BUFFER_SIZE" for s now chunks
  proof -
    have "revents p no_flags = no_flags" for p by (simp add: revents_def no_flags_def)
    moreover have "revents (rs_fd1 s) (no_flags\<lparr>POLLIN := True\<rparr>) = no_flags\<lparr>POLLIN := True\<rparr>"
      using that(1) by (simp add: revents_def no_flags_def)
    ultimately show ?thesis
      using that read_all_chunks(2) [OF that(2), of EAGAIN "[]"]
      by (simp add: run_iteration_def wait_phase_def poll_phase_def talking_turn_def quiet_turn_def
          on_stdin_def on_stdout_def on_stderr_def on_hangup_def no_flags_def hung_up_def)
  qed
  have "\<exists>st'. run_turns (run_iteration strerror timeout) (map (\<lambda>(now, chunks). talking_turn now chunks) turns) s = Next st' \<and>
      nx_cmd_stdout (rs_cmd st') = nx_cmd_stdout (rs_cmd s) @ concat (concat (map snd turns)) \<and> rs_kills st' = rs_kills s"
    if "?inv s" for s
    using assms(4) that
  proof (induction turns arbitrary: s)
    case (Cons t turns)
    obtain now chunks where t: "t = (now, chunks)" by fastforce
    with Cons.prems(1) have "\<forall>s\<in>set chunks. s \<noteq> [] \<and> length s \<le> CMDQD_PIPE_BUFFER_SIZE" by simp
    with one [OF Cons.prems(2), of chunks now] obtain s' where
      "run_iteration strerror timeout (talking_turn now chunks) s = Next s'" "?inv s'"
      "nx_cmd_stdout (rs_cmd s') = nx_cmd_stdout (rs_cmd s) @ concat chunks" "rs_kills s' = rs_kills s"
      by blast
    with Cons.IH [of s'] Cons.prems(1) t show ?case by auto
  qed simp
  from this [of st] assms(1-3) show ?thesis by (simp add: run_loop_def started_def)
qed

theorem talking_command_never_times_out_witness:
  "\<exists>st'. run_loop (\<lambda>_. ''e'') 5 (map (\<lambda>(now, chunks). talking_turn now chunks)
      [(1, [''tick'']), (1000, [''tick'', ''tack''])]) example_state = Next st' \<and>
    nx_cmd_stdout (rs_cmd st') = ''tickticktack'' \<and> rs_kills st' = []"
proof -
  have "\<exists>st'. run_loop (\<lambda>_. ''e'') 5 (map (\<lambda>(now, chunks). talking_turn now chunks)
      [(1, [''tick'']), (1000, [''tick'', ''tack''])]) example_state = Next st' \<and>
    nx_cmd_stdout (rs_cmd st') = nx_cmd_stdout example_cmd @
      concat (concat (map snd [(1::rat, [''tick'']), (1000, [''tick'', ''tack''])])) \<and> rs_kills st' = []"
    by (rule talking_command_never_times_out [OF example_state_started])
      (simp_all add: example_state_def run_state_init_def output_pollfd_def CMDQD_PIPE_BUFFER_SIZE_def)
  then show ?thesis by (simp add: example_defs)
qed

text \<open>
  The loop wakes up in time: with a timeout, \<^verbatim>\<open>poll()\<close> is never told to wait past the
  moment the command has to be sent its next signal, and is told to wait for ever only without
  a timeout.
\<close>

theorem poll_timeout_wakes_up:
  assumes "timeout \<noteq> 0" and "md_cmd_runtime_start (nx_meta (rs_cmd st)) = start"
  defines "deadline \<equiv> start + timeout +
      (if rs_tried_sigterm st then GRACE_SECONDS_BETWEEN_SIGTERM_AND_SIGKILL else 0)"
  shows "0 \<le> poll_timeout timeout it st \<and>
    it_now it + of_int (poll_timeout timeout it st) / 1000 \<le> max (it_now it) deadline"
proof (cases "rs_reaped st")
  case False
  let ?left = "(timeout - (it_now it - start) +
      (if rs_tried_sigterm st then GRACE_SECONDS_BETWEEN_SIGTERM_AND_SIGKILL else 0)) * 1000"
  have left: "?left = (deadline - it_now it) * 1000" by (simp add: deadline_def)
  have "poll_timeout timeout it st = max 0 (trunc ?left)"
    using False assms(1,2) by (simp only: poll_timeout_def if_False)
  then have timeout: "poll_timeout timeout it st = max 0 (trunc ((deadline - it_now it) * 1000))"
    by (simp only: left)
  have "of_int (max 0 (trunc r)) \<le> max 0 r" for r :: rat
    by (auto simp: trunc_def max_def)
  from this [of "(deadline - it_now it) * 1000"] show ?thesis
    by (auto simp: timeout max_def split: if_splits)
qed (simp add: poll_timeout_def)

theorem poll_timeout_wakes_up_witness:
  "0 \<le> poll_timeout 5 (quiet_turn 2 2) example_state \<and>
   2 + of_int (poll_timeout 5 (quiet_turn 2 2) example_state) / 1000 \<le> max 2 (5::rat)"
  using poll_timeout_wakes_up [of 5 example_state 0 "quiet_turn 2 2"]
  by (simp add: example_state_def run_state_init_def example_defs)

section \<open>Descriptors and the signal mask\<close>

text \<open>
  C36. A \<^verbatim>\<open>run_cmd\<close> that returns has closed each of the six descriptors of its pipes exactly
  once, on every path, the early returns included.
\<close>

theorem run_cmd_closes_descriptors:
  assumes "run_cmd strerror strsignal timeout sa its last_wait closes sigmask c = Inr (Next st)"
    and "sa_stdin_pipe sa = Inr (r0, w0)" and "sa_stdout_pipe sa = Inr (r1, w1)"
    and "sa_stderr_pipe sa = Inr (r2, w2)" and "-1 \<notin> {r0, w0, r1, w1, r2, w2}"
  shows "mset (pf_closed (rs_stdin_fds st) @ pf_closed (rs_stdout_fds st) @ pf_closed (rs_stderr_fds st)) =
    {#r0, w0, r1, w1, r2, w2#}"
proof -
  let ?p = "\<lambda>r w. \<lparr>pf_read_fd = r, pf_write_fd = w, pf_closed = []\<rparr>"
  have pipes: "open_pipes strerror sa = Inr (?p r0 w0, ?p r1 w1, ?p r2 w2)"
    using assms(2-4) by (simp add: open_pipes_def PipeFds_def)
  let ?st0 = "run_state_init sigmask (?p r0 w0) (?p r1 w1) (?p r2 w2) c"
  have init: "fds_kept {#r0, w0, r1, w1, r2, w2#} ?st0"
    using assms(5) by (simp add: fds_kept_def run_state_init_def owned_fds_def)
  have all_closed: "mset (pf_closed (rs_stdin_fds st) @ pf_closed (rs_stdout_fds st) @ pf_closed (rs_stderr_fds st)) =
      {#r0, w0, r1, w1, r2, w2#}"
    if kept: "fds_kept {#r0, w0, r1, w1, r2, w2#} s" and "destroy_pipes strerror closes s = Next st" for s
    using destroy_pipes_Next(1) [OF that(2)] kept unfolding destroy_pipes_Next(2) [OF that(2), symmetric]
    by (auto simp: fds_kept_def)
  from assms(1) show ?thesis
  proof (cases rule: run_cmd_cases)
    case (early p0 p1 p2 st1)
    show ?thesis
      by (rule all_closed [OF _ early(3)]) (use early(1) pipes init fork_phase_Leave(6) [OF early(2)] in simp)
  next
    case (run p0 p1 p2 pid st1 st2 st3)
    have "fds_kept {#r0, w0, r1, w1, r2, w2#} st1"
      using run(1) pipes init close_child_ends_Next(2) [OF run(2)] by (simp add: fds_kept_def)
    then have "fds_kept {#r0, w0, r1, w1, r2, w2#} st2"
      using run(3) unfolding run_loop_def by (rule fds_turn.loop_leave)
    then have "fds_kept {#r0, w0, r1, w1, r2, w2#} st3" using finish_run_frame(4) [OF run(4)] by simp
    then show ?thesis by (rule all_closed [OF _ run(5)])
  qed
qed

theorem run_cmd_closes_descriptors_witness:
  "\<exists>st. run_cmd (\<lambda>_. ''e'') show_int 5 example_start example_turns Not_yet (\<lambda>_. [None]) {} example_cmd = Inr (Next st) \<and>
    mset (pf_closed (rs_stdin_fds st) @ pf_closed (rs_stdout_fds st) @ pf_closed (rs_stderr_fds st)) =
    {#10, 11, 12, 13, 14, 15#}"
proof -
  obtain st where st: "run_cmd (\<lambda>_. ''e'') show_int 5 example_start example_turns Not_yet (\<lambda>_. [None]) {} example_cmd
      = Inr (Next st)"
    by (rule example_run_returns)
  from run_cmd_closes_descriptors [OF st, of 10 11 12 13 14 15] st show ?thesis
    by (auto simp: example_start_def)
qed

text \<open>
  The signal mask of the thread is the caller's again when the loop was reached; the early
  returns (a failed fork, \<^verbatim>\<open>setpgid()\<close> or \<^verbatim>\<open>sigprocmask()\<close>) leave it at
  \<^verbatim>\<open>SIGINT\<close> and \<^verbatim>\<open>SIGQUIT\<close>, so that the runner thread no longer blocks
  \<^verbatim>\<open>SIGTERM\<close>.
\<close>

theorem run_cmd_signal_mask:
  assumes "run_cmd strerror strsignal timeout sa its last_wait closes sigmask c = Inr (Next st)"
  shows "rs_sigmask st = (if fork_succeeds sa then sigmask else {SIGINT, SIGQUIT})"
  using assms
proof (cases rule: run_cmd_cases)
  case (early p0 p1 p2 st1)
  from early(2) have "\<not> fork_succeeds sa"
    by (simp add: fork_phase_Next_iff [of strerror sa "run_state_init sigmask p0 p1 p2 c", symmetric])
  moreover have "rs_sigmask st = rs_sigmask st1" using destroy_pipes_Next(1) [OF early(3)] by auto
  moreover have "rs_sigmask st1 = {SIGINT, SIGQUIT}"
    unfolding fork_phase_Leave(3) [OF early(2)] by (rule fork_sigmask_def)
  ultimately show ?thesis by simp
next
  case (run p0 p1 p2 pid st1 st2 st3)
  from run(6) have "fork_succeeds sa"
    unfolding fork_phase_Next_iff [of strerror sa "run_state_init sigmask p0 p1 p2 c", symmetric] by blast
  moreover have "rs_sigmask st2 = sigmask"
    using started_loop(2) [OF run(2)] run(3) unfolding run_loop_def by (rule sigmask_turn.loop_leave)
  moreover have "rs_sigmask st = rs_sigmask st3" using destroy_pipes_Next(1) [OF run(5)] by auto
  ultimately show ?thesis by (simp add: finish_run_frame(1) [OF run(4)])
qed

theorem run_cmd_signal_mask_witness:
  "\<exists>st. run_cmd (\<lambda>_. ''e'') show_int 5 (example_start\<lparr>sa_fork := Inl EAGAIN\<rparr>) [] Not_yet (\<lambda>_. [None])
      {SIGTERM} example_cmd = Inr (Next st) \<and> SIGTERM \<notin> rs_sigmask st"
proof -
  obtain st where st: "run_cmd (\<lambda>_. ''e'') show_int 5 (example_start\<lparr>sa_fork := Inl EAGAIN\<rparr>) [] Not_yet (\<lambda>_. [None])
      {SIGTERM} example_cmd = Inr (Next st)"
    by (simp add: example_defs run_defs)
  from run_cmd_signal_mask [OF st] st show ?thesis
    by (simp add: fork_succeeds_def example_start_def signal_defs)
qed

section \<open>What the command sees\<close>

text \<open>Names and values that an environment can hold.\<close>

definition environ_pair :: "string \<times> string \<Rightarrow> bool" where
  "environ_pair var \<longleftrightarrow> fst var \<noteq> [] \<and> CHR ''='' \<notin> set (fst var) \<and> nul \<notin> set (fst var) \<and> nul \<notin> set (snd var)"

lemma map_of_foldl_setenv:
  assumes "\<forall>var\<in>set vars. environ_pair var" and "distinct (map fst vars)"
  shows "map_of (foldl setenv env vars) = map_of env ++ map_of vars"
  using assms
proof (induction vars arbitrary: env)
  case (Cons var vars)
  have "setenv env var = AList.update (fst var) (snd var) env"
    using Cons.prems(1) by (auto simp: setenv_def environ_pair_def c_string_id Let_def)
  moreover have "map_of vars (fst var) = None"
    using Cons.prems(2) by (simp add: map_of_eq_None_iff)
  ultimately show ?case
    using Cons.IH [of "setenv env var"] Cons.prems
    by (cases var) (simp add: update_conv' fun_eq_iff map_add_def split: option.split)
qed simp

text \<open>
  The command is executed by the name in the first element of \<open>cmd_argv\<close>, with exactly
  \<open>cmd_argv\<close> as its arguments and, as its whole environment, \<open>cmd_env\<close> and the \<^verbatim>\<open>PATH\<close> of
  the daemon, which \<open>cmd_env\<close> may override.
\<close>

theorem child_executes_command:
  assumes "nx_cmd_argv c = prog # args" and "\<forall>arg\<in>set (prog # args). nul \<notin> set arg"
    and "\<forall>var\<in>set (nx_cmd_env c). environ_pair var" and "distinct (map fst (nx_cmd_env c))"
    and "nul \<notin> set path"
  shows "\<exists>env. child_logic None (Some path) c = Child_exec prog (prog # args) env \<and>
    map_of env = [''PATH'' \<mapsto> path] ++ map_of (nx_cmd_env c)"
proof -
  have argv: "map c_string (prog # args) = prog # args" and prog: "c_string prog = prog"
    using assms(2) by (auto intro: map_idI c_string_id)
  have "setenv [] (''PATH'', path) = [(''PATH'', path)]"
    using assms(5) by (simp add: setenv_def c_string_id Let_def)
  then have "map_of (child_environ path c) = [''PATH'' \<mapsto> path] ++ map_of (nx_cmd_env c)"
    using assms(3,4) by (simp add: child_environ_def map_of_foldl_setenv)
  with argv prog show ?thesis
    by (simp add: child_logic_def assms(1) string_of_ptr_def)
qed

theorem child_executes_command_witness:
  "\<exists>env. child_logic None (Some ''/bin'') example_cmd = Child_exec ''cat'' [''cat'', ''-n''] env \<and>
    map_of env = [''PATH'' \<mapsto> ''/bin'', ''LANG'' \<mapsto> ''C'']"
  using child_executes_command [of example_cmd "''cat''" "[''-n'']" "''/bin''"]
  by (simp add: example_defs environ_pair_def)

end
