(* ===== verification/TextComposite.thy ===== *)
theory TextComposite
  imports TextQuoting TextArray
begin

text \<open>
  \<^verbatim>\<open>PQ::from_text_composite_value\<close>, the parser that both \<^verbatim>\<open>NOTIFY\<close> loops use on the payload
  of a notification.  The state is that of the loop; \<^verbatim>\<open>std::nullopt\<close> is \<open>None\<close>.
\<close>

record composite_scan =
  cmp_depth :: int
  cmp_in_quotes :: bool
  cmp_item_num :: int
  cmp_start_pos :: nat
  cmp_end_pos :: nat
  cmp_result :: "string option list"

definition composite_scan_init :: composite_scan where
  "composite_scan_init = \<lparr>cmp_depth = 0, cmp_in_quotes = False, cmp_item_num = 0,
     cmp_start_pos = 0, cmp_end_pos = 0, cmp_result = []\<rparr>"

definition composite_scan_char :: "string \<Rightarrow> nat \<Rightarrow> composite_scan \<Rightarrow> fault + composite_scan" where
  "composite_scan_char input i st =
     (let c = input ! i in
      if c = CHR ''('' \<and> \<not> cmp_in_quotes st then
        Inr (let st' = st\<lparr>cmp_depth := cmp_depth st + 1\<rparr>
             in if cmp_depth st' = 1
                then st'\<lparr>cmp_item_num := cmp_item_num st' + 1, cmp_start_pos := i + 1\<rparr> else st')
      else if c = CHR '')'' \<and> \<not> cmp_in_quotes st then
        Inr (let st' = st\<lparr>cmp_depth := cmp_depth st - 1\<rparr>
             in if cmp_depth st = 1 \<and> cmp_end_pos st = 0
                then st'\<lparr>cmp_end_pos := sz_dec i\<rparr> else st')
      else if c = CHR '','' \<and> \<not> cmp_in_quotes st then
        Inr (st\<lparr>cmp_end_pos := sz_dec i\<rparr>)
      else if c = dquote then
        if i = 0 then Inl (Exn Out_of_range)
        else if input ! (i - 1) \<noteq> backslash then
          Inr (if cmp_in_quotes st
               then st\<lparr>cmp_end_pos := sz_dec i, cmp_in_quotes := False\<rparr>
               else st\<lparr>cmp_start_pos := i + 1, cmp_in_quotes := True\<rparr>)
        else Inr st
      else Inr st)"

text \<open>The tail of the loop body: push the field once both of its ends are known.\<close>

definition composite_push :: "string \<Rightarrow> nat \<Rightarrow> composite_scan \<Rightarrow> fault + composite_scan" where
  "composite_push input i st =
     (if cmp_start_pos st > 0 \<and> cmp_end_pos st > 0 then
        (if cmp_end_pos st = sz_dec (cmp_start_pos st)
         then Inr (st\<lparr>cmp_result := cmp_result st @ [None],
                      cmp_start_pos := i + 1, cmp_end_pos := 0\<rparr>)
         else (case substr input (cmp_start_pos st) (sz_span (cmp_end_pos st) (cmp_start_pos st)) of
                 Inl f \<Rightarrow> Inl f
               | Inr t \<Rightarrow> Inr (st\<lparr>cmp_result := cmp_result st @ [Some t],
                                  cmp_start_pos := i + 1, cmp_end_pos := 0\<rparr>)))
      else Inr st)"

definition composite_step :: "string \<Rightarrow> nat \<Rightarrow> composite_scan \<Rightarrow> fault + composite_scan" where
  "composite_step input i st =
     (case composite_scan_char input i st of
        Inl f \<Rightarrow> Inl f
      | Inr st1 \<Rightarrow> composite_push input i st1)"

function composite_loop ::
    "string \<Rightarrow> nat \<Rightarrow> composite_scan \<Rightarrow> fault + string option list" where
  "composite_loop input i st =
     (if i < length input then
        (case composite_step input i st of
           Inl f \<Rightarrow> Inl f
         | Inr st1 \<Rightarrow> composite_loop input (i + 1) st1)
      else Inr (cmp_result st))"
  by pat_completeness auto
termination
  by (relation "measure (\<lambda>(input, i, st). length input - i)") auto

declare composite_loop.simps [simp del]

definition from_text_composite_value :: "bool \<Rightarrow> string \<Rightarrow> fault + string option list" where
  "from_text_composite_value asserts input =
     (case check_brackets asserts (CHR ''('') (CHR '')'') input of
        Some f \<Rightarrow> Inl f
      | None \<Rightarrow> composite_loop input 0 composite_scan_init)"

section \<open>Skipping inert characters\<close>

definition composite_inert :: "composite_scan \<Rightarrow> char \<Rightarrow> char \<Rightarrow> bool" where
  "composite_inert st p c \<longleftrightarrow> cmp_end_pos st = 0 \<and>
     (if cmp_in_quotes st then \<not> bare_quote p c
      else c \<noteq> CHR ''('' \<and> c \<noteq> CHR '')'' \<and> c \<noteq> CHR '','' \<and> c \<noteq> dquote)"

lemma composite_loop_step:
  "i < length input \<Longrightarrow> composite_step input i st = Inr st1 \<Longrightarrow>
   composite_loop input i st = composite_loop input (Suc i) st1"
  by (subst composite_loop.simps) simp

lemma composite_loop_end: "length input \<le> i \<Longrightarrow> composite_loop input i st = Inr (cmp_result st)"
  by (subst composite_loop.simps) simp

lemma composite_step_inert:
  "0 < i \<Longrightarrow> composite_inert st (input ! (i - 1)) (input ! i) \<Longrightarrow> composite_step input i st = Inr st"
  by (cases "cmp_in_quotes st")
    (simp_all add: composite_step_def composite_scan_char_def composite_push_def
      composite_inert_def bare_quote_def Let_def)

interpretation composite_scanner: char_scanner composite_loop composite_inert
  by unfold_locales (rule composite_loop_step, assumption, rule composite_step_inert, assumption+)

section \<open>One field\<close>

text \<open>
  A field in the input: nothing between the delimiters, plain text, or a quoted body, in which
  the parser's test must not find a closing quote early.
\<close>

datatype composite_field = Null_field | Plain_field string | Quoted_field string

fun field_text :: "composite_field \<Rightarrow> string" where
  "field_text Null_field = []"
| "field_text (Plain_field s) = s"
| "field_text (Quoted_field b) = [dquote] @ b @ [dquote]"

fun readable_field :: "composite_field \<Rightarrow> bool" where
  "readable_field Null_field = True"
| "readable_field (Plain_field s) =
     (s \<noteq> [] \<and> set s \<inter> {CHR ''('', CHR '')'', CHR '','', dquote, backslash} = {})"
| "readable_field (Quoted_field b) = closed_body b"

text \<open>What the parser pushes for a field: a quoted field yields a second, empty one.\<close>

fun read_field :: "composite_field \<Rightarrow> string option list" where
  "read_field Null_field = [None]"
| "read_field (Plain_field s) = [Some s]"
| "read_field (Quoted_field b) = [if b = [] then None else Some b, None]"

definition at_field :: "string \<Rightarrow> composite_scan \<Rightarrow> bool" where
  "at_field pre st \<longleftrightarrow> pre \<noteq> [] \<and> last pre \<noteq> backslash \<and> \<not> cmp_in_quotes st \<and>
     cmp_end_pos st = 0 \<and> cmp_start_pos st = length pre \<and> cmp_depth st = 1"

definition push_field :: "composite_scan \<Rightarrow> nat \<Rightarrow> string option \<Rightarrow> composite_scan" where
  "push_field st n f = st\<lparr>cmp_result := cmp_result st @ [f], cmp_start_pos := n, cmp_end_pos := 0\<rparr>"

lemma at_field_push [simp]:
  "at_field pre st \<Longrightarrow> at_field (pre @ e @ '','') (push_field st (Suc (length pre + length e)) f)"
  by (simp add: at_field_def push_field_def)

text \<open>A delimiter behind \<open>s\<close> pushes \<open>s\<close>, or a null when \<open>s\<close> is empty.\<close>

lemma composite_step_delimiter:
  assumes el: "at_field pre st" and len: "Suc 0 < length pre + length s"
  shows "composite_step ((pre @ s) @ CHR '','' # suf) (length (pre @ s)) st =
      Inr (push_field st (Suc (length (pre @ s))) (if s = [] then None else Some s))"
    and "composite_step ((pre @ s) @ CHR '')'' # suf) (length (pre @ s)) st =
      Inr (push_field (st\<lparr>cmp_depth := 0\<rparr>) (Suc (length (pre @ s))) (if s = [] then None else Some s))"
proof -
  have neq: "length pre + length s - Suc 0 = length pre - Suc 0 \<longleftrightarrow> s = []"
    using el by (cases pre) (auto simp: at_field_def)
  have span: "sz_span (length pre + length s - Suc 0) (length pre) = length s"
    using el by (cases pre) (auto simp: at_field_def)
  show "composite_step ((pre @ s) @ CHR '','' # suf) (length (pre @ s)) st =
      Inr (push_field st (Suc (length (pre @ s))) (if s = [] then None else Some s))"
    using el len neq span nth_middle [of "pre @ s" "CHR '',''" suf]
    unfolding composite_step_def composite_scan_char_def composite_push_def Let_def
    by (auto simp: at_field_def push_field_def simp del: nth_middle)
  show "composite_step ((pre @ s) @ CHR '')'' # suf) (length (pre @ s)) st =
      Inr (push_field (st\<lparr>cmp_depth := 0\<rparr>) (Suc (length (pre @ s))) (if s = [] then None else Some s))"
    using el len neq span nth_middle [of "pre @ s" "CHR '')''" suf]
    unfolding composite_step_def composite_scan_char_def composite_push_def Let_def
    by (auto simp: at_field_def push_field_def simp del: nth_middle)
qed


lemma readable_plain_chain:
  "readable_field (Plain_field s) \<Longrightarrow> at_field pre st \<Longrightarrow> chain (composite_inert st) p s"
  by (intro chain_indep) (auto simp: at_field_def composite_inert_def)

text \<open>The text between two delimiters is reached and pushed.\<close>

lemma composite_loop_unquoted:
  assumes el: "at_field pre st" and s: "s = [] \<or> readable_field (Plain_field s)"
    and len: "Suc 0 < length pre + length s"
  shows "composite_loop (pre @ s @ CHR '','' # suf) (length pre) st =
      composite_loop (pre @ s @ CHR '','' # suf) (Suc (length pre + length s))
        (push_field st (Suc (length pre + length s)) (if s = [] then None else Some s))"
    and "composite_loop (pre @ s @ '')'') (length pre) st =
      Inr (cmp_result st @ [if s = [] then None else Some s])"
proof -
  have skip: "composite_loop (pre @ s @ t) (length pre) st =
      composite_loop ((pre @ s) @ t) (length (pre @ s)) st" for t
    using s el composite_scanner.skip_chain [OF _ readable_plain_chain [of s pre st]]
    by (cases "s = []") (auto simp: at_field_def)
  show "composite_loop (pre @ s @ CHR '','' # suf) (length pre) st =
      composite_loop (pre @ s @ CHR '','' # suf) (Suc (length pre + length s))
        (push_field st (Suc (length pre + length s)) (if s = [] then None else Some s))"
    using skip composite_loop_step [OF _ composite_step_delimiter(1) [OF el len]] by simp
  show "composite_loop (pre @ s @ '')'') (length pre) st =
      Inr (cmp_result st @ [if s = [] then None else Some s])"
    using skip composite_loop_step [OF _ composite_step_delimiter(2) [OF el len, of "[]"]]
    by (simp add: composite_loop_end push_field_def)
qed

text \<open>A quoted body is pushed at its closing quote; the scanner then stands at a new field.\<close>

lemma composite_step_open_quote:
  assumes "at_field pre st"
  shows "composite_step (pre @ dquote # suf) (length pre) st =
    Inr (st\<lparr>cmp_start_pos := Suc (length pre), cmp_in_quotes := True\<rparr>)"
  using assms by (simp add: composite_step_def composite_scan_char_def composite_push_def at_field_def)

lemma composite_step_close_quote:
  assumes "pre \<noteq> []" and st: "cmp_in_quotes st" "cmp_start_pos st = Suc (length pre)" "cmp_end_pos st = 0"
    and b: "\<not> ends_in_backslash b"
  shows "composite_step ((pre @ dquote # b) @ dquote # suf) (length (pre @ dquote # b)) st =
    Inr (st\<lparr>cmp_in_quotes := False, cmp_result := cmp_result st @ [if b = [] then None else Some b],
      cmp_start_pos := Suc (length (pre @ dquote # b)), cmp_end_pos := 0\<rparr>)"
proof -
  let ?pre = "pre @ dquote # b"
  let ?st1 = "st\<lparr>cmp_end_pos := length pre + length b, cmp_in_quotes := False\<rparr>"
  have "(?pre @ dquote # suf) ! (length ?pre - Suc 0) = last ?pre" by (rule nth_before_middle) simp
  moreover have "last ?pre \<noteq> backslash" using b by (auto simp: ends_in_backslash_def)
  ultimately have "composite_scan_char (?pre @ dquote # suf) (length ?pre) st = Inr ?st1"
    using st(1) nth_middle [of ?pre dquote suf] unfolding composite_scan_char_def Let_def
    by (simp del: nth_middle)
  moreover have "composite_push (?pre @ dquote # suf) (length ?pre) ?st1 =
      Inr (st\<lparr>cmp_in_quotes := False, cmp_result := cmp_result st @ [if b = [] then None else Some b],
        cmp_start_pos := Suc (length ?pre), cmp_end_pos := 0\<rparr>)"
    using st assms(1) by (cases st) (simp add: composite_push_def)
  ultimately show ?thesis by (simp add: composite_step_def)
qed

lemma composite_loop_quoted:
  assumes el: "at_field pre st" and b: "closed_body b"
  shows "composite_loop (pre @ [dquote] @ b @ [dquote] @ suf) (length pre) st =
    composite_loop (pre @ [dquote] @ b @ [dquote] @ suf) (length (pre @ [dquote] @ b @ [dquote]))
      (push_field st (length (pre @ [dquote] @ b @ [dquote])) (if b = [] then None else Some b))"
proof -
  let ?st1 = "st\<lparr>cmp_start_pos := Suc (length pre), cmp_in_quotes := True\<rparr>"
  let ?input = "(pre @ [dquote]) @ b @ dquote # suf"
  have inert: "composite_inert ?st1 = (\<lambda>p c. \<not> bare_quote p c)"
    using el by (intro ext) (simp add: composite_inert_def at_field_def)
  have "composite_loop ?input (length pre) st = composite_loop ?input (length (pre @ [dquote])) ?st1"
    using composite_loop_step [OF _ composite_step_open_quote [OF el, of "b @ dquote # suf"]] by simp
  also have "\<dots> = composite_loop ?input (length (pre @ dquote # b)) ?st1"
    using composite_scanner.skip_chain [of "pre @ [dquote]" ?st1 b "dquote # suf"] b inert
    by (simp add: closed_body_def)
  also have "\<dots> = composite_loop ?input (Suc (length (pre @ dquote # b)))
      (push_field st (Suc (length (pre @ dquote # b))) (if b = [] then None else Some b))"
    using composite_loop_step [OF _ composite_step_close_quote [of pre ?st1 b suf]] el b
    by (cases st) (simp add: at_field_def closed_body_def push_field_def)
  finally show ?thesis by simp
qed

lemma at_field_after_quote:
  "at_field pre st \<Longrightarrow>
   at_field (pre @ [dquote] @ b @ [dquote]) (push_field st (length (pre @ [dquote] @ b @ [dquote])) f)"
  by (simp add: at_field_def push_field_def)


definition push_fields :: "composite_scan \<Rightarrow> nat \<Rightarrow> string option list \<Rightarrow> composite_scan" where
  "push_fields st n fs = st\<lparr>cmp_result := cmp_result st @ fs, cmp_start_pos := n, cmp_end_pos := 0\<rparr>"

lemma push_fields_simps:
  "push_field st n f = push_fields st n [f]"
  "push_fields (push_fields st m fs) n gs = push_fields st n (fs @ gs)"
  "cmp_result (push_fields st n fs) = cmp_result st @ fs"
  by (simp_all add: push_field_def push_fields_def)

lemma at_field_push_fields:
  "at_field pre st \<Longrightarrow> at_field (pre @ e @ '','') (push_fields st (Suc (length pre + length e)) fs)"
  by (simp add: at_field_def push_fields_def)

lemma composite_loop_field_comma:
  assumes el: "at_field pre st" and f: "readable_field f"
    and len: "f = Null_field \<Longrightarrow> Suc 0 < length pre"
  shows "composite_loop (pre @ field_text f @ CHR '','' # suf) (length pre) st =
    composite_loop (pre @ field_text f @ CHR '','' # suf) (Suc (length pre + length (field_text f)))
      (push_fields st (Suc (length pre + length (field_text f))) (read_field f))"
proof (cases f)
  case Null_field
  then show ?thesis
    using composite_loop_unquoted(1) [OF el, of "[]" suf] len by (simp add: push_fields_simps)
next
  case (Plain_field s)
  moreover have "Suc 0 < length pre + length s"
    using el f Plain_field by (cases pre; cases s) (simp_all add: at_field_def)
  ultimately show ?thesis
    using composite_loop_unquoted(1) [OF el, of s suf] f by (simp add: push_fields_simps)
next
  case (Quoted_field b)
  then show ?thesis
    using composite_loop_quoted [OF el, of b "CHR '','' # suf"] f
      composite_loop_unquoted(1) [OF at_field_after_quote [OF el, of b], where s = "[]" and suf = suf]
    by (simp add: push_fields_simps)
qed

lemma composite_loop_field_last:
  assumes el: "at_field pre st" and f: "readable_field f"
    and len: "f = Null_field \<Longrightarrow> Suc 0 < length pre"
  shows "composite_loop (pre @ field_text f @ '')'') (length pre) st =
    Inr (cmp_result st @ read_field f)"
proof (cases f)
  case Null_field
  then show ?thesis using composite_loop_unquoted(2) [OF el, of "[]"] len by simp
next
  case (Plain_field s)
  moreover have "Suc 0 < length pre + length s"
    using el f Plain_field by (cases pre; cases s) (simp_all add: at_field_def)
  ultimately show ?thesis using composite_loop_unquoted(2) [OF el, of s] f by simp
next
  case (Quoted_field b)
  then show ?thesis
    using composite_loop_quoted [OF el, of b "'')''"] f
      composite_loop_unquoted(2) [OF at_field_after_quote [OF el, of b], where s = "[]"]
    by (simp add: push_fields_simps)
qed

section \<open>A whole composite value\<close>

definition composite_text :: "composite_field list \<Rightarrow> string" where
  "composite_text fs = ''('' @ comma_separated 0 (map field_text fs) @ '')''"

lemma composite_loop_fields:
  assumes "at_field pre st" and "list_all readable_field fs" and "fs \<noteq> []"
    and "hd fs = Null_field \<Longrightarrow> Suc 0 < length pre"
  shows "composite_loop (pre @ comma_separated 0 (map field_text fs) @ '')'') (length pre) st =
    Inr (cmp_result st @ concat (map read_field fs))"
  using assms
proof (induction fs arbitrary: pre st rule: induct_list012)
  case (2 f)
  then show ?case using composite_loop_field_last [of pre st f] by simp
next
  case (3 f g hs)
  let ?e = "field_text f" and ?rest = "comma_separated 0 (map field_text (g # hs)) @ '')''"
  let ?n = "Suc (length pre + length ?e)"
  have "composite_loop (pre @ comma_separated 0 (map field_text (f # g # hs)) @ '')'') (length pre) st =
      composite_loop (pre @ ?e @ CHR '','' # ?rest) (length pre) st"
    by (simp add: comma_separated_two)
  also have "\<dots> = composite_loop (pre @ ?e @ CHR '','' # ?rest) ?n (push_fields st ?n (read_field f))"
    using "3.prems" by (intro composite_loop_field_comma) simp_all
  also have "\<dots> = composite_loop ((pre @ ?e @ '','') @ ?rest) (length (pre @ ?e @ '',''))
      (push_fields st ?n (read_field f))" by simp
  also have "\<dots> = Inr (cmp_result (push_fields st ?n (read_field f)) @
      concat (map read_field (g # hs)))"
    using "3.prems" by (intro "3.IH"(2) at_field_push_fields) (auto simp: at_field_def)
  finally show ?case by (simp add: push_fields_simps)
qed simp

lemma composite_loop_opening:
  "composite_loop (CHR ''('' # suf) 0 composite_scan_init = composite_loop (CHR ''('' # suf) 1
     (composite_scan_init\<lparr>cmp_depth := 1, cmp_item_num := 1, cmp_start_pos := 1\<rparr>)"
  by (subst composite_loop_step)
    (simp_all add: composite_step_def composite_scan_char_def composite_push_def composite_scan_init_def)

lemma from_text_composite_opening:
  "from_text_composite_value asserts (CHR ''('' # mid @ '')'') =
   composite_loop (CHR ''('' # mid @ '')'') 1
     (composite_scan_init\<lparr>cmp_depth := 1, cmp_item_num := 1, cmp_start_pos := 1\<rparr>)"
  by (simp add: from_text_composite_value_def composite_loop_opening)

lemma from_text_composite_text:
  assumes "list_all readable_field fs" and "fs \<noteq> []" and "hd fs \<noteq> Null_field"
  shows "from_text_composite_value asserts (composite_text fs) = Inr (concat (map read_field fs))"
proof -
  let ?st = "composite_scan_init\<lparr>cmp_depth := 1, cmp_item_num := 1, cmp_start_pos := 1\<rparr>"
  have "at_field ''('' ?st" by (simp add: at_field_def composite_scan_init_def)
  from composite_loop_fields [OF this assms(1,2)] assms(3)
  show ?thesis
    by (simp add: composite_text_def from_text_composite_opening composite_scan_init_def)
qed

section \<open>Absence of exceptions\<close>

definition composite_inv :: "nat \<Rightarrow> composite_scan \<Rightarrow> bool" where
  "composite_inv i st \<longleftrightarrow> cmp_start_pos st \<le> i"

lemma composite_step_fault:
  assumes "composite_inv i st" and "i < length input" and "composite_step input i st = Inl f"
  shows "i = 0 \<and> hd input = dquote"
proof (cases "composite_scan_char input i st")
  case (Inl g)
  then show ?thesis
    using assms(2)
    by (cases "i = 0") (auto simp: composite_scan_char_def hd_conv_nth Let_def split: if_splits)
next
  case (Inr st1)
  then have "cmp_start_pos st1 \<le> length input"
    using assms(1,2) by (auto simp: composite_scan_char_def composite_inv_def Let_def split: if_splits)
  then have "\<exists>st2. composite_push input i st1 = Inr st2" by (simp add: composite_push_def)
  with Inr assms(3) show ?thesis by (auto simp: composite_step_def)
qed

lemma composite_step_inv:
  assumes "composite_inv i st" and "composite_step input i st = Inr st2"
  shows "composite_inv (Suc i) st2"
proof (cases "composite_scan_char input i st")
  case (Inr st1)
  then have "cmp_start_pos st1 \<le> Suc i"
    using assms(1) by (auto simp: composite_scan_char_def composite_inv_def Let_def split: if_splits)
  with Inr assms(2) show ?thesis
    by (auto simp: composite_step_def composite_push_def composite_inv_def
        split: if_splits sum.splits)
qed (use assms(2) in \<open>simp add: composite_step_def\<close>)

lemma composite_loop_no_fault:
  "composite_inv i st \<Longrightarrow> i \<noteq> 0 \<or> input = [] \<or> hd input \<noteq> dquote \<Longrightarrow>
   \<exists>fs. composite_loop input i st = Inr fs"
proof (induction input i st rule: composite_loop.induct)
  case (1 input i st)
  show ?case
  proof (cases "i < length input")
    case False
    then show ?thesis by (simp add: composite_loop_end)
  next
    case True
    then obtain st1 where step: "composite_step input i st = Inr st1"
      using composite_step_fault [OF "1.prems"(1) True] "1.prems"(2)
      by (cases "composite_step input i st") auto
    then show ?thesis
      using "1.IH" [OF True step] composite_step_inv [OF "1.prems"(1) step] True
      by (simp add: composite_loop_step)
  qed
qed

lemma from_text_composite_no_fault:
  assumes "check_brackets asserts (CHR ''('') (CHR '')'') input = None"
    and "input = [] \<or> hd input \<noteq> dquote"
  shows "\<exists>fs. from_text_composite_value asserts input = Inr fs"
  using assms composite_loop_no_fault [of 0 composite_scan_init input]
  by (simp add: from_text_composite_value_def composite_inv_def composite_scan_init_def)


definition readable_composite :: "composite_field list \<Rightarrow> bool" where
  "readable_composite fs \<longleftrightarrow> list_all readable_field fs \<and> fs \<noteq> [] \<and> hd fs \<noteq> Null_field"

interpretation composite_format: text_format readable_composite composite_text
    "from_text_composite_value asserts" "\<lambda>fs. Inr (concat (map read_field fs))" for asserts
  by unfold_locales (simp add: readable_composite_def from_text_composite_text)

text \<open>What \<^verbatim>\<open>as_text_composite_value\<close> prints, as fields of the input of the parser.\<close>

definition printed_field :: "string option \<Rightarrow> composite_field" where
  "printed_field v = (case v of Some s \<Rightarrow> Quoted_field (escape_quoted s) | None \<Rightarrow> Plain_field NULL_text)"

lemma as_text_composite_text:
  "as_text_composite_value fs = composite_text (map printed_field fs)"
  by (simp add: as_text_composite_value_def composite_text_def printed_field_def comp_def
      double_quote_def if_distrib option.case_distrib [of field_text] cong: option.case_cong)

end
