(* ===== verification/FormatProps.thy ===== *)
theory FormatProps
  imports TextComposite TextHstore
begin

text \<open>
  The properties of the printers and parsers of \<^verbatim>\<open>libpq-raii.hpp\<close>: what each parser makes of the
  text that its printer, or PostgreSQL, produces.
\<close>

section \<open>Arrays\<close>



text \<open>
  The text that PostgreSQL prints for a \<^verbatim>\<open>text[]\<close>, in which only the elements that need
  it are quoted, is read as its elements, commas, braces and quotes inside of them included.
\<close>

theorem array_text_is_read:
  assumes "list_all parsable_element xs" and "\<forall>x\<in>set xs. backslash \<notin> set (snd x)"
  shows "from_text_array asserts (array_text xs) = Some (Inr (map snd xs))"
proof -
  have "map (strip_backslashes \<circ> snd) xs = map snd xs" using assms(2) by simp
  then show ?thesis using from_text_array_text [OF assms(1), of asserts] by simp
qed

theorem array_text_is_read_witness:
  "from_text_array True (array_text [(False, ''echo''), (True, ''a,{b}''), (True, [dquote])]) =
    Some (Inr [''echo'', ''a,{b}'', [dquote]])"
  using array_text_is_read [of "[(False, ''echo''), (True, ''a,{b}''), (True, [dquote])]" True]
  by (simp add: parsable_element_def plain_element_def ends_in_backslash_def)

text \<open>
  C40. \<^verbatim>\<open>from_text_array\<close> is total: on every text its loop, whose position may jump, comes to
  an end; and on a text in braces it throws nothing and no position leaves the text.
\<close>

theorem array_parser_total:
  shows "\<exists>r. from_text_array asserts input = Some r \<and>
    (\<forall>mid. input = CHR ''{'' # mid @ [CHR ''}''] \<longrightarrow> \<not> isl r)"
proof -
  have "\<exists>xs. from_text_array asserts input = Some (Inr xs)"
    if "input = CHR ''{'' # mid @ [CHR ''}'']" for mid
    using that from_text_array_no_fault [of asserts input] by simp
  moreover have "\<exists>r. from_text_array asserts input = Some r"
    by (rule from_text_array_returns)
  ultimately show ?thesis by (cases "\<exists>mid. input = CHR ''{'' # mid @ [CHR ''}'']") auto
qed

theorem array_parser_total_witness: "\<exists>r. from_text_array True ''{,,{x}y}'' = Some r \<and> \<not> isl r"
proof -
  have "''{,,{x}y}'' = CHR ''{'' # '',,{x}y'' @ [CHR ''}'']" by simp
  with array_parser_total [of True "''{,,{x}y}''"] show ?thesis by metis
qed

section \<open>Composite values\<close>

text \<open>
  What \<^verbatim>\<open>from_text_composite_value\<close> makes of the text of a composite value: a plain field
  is read as it is and an empty one as \<^verbatim>\<open>NULL\<close>, but every quoted field is followed by a
  \<^verbatim>\<open>NULL\<close> that is not in the text, so that the number of fields comes out too large by the
  number of quoted ones.
\<close>

theorem composite_is_read:
  assumes "readable_composite fs"
  shows "\<exists>values. from_text_composite_value asserts (composite_text fs) = Inr values \<and>
    values = concat (map read_field fs) \<and>
    length values = length fs + length (filter (\<lambda>f. \<exists>b. f = Quoted_field b) fs)"
proof -
  have "length (concat (map read_field fs)) = length fs + length (filter (\<lambda>f. \<exists>b. f = Quoted_field b) fs)" for fs
  proof (induction fs)
    case (Cons f fs)
    then show ?case by (cases f) simp_all
  qed simp
  then show ?thesis using composite_format.parse_print [OF assms, of asserts] by simp
qed

theorem composite_is_read_witness:
  "from_text_composite_value True (composite_text [Plain_field ''q'', Quoted_field ''a b'', Null_field]) =
    Inr [Some ''q'', Some ''a b'', None, None]"
  using composite_is_read [of "[Plain_field ''q'', Quoted_field ''a b'', Null_field]" True]
  by (simp add: readable_composite_def closed_body_def bare_quote_def ends_in_backslash_def)

section \<open>Environments\<close>

text \<open>
  The text of an \<^verbatim>\<open>hstore\<close> of plain keys and safe values is read as exactly its pairs,
  whatever stands between them.
\<close>

theorem hstore_is_read:
  assumes "list_all good_pair m" and "separator sep" and "distinct (map fst m)"
  shows "bind_exn (from_text_hstore (hstore_text sep m)) throw_if_missing_any_value = Inr m"
  using from_text_hstore_text [OF assms(1,2)] assms(3) env_pairs_distinct [of "[]" m] by simp

theorem hstore_is_read_witness:
  "bind_exn (from_text_hstore (hstore_text '', '' [(''LANG'', ''C''), (''X'', [CHR ''a'', dquote])]))
    throw_if_missing_any_value = Inr [(''LANG'', ''C''), (''X'', [CHR ''a'', dquote])]"
  by (rule hstore_is_read)
    (simp_all add: good_pair_def plain_key_def safe_value_def lone_backslash_def separator_def ends_in_backslash_def
      ascii_lower_def)

end
