(* ===== verification/RowExec.thy ===== *)
theory RowExec
  imports NixRunProps FormatProps
begin

text \<open>
  From a row of the queue to the program that is executed: the constructor of \<^verbatim>\<open>NixQueueCmd\<close>, which
  reads \<^verbatim>\<open>cmd_argv\<close> and \<^verbatim>\<open>cmd_env\<close> from the texts that PostgreSQL prints, together with the child
  of \<^verbatim>\<open>run_cmd\<close>, which executes what was read.
\<close>

lemma set_comma_separated: "set (comma_separated i xs) \<subseteq> insert (CHR '','') (\<Union> (set ` set xs))"
  by (induction i xs rule: comma_separated.induct) auto

lemma set_double_quote: "set (double_quote s) \<subseteq> insert dquote (insert backslash (set s))"
  using set_escape_quoted [of s] by (auto simp: double_quote_def)

lemma set_array_element: "set (array_element x) \<subseteq> insert dquote (insert backslash (set (snd x)))"
  using set_double_quote [of "snd x"] by (auto simp: array_element_def)

lemma array_text_no_nul:
  assumes "\<forall>x\<in>set xs. nul \<notin> set (snd x)"
  shows "nul \<notin> set (array_text xs)"
proof -
  have "nul \<notin> set (array_element x)" if "x \<in> set xs" for x
    using set_array_element [of x] assms that by auto
  then have "nul \<notin> set (comma_separated 0 (map array_element xs))"
    using set_comma_separated [of 0 "map array_element xs"] by auto
  then show ?thesis by (simp add: array_text_def)
qed

lemma pair_text_no_nul: "nul \<notin> set (fst x) \<Longrightarrow> nul \<notin> set (snd x) \<Longrightarrow> nul \<notin> set (pair_text x)"
  using set_double_quote [of "fst x"] set_double_quote [of "snd x"] by (auto simp: pair_text_def)

lemma hstore_text_no_nul:
  "\<forall>x\<in>set m. nul \<notin> set (fst x) \<and> nul \<notin> set (snd x) \<Longrightarrow> nul \<notin> set sep \<Longrightarrow> nul \<notin> set (hstore_text sep m)"
  by (induction sep m rule: hstore_text.induct) (auto simp: pair_text_no_nul)

lemma text_array_value_text:
  assumes "list_all parsable_element xs" and "\<forall>x\<in>set xs. {nul, backslash} \<inter> set (snd x) = {}"
  shows "text_array_value asserts (c_string (array_text xs)) = Inr (map snd xs)"
proof -
  have "map (strip_backslashes \<circ> snd) xs = map snd xs" using assms(2) by simp
  then show ?thesis
    using from_text_array_text [OF assms(1), of asserts] array_text_no_nul [of xs] assms(2)
    by (simp add: text_array_value_def c_string_id)
qed

lemma hstore_value_text:
  assumes "list_all good_pair m" and "\<forall>var\<in>set m. environ_pair var" and "distinct (map fst m)"
  shows "bind_exn (from_text_hstore (c_string (hstore_text '', '' m))) throw_if_missing_any_value = Inr m"
proof -
  have "c_string (hstore_text '', '' m) = hstore_text '', '' m"
    using assms(2) by (intro c_string_id hstore_text_no_nul) (auto simp: environ_pair_def)
  then show ?thesis
    using from_text_hstore_text [OF assms(1), of "'', ''"] env_pairs_distinct [of "[]" m] assms(3)
    by (simp add: separator_def)
qed


text \<open>A row with the columns of \<^verbatim>\<open>nix_queue_cmd_template\<close> that the constructor reads.\<close>

definition nix_columns :: "string option list \<Rightarrow> pg_result" where
  "nix_columns values = \<lparr>res_status = PGRES_TUPLES_OK,
     res_fnames = [''cmd_argv'', ''cmd_env'', ''cmd_stdin''], res_rows = [values],
     res_error_message = [], res_diag = Map.empty\<rparr>"



lemma read_null_text:
  "from_text_hstore (c_string (hstore_text '', '' [(''LANG'', ''C''), (''X'', ''null'')])) =
    Inr [(''LANG'', Some ''C''), (''X'', None)]"
  by code_simp


end
