(* ===== verification/PqRaii.thy ===== *)
theory PqRaii
  imports NixCmd "HOL-Library.Multiset"
begin

text \<open>
  The RAII layer of \<^verbatim>\<open>libpq-raii.hpp\<close>: who owns a \<^verbatim>\<open>PGresult\<close>, a \<^verbatim>\<open>PGconn\<close> or a
  \<^verbatim>\<open>PGnotify\<close> and when it is freed, the iteration over the rows of a result, and what the
  parameters of a statement become on their way to the server.
\<close>

section \<open>Ownership\<close>

text \<open>
  Addresses are numbers, and a null pointer is \<open>None\<close>.  A state has the wrapper objects in scope,
  by name, with the pointer of each, and the addresses passed to \<^verbatim>\<open>PQclear\<close> so far.
\<close>

type_synonym address = nat

record scope =
  sc_wrappers :: "(string \<times> address option) list"
  sc_freed :: "address list"

definition no_scope :: scope where
  "no_scope = \<lparr>sc_wrappers = [], sc_freed = []\<rparr>"

text \<open>\<^verbatim>\<open>result(PGresult *res)\<close>, and likewise \<^verbatim>\<open>conn(PGconn *)\<close> and \<^verbatim>\<open>notify(PGnotify *)\<close>\<close>

definition construct :: "string \<Rightarrow> address option \<Rightarrow> scope \<Rightarrow> scope" where
  "construct x res sc = sc\<lparr>sc_wrappers := (x, res) # sc_wrappers sc\<rparr>"

text \<open>\<^verbatim>\<open>get()\<close>\<close>

definition get :: "string \<Rightarrow> scope \<Rightarrow> address option" where
  "get x sc = (case map_of (sc_wrappers sc) x of None \<Rightarrow> None | Some p \<Rightarrow> p)"

definition set_pointer :: "string \<Rightarrow> address option \<Rightarrow> scope \<Rightarrow> scope" where
  "set_pointer x p sc = sc\<lparr>sc_wrappers := AList.update x p (sc_wrappers sc)\<rparr>"

text \<open>\<^verbatim>\<open>result(result &&other)\<close>\<close>

definition move_construct :: "string \<Rightarrow> string \<Rightarrow> scope \<Rightarrow> scope" where
  "move_construct x other sc = construct x (get other sc) (set_pointer other None sc)"

text \<open>\<^verbatim>\<open>operator=(result &&other)\<close>: the old pointer is overwritten, not freed.\<close>

definition move_assign :: "string \<Rightarrow> string \<Rightarrow> scope \<Rightarrow> scope" where
  "move_assign x other sc = set_pointer other None (set_pointer x (get other sc) sc)"

definition free_pointer :: "address option \<Rightarrow> scope \<Rightarrow> scope" where
  "free_pointer p sc = (case p of None \<Rightarrow> sc | Some a \<Rightarrow> sc\<lparr>sc_freed := sc_freed sc @ [a]\<rparr>)"

text \<open>\<^verbatim>\<open>~result()\<close>, \<^verbatim>\<open>~conn()\<close> and \<^verbatim>\<open>~notify()\<close>, at the end of the scope\<close>

definition destroy :: "string \<Rightarrow> scope \<Rightarrow> scope" where
  "destroy x sc = free_pointer (get x sc) (sc\<lparr>sc_wrappers := AList.delete x (sc_wrappers sc)\<rparr>)"

text \<open>\<^verbatim>\<open>conn::finish()\<close>; \<^verbatim>\<open>PQfinish\<close> of a null pointer does nothing.\<close>

definition finish :: "string \<Rightarrow> scope \<Rightarrow> scope" where
  "finish x sc = set_pointer x None (free_pointer (get x sc) sc)"

text \<open>
  Statements on wrappers; \<open>Assign_result x p\<close> is \<^verbatim>\<open>x = PQ::exec(...)\<close>, which constructs a
  temporary object from the pointer that libpq returns, assigns it and destroys it.
\<close>

datatype raii_op =
    Construct string "address option"
  | Move_construct string string
  | Assign_result string "address option"
  | Finish string
  | Destroy string

definition assign_result :: "string \<Rightarrow> address option \<Rightarrow> scope \<Rightarrow> scope" where
  "assign_result x p sc = destroy ''temporary'' (move_assign x ''temporary'' (construct ''temporary'' p sc))"

fun raii_step :: "raii_op \<Rightarrow> scope \<Rightarrow> scope" where
  "raii_step (Construct x p) sc = construct x p sc"
| "raii_step (Move_construct x y) sc = move_construct x y sc"
| "raii_step (Assign_result x p) sc = assign_result x p sc"
| "raii_step (Finish x) sc = finish x sc"
| "raii_step (Destroy x) sc = destroy x sc"

definition raii_run :: "raii_op list \<Rightarrow> scope \<Rightarrow> scope" where
  "raii_run ops sc = fold raii_step ops sc"

text \<open>
  What a compiler and libpq see to: a name is declared once in a scope, used only while it is, and
  the pointers that libpq returns are new ones.
\<close>

definition declared :: "string \<Rightarrow> scope \<Rightarrow> bool" where
  "declared x sc \<longleftrightarrow> x \<in> fst ` set (sc_wrappers sc)"

fun raii_ok :: "raii_op \<Rightarrow> scope \<Rightarrow> bool" where
  "raii_ok (Construct x p) sc = (x \<noteq> ''temporary'' \<and> \<not> declared x sc)"
| "raii_ok (Move_construct x y) sc = (x \<noteq> ''temporary'' \<and> \<not> declared x sc \<and> declared y sc)"
| "raii_ok (Assign_result x p) sc = declared x sc"
| "raii_ok (Finish x) sc = declared x sc"
| "raii_ok (Destroy x) sc = declared x sc"

fun raii_run_ok :: "raii_op list \<Rightarrow> scope \<Rightarrow> bool" where
  "raii_run_ok [] sc = True"
| "raii_run_ok (op # ops) sc = (raii_ok op sc \<and> raii_run_ok ops (raii_step op sc))"

fun new_pointers :: "raii_op \<Rightarrow> address list" where
  "new_pointers (Construct x (Some a)) = [a]"
| "new_pointers (Assign_result x (Some a)) = [a]"
| "new_pointers op = []"

text \<open>The pointers overwritten by an assignment\<close>

fun leaks :: "raii_op \<Rightarrow> scope \<Rightarrow> address list" where
  "leaks (Assign_result x p) sc = (case get x sc of None \<Rightarrow> [] | Some a \<Rightarrow> [a])"
| "leaks op sc = []"

fun run_leaks :: "raii_op list \<Rightarrow> scope \<Rightarrow> address list" where
  "run_leaks [] sc = []"
| "run_leaks (op # ops) sc = leaks op sc @ run_leaks ops (raii_step op sc)"

definition pointer_mset :: "address option \<Rightarrow> address multiset" where
  "pointer_mset p = (case p of None \<Rightarrow> {#} | Some a \<Rightarrow> {#a#})"

definition owned :: "scope \<Rightarrow> address multiset" where
  "owned sc = \<Sum>\<^sub># (mset (map (pointer_mset \<circ> snd) (sc_wrappers sc)))"

definition scope_ok :: "scope \<Rightarrow> bool" where
  "scope_ok sc \<longleftrightarrow> distinct (map fst (sc_wrappers sc)) \<and> \<not> declared ''temporary'' sc"

lemma pointer_mset_simps [simp]: "pointer_mset None = {#}" "pointer_mset (Some a) = {#a#}"
  by (simp_all add: pointer_mset_def)

lemma owned_construct [simp]: "owned (construct x p sc) = pointer_mset p + owned sc"
  by (simp add: owned_def construct_def)

lemma owned_freed [simp]: "owned (sc\<lparr>sc_freed := f\<rparr>) = owned sc"
  by (simp add: owned_def)

lemma freed_simps [simp]:
  "sc_freed (construct x p sc) = sc_freed sc"
  "sc_freed (set_pointer x p sc) = sc_freed sc"
  by (simp_all add: construct_def set_pointer_def)

lemma set_update_keys: "fst ` set (AList.update x p ws) = insert x (fst ` set ws)"
  using arg_cong [OF update_keys [of x p ws], of set] by auto

lemma set_delete_keys: "fst ` set (AList.delete x ws) = fst ` set ws - {x}"
  using arg_cong [OF delete_keys [of x ws], of set] by simp

lemma declared_set_pointer [simp]: "declared y (set_pointer x p sc) \<longleftrightarrow> y = x \<or> declared y sc"
  by (auto simp: declared_def set_pointer_def set_update_keys)

lemma owned_set_pointer:
  "declared x sc \<Longrightarrow> owned (set_pointer x p sc) + pointer_mset (get x sc) = pointer_mset p + owned sc"
proof -
  have "x \<in> fst ` set ws \<Longrightarrow>
      \<Sum>\<^sub># (mset (map (pointer_mset \<circ> snd) (AList.update x p ws))) +
        pointer_mset (case map_of ws x of None \<Rightarrow> None | Some q \<Rightarrow> q) =
      pointer_mset p + \<Sum>\<^sub># (mset (map (pointer_mset \<circ> snd) ws))" for ws
    by (induction ws) (auto simp: ac_simps)
  then show "declared x sc \<Longrightarrow> ?thesis"
    by (simp add: owned_def set_pointer_def get_def declared_def)
qed

lemma owned_delete:
  assumes "distinct (map fst (sc_wrappers sc))"
  shows "owned (sc\<lparr>sc_wrappers := AList.delete x (sc_wrappers sc)\<rparr>) + pointer_mset (get x sc) = owned sc"
proof -
  have "distinct (map fst ws) \<Longrightarrow>
      \<Sum>\<^sub># (mset (map (pointer_mset \<circ> snd) (AList.delete x ws))) +
        pointer_mset (case map_of ws x of None \<Rightarrow> None | Some q \<Rightarrow> q) =
      \<Sum>\<^sub># (mset (map (pointer_mset \<circ> snd) ws))" for ws
    by (induction ws) (auto simp: ac_simps delete_id)
  from this [OF assms] show ?thesis by (simp add: owned_def get_def)
qed

lemma free_pointer_simps [simp]:
  "owned (free_pointer p sc) = owned sc"
  "sc_wrappers (free_pointer p sc) = sc_wrappers sc"
  "mset (sc_freed (free_pointer p sc)) = pointer_mset p + mset (sc_freed sc)"
  "get x (free_pointer p sc) = get x sc"
  "declared x (free_pointer p sc) = declared x sc"
  by (simp_all add: free_pointer_def get_def declared_def split: option.split)

text \<open>The assignment of a temporary object is one to the pointer.\<close>

lemma assign_result_eq:
  assumes "scope_ok sc" and "declared x sc"
  shows "assign_result x p sc = set_pointer x p sc"
proof -
  have fresh: "''temporary'' \<notin> fst ` set (sc_wrappers sc)" using assms(1) by (simp add: scope_ok_def declared_def)
  moreover have "x \<noteq> ''temporary''" using fresh assms(2) by (metis declared_def)
  moreover have "''temporary'' \<notin> fst ` set (AList.update x p (sc_wrappers sc))"
    using calculation by (simp add: set_update_keys)
  ultimately show ?thesis
    by (simp add: assign_result_def move_assign_def destroy_def construct_def get_def set_pointer_def
        free_pointer_def delete_id)
qed

lemma raii_step_ok:
  assumes "scope_ok sc" and "raii_ok op sc"
  shows "scope_ok (raii_step op sc)"
proof (cases op)
  case (Assign_result x p)
  with assms show ?thesis
    by (auto simp: assign_result_eq scope_ok_def set_pointer_def declared_def distinct_update
        set_update_keys)
qed (use assms in \<open>auto simp: scope_ok_def construct_def move_construct_def set_pointer_def declared_def
    finish_def destroy_def distinct_update distinct_delete
    set_update_keys set_delete_keys\<close>)

text \<open>Every pointer is somewhere: with a wrapper, freed, or overwritten.\<close>

lemma raii_step_accounts:
  assumes "scope_ok sc" and "raii_ok op sc"
  shows "owned (raii_step op sc) + mset (sc_freed (raii_step op sc)) + mset (leaks op sc) =
    owned sc + mset (sc_freed sc) + mset (new_pointers op)"
proof (cases op)
  case (Construct x p)
  then show ?thesis by (cases p) (simp_all add: ac_simps)
next
  case (Move_construct x y)
  with assms show ?thesis
    using owned_set_pointer [of y sc None] by (simp add: move_construct_def ac_simps)
next
  case (Assign_result x p)
  with assms have "owned (set_pointer x p sc) + pointer_mset (get x sc) = pointer_mset p + owned sc"
    by (intro owned_set_pointer) simp
  with Assign_result assms show ?thesis
    by (cases p; cases "get x sc") (simp_all add: assign_result_eq ac_simps)
next
  case (Finish x)
  with assms show ?thesis
    using owned_set_pointer [of x "free_pointer (get x sc) sc" None] by (simp add: finish_def ac_simps)
next
  case (Destroy x)
  with assms show ?thesis
    using owned_delete [of sc x] by (simp add: destroy_def scope_ok_def ac_simps)
qed

lemma raii_run_accounts:
  "scope_ok sc \<Longrightarrow> raii_run_ok ops sc \<Longrightarrow>
    owned (raii_run ops sc) + mset (sc_freed (raii_run ops sc)) + mset (run_leaks ops sc) =
    owned sc + mset (sc_freed sc) + mset (concat (map new_pointers ops))"
proof (induction ops arbitrary: sc)
  case (Cons op ops)
  from Cons.prems have "scope_ok (raii_step op sc)" by (intro raii_step_ok) simp_all
  from Cons.IH [OF this] Cons.prems(2) raii_step_accounts [OF Cons.prems(1), of op] show ?case
    by (simp add: raii_run_def ac_simps)
qed (simp add: raii_run_def)

text \<open>
  C28. Accounting of the results of libpq: whatever a scope does with its wrappers, each pointer
  that it was given is with exactly one wrapper, or was freed, once, or was overwritten by an
  assignment; an overwritten one is never freed.  So nothing is freed twice or used after it was
  freed, and at the end of the scope exactly the pointers overwritten are lost.
\<close>

theorem results_accounted:
  assumes "raii_run_ok ops no_scope" and "distinct (concat (map new_pointers ops))"
  defines "sc \<equiv> raii_run ops no_scope" and "lost \<equiv> run_leaks ops no_scope"
  shows "distinct (sc_freed sc @ lost) \<and> set (sc_freed sc @ lost) \<inter> set_mset (owned sc) = {} \<and>
    (\<forall>a. count (owned sc) a \<le> 1) \<and>
    (sc_wrappers sc = [] \<longrightarrow> mset (sc_freed sc @ lost) = mset (concat (map new_pointers ops)))"
proof -
  have "scope_ok no_scope" "owned no_scope = {#}" "sc_freed no_scope = []"
    by (simp_all add: scope_ok_def no_scope_def declared_def owned_def)
  with raii_run_accounts [of no_scope ops] assms(1)
  have all: "owned sc + mset (sc_freed sc @ lost) = mset (concat (map new_pointers ops))"
    by (simp add: sc_def lost_def ac_simps)
  obtain held where held: "mset held = owned sc" using ex_mset by blast
  with all have "mset (held @ sc_freed sc @ lost) = mset (concat (map new_pointers ops))" by simp
  with assms(2) have "distinct (held @ sc_freed sc @ lost)" using mset_eq_imp_distinct_iff by blast
  then have "distinct (sc_freed sc @ lost)" and "set (sc_freed sc @ lost) \<inter> set_mset (owned sc) = {}"
    and "distinct held"
    by (auto simp: held [symmetric])
  moreover from \<open>distinct held\<close> have "\<forall>a. count (owned sc) a \<le> 1"
    by (simp add: held [symmetric] distinct_count_atmost_1)
  moreover have "mset (sc_freed sc @ lost) = mset (concat (map new_pointers ops))" if "sc_wrappers sc = []"
    using all that by (simp add: owned_def)
  ultimately show ?thesis by blast
qed

text \<open>
  The loop of \<^verbatim>\<open>refresh_queue_list\<close> over its \<^verbatim>\<open>SELECT\<close>: all results but the last are lost.
\<close>

definition select_loop :: "address list \<Rightarrow> raii_op list" where
  "select_loop results =
     Construct ''result'' None # map (\<lambda>a. Assign_result ''result'' (Some a)) results @ [Destroy ''result'']"

lemma select_loop_leaks:
  "run_leaks (map (\<lambda>a. Assign_result x (Some a)) results @ [Destroy x]) \<lparr>sc_wrappers = [(x, p)], sc_freed = []\<rparr> =
     (case results of [] \<Rightarrow> [] | _ \<Rightarrow> (case p of None \<Rightarrow> [] | Some a \<Rightarrow> [a]) @ butlast results)"
  if "x \<noteq> ''temporary''"
proof (induction results arbitrary: p)
  case (Cons a results)
  have "assign_result x (Some a) \<lparr>sc_wrappers = [(x, p)], sc_freed = []\<rparr> = \<lparr>sc_wrappers = [(x, Some a)], sc_freed = []\<rparr>"
    using that by (subst assign_result_eq) (auto simp: scope_ok_def declared_def set_pointer_def)
  with Cons.IH [of "Some a"] show ?case by (cases results) (auto simp: get_def split: option.split)
qed simp

lemma select_loop_loses: "run_leaks (select_loop results) no_scope = butlast results"
  using select_loop_leaks [of "''result''" results None]
  by (cases results) (simp_all add: select_loop_def construct_def no_scope_def)

theorem results_accounted_witness:
  "mset (sc_freed (raii_run (select_loop [1, 2, 3]) no_scope) @ [1, 2]) = mset [1, 2, 3]"
proof -
  have "raii_run_ok (select_loop [1, 2, 3]) no_scope" "sc_wrappers (raii_run (select_loop [1, 2, 3]) no_scope) = []"
    by code_simp+
  with results_accounted [of "select_loop [1, 2, 3]"] show ?thesis
    by (simp add: select_loop_loses) (simp add: select_loop_def)
qed

section \<open>Iterating over rows\<close>

text \<open>
  \<^verbatim>\<open>tuple_iterator\<close> and \<^verbatim>\<open>tuples\<close>: the end of a container is an iterator that was only given
  the number of rows, whereas two iterators are compared by their row.
\<close>

record tuple_iterator =
  ti_result :: "pg_result option"
  ti_fieldMappings :: "string \<rightharpoonup> nat"
  ti_row :: nat
  ti_rowCount :: nat
  ti_fieldCount :: nat

definition end_iterator :: "nat \<Rightarrow> tuple_iterator" where
  "end_iterator rowCount = \<lparr>ti_result = None, ti_fieldMappings = Map.empty, ti_row = 0, ti_rowCount = rowCount,
     ti_fieldCount = 0\<rparr>"

definition tuple_iterator_of :: "pg_result \<Rightarrow> nat \<Rightarrow> nat \<Rightarrow> fault + tuple_iterator" where
  "tuple_iterator_of res rowCount fieldCount =
     (if fieldCount \<le> length (res_fnames res)
      then Inr \<lparr>ti_result = Some res,
        ti_fieldMappings = foldl (\<lambda>m (i, name). m(name \<mapsto> i)) Map.empty (enumerate 0 (take fieldCount (res_fnames res))),
        ti_row = 0, ti_rowCount = rowCount, ti_fieldCount = fieldCount\<rparr>
      else Inl (Exn (Logic_error ''construction from null'')))"

definition iterator_differs :: "tuple_iterator \<Rightarrow> tuple_iterator \<Rightarrow> bool" where
  "iterator_differs it rhs \<longleftrightarrow> ti_row it \<noteq> ti_row rhs"

definition next_tuple :: "tuple_iterator \<Rightarrow> tuple_iterator" where
  "next_tuple it = it\<lparr>ti_row := Suc (ti_row it)\<rparr>"

text \<open>
  \<^verbatim>\<open>operator*\<close> makes an object of the row; the exception for a row past the end is constructed,
  but not thrown.
\<close>

definition tuple_at :: "(pg_result option \<Rightarrow> nat \<Rightarrow> (string \<rightharpoonup> nat) \<Rightarrow> 't) \<Rightarrow> tuple_iterator \<Rightarrow> 't" where
  "tuple_at row_object it = row_object (ti_result it) (ti_row it) (ti_fieldMappings it)"

record tuples =
  tp_begin :: tuple_iterator
  tp_rowCount :: nat

definition tuples_end :: "tuples \<Rightarrow> tuple_iterator" where
  "tuples_end ts = end_iterator (tp_rowCount ts)"

text \<open>\<^verbatim>\<open>for (T t : tuples)\<close>; with more rows than \<open>fuel\<close> it has no result.\<close>

fun visit_tuples ::
    "(pg_result option \<Rightarrow> nat \<Rightarrow> (string \<rightharpoonup> nat) \<Rightarrow> 't) \<Rightarrow> nat \<Rightarrow> tuple_iterator \<Rightarrow> tuple_iterator \<Rightarrow> 't list option" where
  "visit_tuples row_object 0 it last_it = None"
| "visit_tuples row_object (Suc fuel) it last_it =
     (if \<not> iterator_differs it last_it then Some []
      else map_option (Cons (tuple_at row_object it)) (visit_tuples row_object fuel (next_tuple it) last_it))"

lemma visit_advanced: "0 < ti_row it \<Longrightarrow> visit_tuples row_object fuel it (end_iterator n) = None"
  by (induction fuel arbitrary: it) (simp_all add: iterator_differs_def end_iterator_def next_tuple_def)

text \<open>
  Iterating over the tuples of a result visits none of its rows, whatever their number, because
  the iterator for the end stands at row 0 as the one for the begin does; and a loop that starts
  at a later row never meets the end.
\<close>

theorem tuples_visit_nothing:
  assumes "tuple_iterator_of res rowCount fieldCount = Inr it"
  shows "visit_tuples row_object (Suc fuel) it (tuples_end \<lparr>tp_begin = it, tp_rowCount = rowCount\<rparr>) = Some [] \<and>
    visit_tuples row_object fuel (next_tuple it) (tuples_end \<lparr>tp_begin = it, tp_rowCount = rowCount\<rparr>) = None"
proof -
  have "ti_row it = 0" using assms by (auto simp: tuple_iterator_of_def split: if_splits)
  then show ?thesis
    using visit_advanced [of "next_tuple it" row_object fuel rowCount]
    by (simp add: tuples_end_def iterator_differs_def end_iterator_def next_tuple_def)
qed

section \<open>Parameters\<close>

text \<open>
  \<^verbatim>\<open>PQ::execParams\<close> and \<^verbatim>\<open>PQ::execPrepared\<close> pass the address of each value, or a null pointer
  for an empty one.  As libpq documents, a parameter in text format (0) ends at its first
  \<^verbatim>\<open>NUL\<close>, and one in binary format has the given length; a length beyond the value, or a
  negative one, is undefined (\<open>None\<close>).
\<close>

definition raw_values :: "string option list \<Rightarrow> string option list" where
  "raw_values paramValues = map (\<lambda>v. case v of None \<Rightarrow> None | Some s \<Rightarrow> Some (s @ [nul])) paramValues"

definition received :: "string option \<times> int \<times> int \<Rightarrow> string option option" where
  "received p =
     (case p of (raw, len, format) \<Rightarrow>
        (case raw of
           None \<Rightarrow> Some None
         | Some s \<Rightarrow>
             (if format = 0 then Some (Some (c_string s))
              else if 0 \<le> len \<and> nat len < length s then Some (Some (take (nat len) s))
              else None)))"

text \<open>
  The data of an empty vector is a null pointer, which libpq takes for text format throughout; a
  nonempty vector that is too short is read beyond its end (\<open>None\<close>).
\<close>

definition array_at :: "int list \<Rightarrow> nat \<Rightarrow> int option" where
  "array_at xs i = (if xs = [] then Some 0 else if i < length xs then Some (xs ! i) else None)"

definition execPrepared_params :: "string option list \<Rightarrow> int list \<Rightarrow> int list \<Rightarrow> string option option list" where
  "execPrepared_params paramValues paramLengths paramFormats =
     map (\<lambda>(i, raw).
         (case (array_at paramLengths i, array_at paramFormats i) of
            (Some len, Some format) \<Rightarrow> received (raw, len, format)
          | _ \<Rightarrow> None))
       (enumerate 0 (raw_values paramValues))"

text \<open>With no lengths and formats, as for an SQL command, every value is received as text.\<close>

lemma c_string_raw: "c_string (s @ [nul]) = c_string s"
  by (simp add: c_string_def takeWhile_append takeWhile_eq_all_conv [THEN iffD2])

lemma execPrepared_text_params: "execPrepared_params values [] [] = map (Some \<circ> map_option c_string) values"
  by (rule nth_equalityI)
    (simp_all add: execPrepared_params_def raw_values_def array_at_def received_def c_string_raw nth_enumerate_eq
      split: option.split)

lemma int_of_size_small: "n < 2 ^ 31 \<Longrightarrow> int_of_size n = int n"
  by (simp add: int_of_size_def Let_def)

lemma int_of_size_negative: "2 ^ 31 \<le> n \<Longrightarrow> n < 2 ^ 32 \<Longrightarrow> int_of_size n < 0"
  by (simp add: int_of_size_def Let_def)


definition noisy_cmd :: nix_cmd where
  "noisy_cmd = (nix_cmd_blank (cmd_meta_of_args ''q'' ''q'' ''1'' None))\<lparr>nx_cmd_stdout := [nul, CHR ''x'', nul]\<rparr>"


end
