(* ===== verification/QueueTypes.thy ===== *)
theory QueueTypes
  imports CmdQueueMeta
begin

text \<open>
  Types that the records do not show: the numbers of a \<^verbatim>\<open>CmdQueue\<close> are 32-bit integers, and its
  strings, which come from C strings, contain no \<^verbatim>\<open>NUL\<close>.  Every action of the constructor
  keeps this, so that it holds of the queue of any row, valid or not.
\<close>

definition c_text :: "string \<Rightarrow> bool" where
  "c_text s \<longleftrightarrow> nul \<notin> set s"

definition int32 :: "int \<Rightarrow> bool" where
  "int32 i \<longleftrightarrow> - (2 ^ 31) \<le> i \<and> i < 2 ^ 31"

definition queue_typed :: "cmd_queue \<Rightarrow> bool" where
  "queue_typed q \<longleftrightarrow> c_text (cq_cmd_class_identity q) \<and> c_text (cq_cmd_class_relname q) \<and>
     c_text (cq_cmd_signature_class_relname q) \<and> pred_option c_text (cq_queue_runner_role q) \<and>
     pred_option c_text (cq_queue_notify_channel q) \<and> c_text (cq_ansi_fg q) \<and>
     int32 (cq_queue_reselect_interval_msec q) \<and> pred_option int32 (cq_queue_reselect_randomized_every_nth q)"

lemma c_text_c_string [simp]: "c_text (c_string s)"
  by (auto simp: c_text_def c_string_def dest: set_takeWhileD)

lemma stoi_int32: "stoi s = Inr i \<Longrightarrow> int32 i"
  by (auto simp: stoi_def int32_def Let_def split: prod.splits if_splits)

lemma getvalue_c_text: "getvalue res row col = Inr s \<Longrightarrow> c_text s"
  by (auto simp: getvalue_def PQgetvalue_def string_of_ptr_def c_text_def split: option.splits if_splits)
    (metis c_text_c_string c_text_def)

lemma column_c_text: "column res row fns name = Inr s \<Longrightarrow> c_text s"
  by (auto simp: column_def bind_exn_Inr_iff dest: getvalue_c_text)

lemma nullable_column_c_text: "nullable_column res row fns name = Inr v \<Longrightarrow> pred_option c_text v"
  by (auto simp: nullable_column_def getnullable_def bind_exn_Inr_iff map_exn_Inr_iff getvalue_def [symmetric]
      split: if_splits dest: getvalue_c_text)

lemma parsed_column_int32: "parsed_column res row fns name stoi = Inr v \<Longrightarrow> pred_option int32 v"
  by (auto simp: parsed_column_def bind_exn_Inr_iff map_exn_Inr_iff split: if_splits dest: stoi_int32)

text \<open>An invariant of every assignment is one of the block, whether it completes or not.\<close>

lemma run_actions_invariant:
  "(\<And>a s. a \<in> set as \<Longrightarrow> P s \<Longrightarrow> P (snd (a s))) \<Longrightarrow> P s \<Longrightarrow> P (snd (run_actions as s))"
proof (induction "as" arbitrary: s)
  case (Cons a "as")
  obtain f s' where a: "a s = (f, s')" by fastforce
  with Cons.prems(1) [of a s] Cons.prems(2) have "P s'" by simp
  with a Cons.IH [of s'] Cons.prems(1) show ?case by (cases f) simp_all
qed simp

lemma assign_invariant: "(\<And>v. r = Inr v \<Longrightarrow> P (upd v s)) \<Longrightarrow> P s \<Longrightarrow> P (snd (assign r upd s))"
  by (auto simp: assign_def split: sum.split)

definition queue_under_construction :: "cmd_queue \<Rightarrow> bool" where
  "queue_under_construction q \<longleftrightarrow> queue_typed q \<and> cq_validation_error_message q = []"

lemma cmd_queue_assignments_typed:
  "a \<in> set (cmd_queue_assignments res row fns) \<Longrightarrow> queue_under_construction q \<Longrightarrow> queue_under_construction (snd (a q))"
  unfolding cmd_queue_assignments_def set_simps insert_iff empty_iff
  by (elim disjE FalseE; simp only:; rule assign_invariant; assumption?)
    (auto simp: queue_under_construction_def queue_typed_def bind_exn_Inr_iff split: option.split
      dest: column_c_text nullable_column_c_text parsed_column_int32 stoi_int32)


end
