(* ===== verification/SqlCmd.thy ===== *)
theory SqlCmd
  imports CmdQueueMeta TextQuoting NixCmd
begin

text \<open>
  \<^verbatim>\<open>SqlQueueCmd\<close> (\<^verbatim>\<open>sqlqueuecmd.cpp\<close>, \<^verbatim>\<open>sqlqueuecmd.h\<close>).  What the server answers to the
  successive statements is an input: for each the notices that arrive while it executes and its
  result.  Every statement sent is recorded.
\<close>

text \<open>
  How a function that runs in a thread ends: it returns, still waits for an answer, ends the
  program by an exception that nothing catches, or does what C++ leaves undefined.
\<close>

datatype 'a outcome = Returns 'a | Waits | Dies fault | Undefined

fun bind_outcome :: "'a outcome \<Rightarrow> ('a \<Rightarrow> 'b outcome) \<Rightarrow> 'b outcome" where
  "bind_outcome (Returns x) f = f x"
| "bind_outcome Waits f = Waits"
| "bind_outcome (Dies x) f = Dies x"
| "bind_outcome Undefined f = Undefined"

lemma bind_outcome_assoc: "bind_outcome (bind_outcome r f) g = bind_outcome r (\<lambda>x. bind_outcome (f x) g)"
  by (cases r) simp_all

lemma bind_outcome_Returns_iff: "bind_outcome r f = Returns y \<longleftrightarrow> (\<exists>x. r = Returns x \<and> f x = Returns y)"
  by (cases r) simp_all

section \<open>The object\<close>

record sql_cmd =
  sq_is_valid :: bool
  sq_meta :: cmd_meta
  sq_cmd_sql :: string
  sq_cmd_sql_result_status :: string
  sq_cmd_sql_fatal_error :: "(char \<rightharpoonup> string option) option"
  sq_cmd_sql_nonfatal_errors :: "(char \<rightharpoonup> string option) list"

definition sql_cmd_blank :: "cmd_meta \<Rightarrow> sql_cmd" where
  "sql_cmd_blank meta = \<lparr>sq_is_valid = False, sq_meta = meta, sq_cmd_sql = [],
     sq_cmd_sql_result_status = [], sq_cmd_sql_fatal_error = None, sq_cmd_sql_nonfatal_errors = []\<rparr>"

text \<open>\<^verbatim>\<open>regex_replace(cmd_sql, "^[\n\t ]+|[\n\t ]+$", "")\<close>\<close>

definition is_sql_space :: "char \<Rightarrow> bool" where
  "is_sql_space c \<longleftrightarrow> c \<in> {newline, CHR 0x09, CHR '' ''}"

definition trim_sql :: "string \<Rightarrow> string" where
  "trim_sql s = rev (dropWhile is_sql_space (rev (dropWhile is_sql_space s)))"

definition sql_cmd_assignments :: "pg_result \<Rightarrow> nat \<Rightarrow> (string \<rightharpoonup> nat) \<Rightarrow> sql_cmd action list" where
  "sql_cmd_assignments result row field_mapping =
    [assign (required_column result row field_mapping ''cmd_sql''
         ''`cmd_sql` should never be `NULL`.'' Inr) (\<lambda>v c. c\<lparr>sq_cmd_sql := v\<rparr>),
     (\<lambda>c. (None, c\<lparr>sq_cmd_sql := trim_sql (sq_cmd_sql c)\<rparr>))]"

text \<open>No path through the constructor sets \<open>_is_valid\<close> to \<^verbatim>\<open>true\<close>.\<close>

definition sql_cmd_of_row :: "pg_result \<Rightarrow> nat \<Rightarrow> (string \<rightharpoonup> nat) \<Rightarrow> sql_cmd" where
  "sql_cmd_of_row result row field_mapping =
     (let meta = cmd_meta_of_row result row field_mapping;
          c = (if \<not> md_is_valid meta then (sql_cmd_blank meta)\<lparr>sq_is_valid := False\<rparr> else sql_cmd_blank meta) in
      case run_actions (sql_cmd_assignments result row field_mapping) c of
        (None, c') \<Rightarrow> c'
      | (Some f, c') \<Rightarrow> c'\<lparr>sq_is_valid := False\<rparr>)"

section \<open>Parameters of the UPDATE\<close>

definition sql_update_params :: "sql_cmd \<Rightarrow> string option list" where
  "sql_update_params c =
    [Some (md_cmd_id (sq_meta c)),
     md_cmd_subid (sq_meta c),
     Some (show_f (md_cmd_runtime_start (sq_meta c))),
     Some (show_f (md_cmd_runtime_end (sq_meta c))),
     Some (sq_cmd_sql_result_status c),
     Some ''null'',
     (case sq_cmd_sql_fatal_error c of
        None \<Rightarrow> None
      | Some e \<Rightarrow> Some (as_text_composite_value (values_to_vector e))),
     Some (as_text_array (map (\<lambda>err. as_text_composite_value (values_to_vector err))
       (sq_cmd_sql_nonfatal_errors c)))]"

definition sql_update_param_lengths :: "sql_cmd \<Rightarrow> int list" where
  "sql_update_param_lengths c = []"

definition sql_update_param_formats :: "sql_cmd \<Rightarrow> int list" where
  "sql_update_param_formats c = []"

section \<open>Notices\<close>

definition receive_notice :: "pg_result \<Rightarrow> sql_cmd \<Rightarrow> sql_cmd" where
  "receive_notice res c =
     c\<lparr>sq_cmd_sql_nonfatal_errors := sq_cmd_sql_nonfatal_errors c @ [resultErrorFields res]\<rparr>"

text \<open>The wrapper casts its argument to the object; through a null pointer (\<open>None\<close>) that is undefined.\<close>

definition receive_notice_c_wrapper :: "sql_cmd option \<Rightarrow> pg_result \<Rightarrow> sql_cmd outcome" where
  "receive_notice_c_wrapper arg res =
     (case arg of None \<Rightarrow> Undefined | Some c \<Rightarrow> Returns (receive_notice res c))"

section \<open>Running the command\<close>

type_synonym sql_answer = "pg_result list \<times> pg_result"

text \<open>\<^verbatim>\<open>PQresStatus\<close>\<close>

fun PQresStatus :: "exec_status \<Rightarrow> string" where
  "PQresStatus PGRES_EMPTY_QUERY = ''PGRES_EMPTY_QUERY''"
| "PQresStatus PGRES_COMMAND_OK = ''PGRES_COMMAND_OK''"
| "PQresStatus PGRES_TUPLES_OK = ''PGRES_TUPLES_OK''"
| "PQresStatus PGRES_COPY_OUT = ''PGRES_COPY_OUT''"
| "PQresStatus PGRES_COPY_IN = ''PGRES_COPY_IN''"
| "PQresStatus PGRES_COPY_BOTH = ''PGRES_COPY_BOTH''"
| "PQresStatus PGRES_SINGLE_TUPLE = ''PGRES_SINGLE_TUPLE''"
| "PQresStatus PGRES_BAD_RESPONSE = ''PGRES_BAD_RESPONSE''"
| "PQresStatus PGRES_NONFATAL_ERROR = ''PGRES_NONFATAL_ERROR''"
| "PQresStatus PGRES_FATAL_ERROR = ''PGRES_FATAL_ERROR''"

record sql_run =
  sr_cmd :: sql_cmd
  sr_answers :: "sql_answer list"
  sr_sent :: "(string \<times> exec_status) list"
  sr_itself_failed :: bool
  sr_bookkeeping_failed :: bool

text \<open>
  \<^verbatim>\<open>PQ::exec\<close> while the notice receiver is installed with a null pointer as its argument: a
  notice is handed to the wrapper before the result is returned.
\<close>

definition sql_exec :: "string \<Rightarrow> sql_run \<Rightarrow> (pg_result \<times> sql_run) outcome" where
  "sql_exec stmt r =
     (case sr_answers r of
        [] \<Rightarrow> Waits
      | (notices, res) # as \<Rightarrow>
          (case notices of
             notice # _ \<Rightarrow> bind_outcome (receive_notice_c_wrapper None notice) (\<lambda>_. Undefined)
           | [] \<Rightarrow> Returns (res, r\<lparr>sr_answers := as, sr_sent := sr_sent r @ [(stmt, res_status res)]\<rparr>)))"

text \<open>\<^verbatim>\<open>handle_sql_fatality\<close> logs the error and returns its fields.\<close>

definition handle_sql_fatality :: "pg_result \<Rightarrow> (char \<rightharpoonup> string option)" where
  "handle_sql_fatality res = resultErrorFields res"

definition record_fatality :: "pg_result \<Rightarrow> sql_cmd \<Rightarrow> sql_cmd" where
  "record_fatality res c = c\<lparr>sq_cmd_sql_result_status := PQresStatus (res_status res),
     sq_cmd_sql_fatal_error := Some (handle_sql_fatality res)\<rparr>"

definition set_savepoint :: "sql_run \<Rightarrow> sql_run outcome" where
  "set_savepoint r =
     bind_outcome (sql_exec ''SAVEPOINT pre_run_cmd'' r) (\<lambda>(res, r).
       Returns (if res_status res \<noteq> PGRES_COMMAND_OK
         then r\<lparr>sr_bookkeeping_failed := True, sr_cmd := record_fatality res (sr_cmd r)\<rparr> else r))"

definition exec_cmd_result :: "pg_result \<Rightarrow> sql_run \<Rightarrow> sql_run" where
  "exec_cmd_result res r =
     (let r' = r\<lparr>sr_cmd := (sr_cmd r)\<lparr>sq_cmd_sql_result_status := PQresStatus (res_status res)\<rparr>\<rparr> in
      if res_status res = PGRES_TUPLES_OK then r'
      else if res_status res = PGRES_COMMAND_OK then r'
      else r'\<lparr>sr_itself_failed := True,
              sr_cmd := (sr_cmd r')\<lparr>sq_cmd_sql_fatal_error := Some (handle_sql_fatality res)\<rparr>\<rparr>)"

definition exec_cmd_sql :: "sql_run \<Rightarrow> sql_run outcome" where
  "exec_cmd_sql r =
     (if sr_bookkeeping_failed r then Returns r
      else
        bind_outcome (sql_exec (c_string (sq_cmd_sql (sr_cmd r))) r) (\<lambda>(res, r).
          Returns (exec_cmd_result res r)))"

definition set_constraints :: "sql_run \<Rightarrow> sql_run outcome" where
  "set_constraints r =
     (if sq_cmd_sql_fatal_error (sr_cmd r) \<noteq> None then Returns r
      else
        bind_outcome (sql_exec ''SET CONSTRAINTS ALL IMMEDIATE'' r) (\<lambda>(res, r).
          Returns (if res_status res \<noteq> PGRES_COMMAND_OK
            then r\<lparr>sr_itself_failed := True, sr_cmd := record_fatality res (sr_cmd r)\<rparr> else r)))"

definition end_savepoint :: "sql_run \<Rightarrow> sql_run outcome" where
  "end_savepoint r =
     (if sr_bookkeeping_failed r then Returns r
      else
        bind_outcome (sql_exec (if sr_itself_failed r then ''ROLLBACK TO SAVEPOINT pre_run_cmd''
            else ''RELEASE SAVEPOINT pre_run_cmd'') r) (\<lambda>(res, r).
          Returns (if res_status res \<noteq> PGRES_COMMAND_OK then r\<lparr>sr_bookkeeping_failed := True\<rparr> else r)))"

definition sql_run_init :: "sql_answer list \<Rightarrow> sql_cmd \<Rightarrow> sql_run" where
  "sql_run_init answers c = \<lparr>sr_cmd = c, sr_answers = answers, sr_sent = [],
     sr_itself_failed = False, sr_bookkeeping_failed = False\<rparr>"

definition sql_run_cmd :: "sql_answer list \<Rightarrow> sql_cmd \<Rightarrow> sql_run outcome" where
  "sql_run_cmd answers c =
     bind_outcome (bind_outcome (bind_outcome (set_savepoint (sql_run_init answers c))
       exec_cmd_sql) set_constraints) end_savepoint"

section \<open>Facts\<close>

lemma sql_exec_Returns:
  "sql_exec stmt r = Returns (res, r') \<longleftrightarrow>
     (\<exists>as. sr_answers r = ([], res) # as \<and>
       r' = r\<lparr>sr_answers := as, sr_sent := sr_sent r @ [(stmt, res_status res)]\<rparr>)"
  by (auto simp: sql_exec_def receive_notice_c_wrapper_def split: list.split prod.split)

lemmas sql_phase_defs = set_savepoint_def exec_cmd_sql_def exec_cmd_result_def set_constraints_def end_savepoint_def

text \<open>What no phase changes.\<close>

definition sql_frame :: "sql_cmd \<Rightarrow> sql_run \<Rightarrow> bool" where
  "sql_frame c r \<longleftrightarrow> sq_meta (sr_cmd r) = sq_meta c \<and> sq_cmd_sql (sr_cmd r) = sq_cmd_sql c \<and>
     sq_cmd_sql_nonfatal_errors (sr_cmd r) = sq_cmd_sql_nonfatal_errors c \<and>
     sq_is_valid (sr_cmd r) = sq_is_valid c"

lemma sql_frame_init: "sql_frame c (sql_run_init answers c)"
  by (simp add: sql_frame_def sql_run_init_def)

lemma sql_frame_phases:
  "set_savepoint r = Returns r' \<Longrightarrow> sql_frame c r \<Longrightarrow> sql_frame c r'"
  "exec_cmd_sql r = Returns r' \<Longrightarrow> sql_frame c r \<Longrightarrow> sql_frame c r'"
  "set_constraints r = Returns r' \<Longrightarrow> sql_frame c r \<Longrightarrow> sql_frame c r'"
  "end_savepoint r = Returns r' \<Longrightarrow> sql_frame c r \<Longrightarrow> sql_frame c r'"
  by (auto simp: sql_phase_defs sql_frame_def record_fatality_def Let_def bind_outcome_Returns_iff
      sql_exec_Returns split: if_splits)

lemma sql_run_frame:
  assumes "sql_run_cmd answers c = Returns r"
  shows "sql_frame c r"
proof -
  obtain r1 r2 r3 where "set_savepoint (sql_run_init answers c) = Returns r1" "exec_cmd_sql r1 = Returns r2"
    "set_constraints r2 = Returns r3" "end_savepoint r3 = Returns r"
    using assms by (auto simp: sql_run_cmd_def bind_outcome_Returns_iff)
  then show ?thesis using sql_frame_init sql_frame_phases by blast
qed

section \<open>The savepoint\<close>

definition sql_ok :: "exec_status \<Rightarrow> bool" where
  "sql_ok s \<longleftrightarrow> s = PGRES_TUPLES_OK \<or> s = PGRES_COMMAND_OK"

text \<open>The run in terms of the statuses of the answers.\<close>

lemma sql_run_no_savepoint:
  assumes "sql_run_cmd (([], r0) # as) c = Returns r" and "res_status r0 \<noteq> PGRES_COMMAND_OK"
  shows "sr_sent r = [(''SAVEPOINT pre_run_cmd'', res_status r0)]" and "sr_cmd r = record_fatality r0 c"
  using assms
  by (auto simp: sql_run_cmd_def sql_phase_defs sql_run_init_def sql_exec_def record_fatality_def)

lemma sql_run_cmd_fails:
  assumes "sql_run_cmd (([], r0) # ([], r1) # ([], r2) # as) c = Returns r"
    and "res_status r0 = PGRES_COMMAND_OK" and "\<not> sql_ok (res_status r1)"
  shows "sr_sent r = [(''SAVEPOINT pre_run_cmd'', res_status r0), (c_string (sq_cmd_sql c), res_status r1),
      (''ROLLBACK TO SAVEPOINT pre_run_cmd'', res_status r2)]"
    and "sr_cmd r = record_fatality r1 c"
  using assms
  by (auto simp: sql_run_cmd_def sql_phase_defs sql_run_init_def sql_exec_def record_fatality_def Let_def sql_ok_def)

lemma sql_run_cmd_succeeds:
  assumes "sql_run_cmd (([], r0) # ([], r1) # ([], r2) # ([], r3) # as) c = Returns r"
    and "sq_cmd_sql_fatal_error c = None"
    and "res_status r0 = PGRES_COMMAND_OK" and "sql_ok (res_status r1)"
  shows "sr_sent r = [(''SAVEPOINT pre_run_cmd'', res_status r0), (c_string (sq_cmd_sql c), res_status r1),
      (''SET CONSTRAINTS ALL IMMEDIATE'', res_status r2),
      (if res_status r2 = PGRES_COMMAND_OK then ''RELEASE SAVEPOINT pre_run_cmd''
       else ''ROLLBACK TO SAVEPOINT pre_run_cmd'', res_status r3)]"
    and "sr_cmd r = (if res_status r2 = PGRES_COMMAND_OK
      then c\<lparr>sq_cmd_sql_result_status := PQresStatus (res_status r1)\<rparr> else record_fatality r2 c)"
  using assms
  by (auto simp: sql_run_cmd_def sql_phase_defs sql_run_init_def sql_exec_def record_fatality_def Let_def sql_ok_def)

text \<open>The three ways for the run to return.\<close>

lemma sql_run_cmd_cases:
  assumes "sql_run_cmd answers c = Returns r" and "sq_cmd_sql_fatal_error c = None"
  obtains (no_savepoint) r0 as where "answers = ([], r0) # as" and "res_status r0 \<noteq> PGRES_COMMAND_OK"
  | (fails) r0 r1 r2 as where "answers = ([], r0) # ([], r1) # ([], r2) # as"
      and "res_status r0 = PGRES_COMMAND_OK" and "\<not> sql_ok (res_status r1)"
  | (succeeds) r0 r1 r2 r3 as where "answers = ([], r0) # ([], r1) # ([], r2) # ([], r3) # as"
      and "res_status r0 = PGRES_COMMAND_OK" and "sql_ok (res_status r1)"
proof -
  obtain s1 s2 s3 where s1: "set_savepoint (sql_run_init answers c) = Returns s1"
    and s2: "exec_cmd_sql s1 = Returns s2" and s3: "set_constraints s2 = Returns s3"
    and r: "end_savepoint s3 = Returns r"
    using assms(1) by (auto simp: sql_run_cmd_def bind_outcome_Returns_iff)
  from s1 obtain r0 as0 where a0: "answers = ([], r0) # as0" and as0: "sr_answers s1 = as0"
    and s1': "sr_bookkeeping_failed s1 = (res_status r0 \<noteq> PGRES_COMMAND_OK)"
      "res_status r0 = PGRES_COMMAND_OK \<longrightarrow> sr_cmd s1 = c"
    by (auto simp: set_savepoint_def bind_outcome_Returns_iff sql_exec_Returns sql_run_init_def split: if_splits)
  show ?thesis
  proof (cases "res_status r0 = PGRES_COMMAND_OK")
    case False
    with a0 no_savepoint show ?thesis by blast
  next
    case ok: True
    from s2 s1' ok obtain r1 as1 where a1: "as0 = ([], r1) # as1" and s2_eq: "s2 = exec_cmd_result r1
        (s1\<lparr>sr_answers := as1, sr_sent := sr_sent s1 @ [(c_string (sq_cmd_sql (sr_cmd s1)), res_status r1)]\<rparr>)"
      using as0 by (auto simp: exec_cmd_sql_def bind_outcome_Returns_iff sql_exec_Returns)
    have s2': "sr_answers s2 = as1" "\<not> sr_bookkeeping_failed s2"
      "sq_cmd_sql_fatal_error (sr_cmd s2) = None \<longleftrightarrow> sql_ok (res_status r1)"
      using s1' ok assms(2) by (simp_all add: s2_eq exec_cmd_result_def Let_def sql_ok_def)
    show ?thesis
    proof (cases "sql_ok (res_status r1)")
      case False
      with s3 s2' have "s3 = s2" by (auto simp: set_constraints_def)
      with r s2' obtain r2 as2 where "as1 = ([], r2) # as2"
        by (auto simp: end_savepoint_def bind_outcome_Returns_iff sql_exec_Returns)
      with a0 a1 ok False fails show ?thesis by blast
    next
      case True
      with s3 s2' obtain r2 as2 where a2: "as1 = ([], r2) # as2" and "sr_answers s3 = as2"
        "\<not> sr_bookkeeping_failed s3"
        by (auto simp: set_constraints_def bind_outcome_Returns_iff sql_exec_Returns split: if_splits)
      with r obtain r3 as3 where "as2 = ([], r3) # as3"
        by (auto simp: end_savepoint_def bind_outcome_Returns_iff sql_exec_Returns)
      with a0 a1 a2 ok True succeeds show ?thesis by blast
    qed
  qed
qed

end
