(* ===== verification/QueueCmd.thy ===== *)
theory QueueCmd
  imports SqlCmd NixRunFacts
begin

text \<open>
  The template parameter \<open>T\<close> of \<^verbatim>\<open>CmdQueueRunner<T>\<close> (\<^verbatim>\<open>cmdqueuerunner.h\<close>): the
  operations that a runner calls on a command, the contract it relies on (the locale
  \<open>queue_cmd\<close>), and the two instances the code has, \<^verbatim>\<open>NixQueueCmd\<close> and
  \<^verbatim>\<open>SqlQueueCmd\<close>.
\<close>

record ('c, 'e) cmd_ops =
  op_of_row :: "pg_result \<Rightarrow> nat \<Rightarrow> (string \<rightharpoonup> nat) \<Rightarrow> 'c outcome"
  op_meta :: "'c \<Rightarrow> cmd_meta"
  op_set_meta :: "cmd_meta \<Rightarrow> 'c \<Rightarrow> 'c"
  op_run :: "'e \<Rightarrow> rat \<Rightarrow> 'c \<Rightarrow> 'c outcome"
  op_update_params :: "'c \<Rightarrow> string option list"
  op_update_param_lengths :: "'c \<Rightarrow> int list"
  op_update_param_formats :: "'c \<Rightarrow> int list"

section \<open>The two instances\<close>

text \<open>What the operating system answers to one \<^verbatim>\<open>NixQueueCmd::run_cmd\<close>.\<close>

record nix_env =
  ne_strerror :: "errno \<Rightarrow> string"
  ne_strsignal :: "int \<Rightarrow> string"
  ne_start :: start_answers
  ne_turns :: "iteration list"
  ne_last_wait :: wait_result
  ne_closes :: "nat \<Rightarrow> errno option list"
  ne_sigmask :: "signal set"

definition nix_run :: "nix_env \<Rightarrow> rat \<Rightarrow> nix_cmd \<Rightarrow> nix_cmd outcome" where
  "nix_run e timeout c =
     (case run_cmd (ne_strerror e) (ne_strsignal e) timeout (ne_start e) (ne_turns e) (ne_last_wait e)
        (ne_closes e) (ne_sigmask e) c of
        Inl f \<Rightarrow> Dies f
      | Inr (Throws f st) \<Rightarrow> Dies f
      | Inr (Next st) \<Rightarrow> Returns (rs_cmd st)
      | Inr _ \<Rightarrow> Waits)"

definition nix_ops :: "bool \<Rightarrow> (nix_cmd, nix_env) cmd_ops" where
  "nix_ops asserts = \<lparr>op_of_row = (\<lambda>result row fns. case nix_cmd_of_row asserts result row fns of
       Inl f \<Rightarrow> Dies f | Inr c \<Rightarrow> Returns c),
     op_meta = nx_meta, op_set_meta = (\<lambda>m c. c\<lparr>nx_meta := m\<rparr>), op_run = nix_run,
     op_update_params = nix_update_params, op_update_param_lengths = nix_update_param_lengths,
     op_update_param_formats = nix_update_param_formats\<rparr>"

definition sql_ops :: "(sql_cmd, sql_answer list) cmd_ops" where
  "sql_ops = \<lparr>op_of_row = (\<lambda>result row fns. Returns (sql_cmd_of_row result row fns)),
     op_meta = sq_meta, op_set_meta = (\<lambda>m c. c\<lparr>sq_meta := m\<rparr>),
     op_run = (\<lambda>answers timeout c. bind_outcome (sql_run_cmd answers c) (\<lambda>r. Returns (sr_cmd r))),
     op_update_params = sql_update_params, op_update_param_lengths = sql_update_param_lengths,
     op_update_param_formats = sql_update_param_formats\<rparr>"

section \<open>The contract\<close>

text \<open>
  The identity of a command comes from its row, running it keeps its metadata, and the
  parameters of the \<^verbatim>\<open>UPDATE\<close> start with the identity and the two times, and come with
  lengths and formats for all of them or for none.
\<close>

locale queue_cmd =
  fixes ops :: "('c, 'e) cmd_ops"
  assumes of_row_meta: "op_of_row ops result row fns = Returns c \<Longrightarrow> op_meta ops c = cmd_meta_of_row result row fns"
    and set_meta: "op_meta ops (op_set_meta ops m c) = m"
    and run_meta: "op_run ops e timeout c = Returns c' \<Longrightarrow> op_meta ops c' = op_meta ops c"
    and params_length: "length (op_update_params ops c) = 8"
    and params_head: "take 4 (op_update_params ops c) =
      [Some (md_cmd_id (op_meta ops c)), md_cmd_subid (op_meta ops c),
       Some (show_f (md_cmd_runtime_start (op_meta ops c))), Some (show_f (md_cmd_runtime_end (op_meta ops c)))]"
    and lengths: "op_update_param_lengths ops c = [] \<or> length (op_update_param_lengths ops c) = length (op_update_params ops c)"
    and formats: "length (op_update_param_formats ops c) = length (op_update_param_lengths ops c)"
begin

lemma params_identity:
  "op_update_params ops c ! 0 = Some (md_cmd_id (op_meta ops c))"
  "op_update_params ops c ! 1 = md_cmd_subid (op_meta ops c)"
proof -
  have "op_update_params ops c ! i = take 4 (op_update_params ops c) ! i" if "i < 4" for i
    using that by simp
  from this [of 0] this [of 1] show "op_update_params ops c ! 0 = Some (md_cmd_id (op_meta ops c))"
    "op_update_params ops c ! 1 = md_cmd_subid (op_meta ops c)"
    by (simp_all add: params_head)
qed

end

section \<open>Both instances keep to it\<close>

lemma nix_cmd_of_row_meta:
  "nix_cmd_of_row asserts result row fns = Inr c \<Longrightarrow> nx_meta c = cmd_meta_of_row result row fns"
  by (auto simp: nix_cmd_of_row_def nix_cmd_assignments_def nix_cmd_blank_def assign_def
      split: sum.splits prod.splits option.splits fault.splits)

lemma sql_cmd_of_row_meta: "sq_meta (sql_cmd_of_row result row fns) = cmd_meta_of_row result row fns"
  by (auto simp: sql_cmd_of_row_def sql_cmd_assignments_def sql_cmd_blank_def assign_def Let_def
      split: sum.splits prod.splits option.splits)

lemma nix_run_Returns:
  "nix_run e timeout c = Returns c' \<Longrightarrow>
    \<exists>st. run_cmd (ne_strerror e) (ne_strsignal e) timeout (ne_start e) (ne_turns e) (ne_last_wait e)
      (ne_closes e) (ne_sigmask e) c = Inr (Next st) \<and> c' = rs_cmd st"
  by (auto simp: nix_run_def split: sum.splits turn.splits)

interpretation nix_queue: queue_cmd "nix_ops asserts" for asserts
proof
  fix e timeout c c'
  assume "op_run (nix_ops asserts) e timeout c = Returns c'"
  then show "op_meta (nix_ops asserts) c' = op_meta (nix_ops asserts) c"
    by (auto simp: nix_ops_def inputs_kept_def dest!: nix_run_Returns run_cmd_inputs_kept)
qed (auto simp: nix_ops_def nix_update_params_def nix_update_param_lengths_def nix_update_param_formats_def
    nix_cmd_of_row_meta split: sum.splits)

interpretation sql_queue: queue_cmd sql_ops
proof
  fix e timeout c c'
  assume "op_run sql_ops e timeout c = Returns c'"
  then show "op_meta sql_ops c' = op_meta sql_ops c"
    by (auto simp: sql_ops_def bind_outcome_Returns_iff sql_frame_def dest!: sql_run_frame)
qed (auto simp: sql_ops_def sql_update_params_def sql_update_param_lengths_def sql_update_param_formats_def
    sql_cmd_of_row_meta)

end
