(* ===== verification/Connection.thy ===== *)
theory Connection
  imports SqlCmd
begin

text \<open>
  \<^verbatim>\<open>maintain_connection\<close> (\<^verbatim>\<open>pq_cmdqd_utils.cpp\<close>): connecting and reconnecting with a
  back-off.  The input is what each attempt finds: the signals received so far, and the status of
  the connection after it.  The seconds slept are recorded.
\<close>

datatype conn_status = CONNECTION_OK | CONNECTION_BAD

record attempt =
  at_sig_recv :: "signal \<Rightarrow> bool"
  at_status :: conn_status

definition stop_signals :: "signal list" where
  "stop_signals = [SIGQUIT, SIGTERM, SIGINT]"

section \<open>The back-off\<close>

text \<open>\<^verbatim>\<open>if (retry_seconds * 2 <= max_retry_seconds) retry_seconds *= 2;\<close>\<close>

definition max_retry_seconds :: nat where
  "max_retry_seconds = 60"

definition next_retry :: "nat \<Rightarrow> nat" where
  "next_retry secs = (if secs * 2 \<le> max_retry_seconds then secs * 2 else secs)"

text \<open>\<open>n\<close> waits in a row, the first of \<open>secs\<close>.\<close>

fun backoff :: "nat \<Rightarrow> nat \<Rightarrow> nat list" where
  "backoff 0 secs = []"
| "backoff (Suc n) secs = secs # backoff n (next_retry secs)"

section \<open>The loops\<close>

text \<open>The loop over \<^verbatim>\<open>PQ::connectdb\<close>; a connection is \<open>None\<close> before the first attempt.\<close>

fun connect_loop ::
    "bool \<Rightarrow> attempt list \<Rightarrow> nat \<Rightarrow> conn_status option \<Rightarrow> (conn_status option \<times> nat list) outcome" where
  "connect_loop one_shot [] secs conn = Waits"
| "connect_loop one_shot (a # as) secs conn =
     (if sig_num_received (at_sig_recv a) stop_signals \<noteq> 0 then Returns (conn, [])
      else if at_status a = CONNECTION_OK then Returns (Some CONNECTION_OK, [])
      else if one_shot then Returns (Some (at_status a), [])
      else bind_outcome (connect_loop one_shot as (next_retry secs) (Some (at_status a)))
             (\<lambda>(conn', slept). Returns (conn', secs # slept)))"

text \<open>The loop over \<^verbatim>\<open>PQ::reset\<close>\<close>

fun reset_loop :: "attempt list \<Rightarrow> nat \<Rightarrow> conn_status option \<Rightarrow> (conn_status option \<times> nat list) outcome" where
  "reset_loop [] secs conn = Waits"
| "reset_loop (a # as) secs conn =
     (if sig_num_received (at_sig_recv a) stop_signals \<noteq> 0 then Returns (conn, [])
      else if at_status a = CONNECTION_OK then Returns (Some CONNECTION_OK, [])
      else bind_outcome (reset_loop as (next_retry secs) (Some (at_status a)))
             (\<lambda>(conn', slept). Returns (conn', secs # slept)))"

definition maintain_connection ::
    "attempt list \<Rightarrow> conn_status option \<Rightarrow> bool \<Rightarrow> (conn_status option \<times> nat list) outcome" where
  "maintain_connection attempts conn one_shot =
     (if conn = Some CONNECTION_OK then Returns (conn, [])
      else if conn = None then connect_loop one_shot attempts 1 conn
      else if conn = Some CONNECTION_BAD \<and> \<not> one_shot then reset_loop attempts 1 conn
      else Returns (conn, []))"

section \<open>Facts\<close>

lemma next_retry_bounds: "0 < secs \<Longrightarrow> secs \<le> max_retry_seconds \<Longrightarrow>
    secs \<le> next_retry secs \<and> next_retry secs \<le> max_retry_seconds"
  by (auto simp: next_retry_def)

text \<open>The waits are the powers of two up to 32, and then 32.\<close>

lemma backoff_powers: "k \<le> 5 \<Longrightarrow> backoff n (2 ^ k) = map (\<lambda>i. 2 ^ min 5 (k + i)) [0..<n]"
proof (induction n arbitrary: k)
  case (Suc n)
  have step: "next_retry (2 ^ k) = 2 ^ min 5 (Suc k)"
  proof (cases "k = 5")
    case False
    with Suc.prems have "k \<in> {0, 1, 2, 3, 4}" by auto
    then show ?thesis by (auto simp: next_retry_def max_retry_seconds_def)
  qed (simp add: next_retry_def max_retry_seconds_def)
  have "map (\<lambda>i. 2 ^ min 5 (k + i)) [0..<Suc n] =
      (2 ^ min 5 k # map (\<lambda>i. 2 ^ min 5 (Suc k + i)) [0..<n] :: nat list)"
    by (simp add: map_upt_Suc del: upt_Suc)
  moreover have "map (\<lambda>i. 2 ^ min 5 (Suc k + i)) [0..<n] =
      (map (\<lambda>i. 2 ^ min 5 (min 5 (Suc k) + i)) [0..<n] :: nat list)"
    by (intro map_cong refl) (simp add: min_def)
  ultimately show ?case
    using Suc.prems Suc.IH [of "min 5 (Suc k)"] by (simp add: step min_def)
qed simp

lemma connect_loop_slept:
  "connect_loop one_shot as secs conn = Returns (conn', slept) \<Longrightarrow> slept = backoff (length slept) secs"
  by (induction one_shot as secs conn arbitrary: conn' slept rule: connect_loop.induct)
    (auto simp: bind_outcome_Returns_iff split: if_splits)

lemma reset_loop_slept:
  "reset_loop as secs conn = Returns (conn', slept) \<Longrightarrow> slept = backoff (length slept) secs"
  by (induction as secs conn arbitrary: conn' slept rule: reset_loop.induct)
    (auto simp: bind_outcome_Returns_iff split: if_splits)

definition stop_requested :: "attempt \<Rightarrow> bool" where
  "stop_requested a \<longleftrightarrow> (\<exists>s\<in>set stop_signals. at_sig_recv a s)"

lemma sig_num_received_stop: "0 < sig_num_received (at_sig_recv a) stop_signals \<longleftrightarrow> stop_requested a"
  using sig_num_received_0_iff [of stop_signals "at_sig_recv a"]
  by (auto simp: stop_requested_def stop_signals_def signal_defs)

lemma connect_loop_result:
  "connect_loop False as secs conn = Returns (conn', slept) \<Longrightarrow>
    conn' = Some CONNECTION_OK \<or> (\<exists>a\<in>set as. stop_requested a)"
  by (induction False as secs conn arbitrary: conn' slept rule: connect_loop.induct)
    (auto simp: bind_outcome_Returns_iff sig_num_received_stop split: if_splits)

lemma reset_loop_result:
  "reset_loop as secs conn = Returns (conn', slept) \<Longrightarrow>
    conn' = Some CONNECTION_OK \<or> (\<exists>a\<in>set as. stop_requested a)"
  by (induction as secs conn arbitrary: conn' slept rule: reset_loop.induct)
    (auto simp: bind_outcome_Returns_iff sig_num_received_stop split: if_splits)

text \<open>
  C21. \<^verbatim>\<open>maintain_connection\<close> (not in one shot) returns with a good connection unless a stop
  signal was seen, and waits between its attempts 1, 2, 4, 8, 16 and then always 32 seconds.
\<close>

theorem maintain_connection_result:
  assumes "maintain_connection attempts conn False = Returns (conn', slept)"
  shows "(conn' = Some CONNECTION_OK \<or> (\<exists>a\<in>set attempts. stop_requested a)) \<and>
    slept = map (\<lambda>i. 2 ^ min 5 i) [0..<length slept]"
proof -
  have "slept = backoff (length slept) 1"
    using assms connect_loop_slept reset_loop_slept
    by (auto simp: maintain_connection_def split: if_splits)
  then have "slept = map (\<lambda>i. 2 ^ min 5 i) [0..<length slept]"
    using backoff_powers [of 0 "length slept"] by simp
  moreover have "conn' = Some CONNECTION_OK \<or> (\<exists>a\<in>set attempts. stop_requested a)"
    using assms connect_loop_result reset_loop_result
    by (cases conn; cases "the conn") (auto simp: maintain_connection_def split: if_splits)
  ultimately show ?thesis by blast
qed

theorem maintain_connection_result_witness:
  "\<exists>conn'. maintain_connection (replicate 3 \<lparr>at_sig_recv = (\<lambda>_. False), at_status = CONNECTION_BAD\<rparr> @
      [\<lparr>at_sig_recv = (\<lambda>_. False), at_status = CONNECTION_OK\<rparr>]) None False = Returns (conn', [1, 2, 4]) \<and>
    conn' = Some CONNECTION_OK"
proof -
  let ?as = "replicate 3 \<lparr>at_sig_recv = (\<lambda>_. False), at_status = CONNECTION_BAD\<rparr> @
      [\<lparr>at_sig_recv = (\<lambda>_. False), at_status = CONNECTION_OK\<rparr>]"
  obtain conn' where r: "maintain_connection ?as None False = Returns (conn', [1, 2, 4])"
    by (simp add: maintain_connection_def stop_signals_def next_retry_def max_retry_seconds_def
        numeral_3_eq_3)
  have "\<not> (\<exists>a\<in>set ?as. stop_requested a)" by (simp add: stop_requested_def)
  with maintain_connection_result [OF r] r show ?thesis by blast
qed

end
