(* ===== verification/Runner.thy ===== *)
theory Runner
  imports QueueCmd Connection TextComposite Utils
begin

text \<open>
  \<^verbatim>\<open>CmdQueueRunner<T>\<close> (\<^verbatim>\<open>cmdqueuerunner.h\<close>): the thread that serves one queue.  Its three
  nested loops are a state machine with a phase per loop: \<open>Connecting\<close> (the head of the
  outer loop), \<open>Selecting\<close> (the head of the (re)select loop), \<open>Waiting\<close> (the head of the
  loop over notifications and \<^verbatim>\<open>poll()\<close>) and \<open>Gone\<close>.  A step is one pass through the body
  of its loop; what the server, the clock and the operating system answer during it is its input.
  Every call to the server is recorded.
\<close>

datatype sql_call =
    Exec string
  | Exec_params string "string option list"
  | Exec_prepared string "string option list" "int list" "int list"
  | Describe_prepared string

datatype phase = Connecting | Selecting | Waiting | Gone

record runner =
  rn_phase :: phase
  rn_running :: bool
  rn_keep_running :: bool
  rn_cmd_queue :: cmd_queue
  rn_conn :: "conn_status option"
  rn_selected_field_numbers :: "string \<rightharpoonup> nat"
  rn_reselect_round :: int
  rn_reselect_next_when :: rat
  rn_notify_cmd :: "(string \<times> string \<times> string option) option"
  rn_go_back_to_reconnect_loop :: bool
  rn_calls :: "sql_call list"

text \<open>\<^verbatim>\<open>_run\<close> up to its first loop.\<close>

definition runner_init :: "cmd_queue \<Rightarrow> runner" where
  "runner_init cmd_queue = \<lparr>rn_phase = Connecting, rn_running = True, rn_keep_running = True,
     rn_cmd_queue = cmd_queue, rn_conn = None, rn_selected_field_numbers = Map.empty,
     rn_reselect_round = 0, rn_reselect_next_when = 0, rn_notify_cmd = None,
     rn_go_back_to_reconnect_loop = False, rn_calls = []\<rparr>"

definition call :: "sql_call \<Rightarrow> runner \<Rightarrow> runner" where
  "call c rn = rn\<lparr>rn_calls := rn_calls rn @ [c]\<rparr>"

section \<open>The outer loop\<close>

record connect_answers =
  cn_attempts :: "attempt list"
  cn_session_start :: pg_result
  cn_describe :: pg_result
  cn_now :: rat

text \<open>Leaving the outer loop.\<close>

definition exit_runner :: "runner \<Rightarrow> runner" where
  "exit_runner rn = rn\<lparr>rn_phase := Gone, rn_running := False\<rparr>"

definition session_start_call :: "(string \<times> string) list \<Rightarrow> cmd_queue \<Rightarrow> sql_call" where
  "session_start_call cmdqd_env q = Exec_params ''CALL cmdqd.runner_session_start($1::regclass, $2)''
     [Some (cq_cmd_class_identity q), Some (as_text_hstore cmdqd_env)]"

text \<open>\<^verbatim>\<open>PQ::execParams\<close> dereferences the pointer to the connection, which may still be null.\<close>

definition connect_step :: "(string \<times> string) list \<Rightarrow> connect_answers \<Rightarrow> runner \<Rightarrow> runner outcome" where
  "connect_step cmdqd_env a rn =
     (if \<not> rn_keep_running rn then Returns (exit_runner rn)
      else
        bind_outcome (maintain_connection (cn_attempts a) (rn_conn rn) False) (\<lambda>(conn, slept).
          if conn = None then Undefined
          else
            (let rn1 = call (session_start_call cmdqd_env (rn_cmd_queue rn)) (rn\<lparr>rn_conn := conn\<rparr>) in
             if res_status (cn_session_start a) \<noteq> PGRES_COMMAND_OK then Returns (exit_runner rn1)
             else
               (let rn2 = (if rn_selected_field_numbers rn1 = Map.empty
                     then (call (Describe_prepared ''select_oldest_cmd'') rn1)
                            \<lparr>rn_selected_field_numbers := fnumbers (cn_describe a)\<rparr>
                     else rn1) in
                Returns (rn2\<lparr>rn_phase := Selecting, rn_reselect_round := 0,
                  rn_reselect_next_when := cn_now a, rn_notify_cmd := None,
                  rn_go_back_to_reconnect_loop := False\<rparr>)))))"

section \<open>The (re)select loop\<close>

record 'e select_answers =
  sl_select :: pg_result
  sl_start_clock :: int
  sl_run :: 'e
  sl_end_clock :: int
  sl_update :: pg_result
  sl_remember_failed_update :: pg_result
  sl_now :: rat
  sl_enter_round :: pg_result
  sl_conn :: conn_status
  sl_txn_unknown :: bool
  sl_txn_in_error :: bool

text \<open>
  Which prepared statement selects the next command; \<open>%\<close> by zero is undefined (\<open>None\<close>).
\<close>

definition select_call :: "runner \<Rightarrow> sql_call option" where
  "select_call rn =
     (case rn_notify_cmd rn of
        Some (cmd_class, cmd_id, cmd_subid) \<Rightarrow>
          Some (Exec_prepared ''select_notify_cmd'' [Some cmd_id, cmd_subid] [] [])
      | None \<Rightarrow>
          (case cq_queue_reselect_randomized_every_nth (rn_cmd_queue rn) of
             None \<Rightarrow> Some (Exec_prepared ''select_oldest_cmd'' [] [] [])
           | Some n \<Rightarrow>
               (if n = 0 then None
                else if rn_reselect_round rn mod n = 0
                then Some (Exec_prepared ''select_random_cmd'' [] [] [])
                else Some (Exec_prepared ''select_oldest_cmd'' [] [] []))))"

text \<open>The \<^verbatim>\<open>UPDATE\<close>, and what follows one that failed.\<close>

definition update_cmd :: "('c, 'e) cmd_ops \<Rightarrow> 'e select_answers \<Rightarrow> 'c \<Rightarrow> runner \<Rightarrow> runner" where
  "update_cmd ops a c rn =
     (let rn1 = call (Exec_prepared ''update_cmd'' (op_update_params ops c)
            (op_update_param_lengths ops c) (op_update_param_formats ops c)) rn in
      if res_status (sl_update a) \<noteq> PGRES_COMMAND_OK
      then call (Exec_params ''CALL cmdqd.remember_failed_update_for_this_reselect_round($1, $2)''
             [Some (md_cmd_id (op_meta ops c)), md_cmd_subid (op_meta ops c)])
           (call (Exec ''ROLLBACK TRANSACTION'') rn1)
      else rn1)"

text \<open>
  \<^verbatim>\<open>PQntuples() == 1\<close>: the command is made from the row, run (valid or not), and its row
  updated.
\<close>

definition serve_cmd :: "('c, 'e) cmd_ops \<Rightarrow> 'e select_answers \<Rightarrow> runner \<Rightarrow> runner outcome" where
  "serve_cmd ops a rn =
     bind_outcome (op_of_row ops (sl_select a) 0 (rn_selected_field_numbers rn)) (\<lambda>c0.
     bind_outcome (op_run ops (sl_run a) (cq_queue_cmd_timeout_sec (rn_cmd_queue rn))
         (op_set_meta ops (stamp_start_time (sl_start_clock a) (op_meta ops c0)) c0)) (\<lambda>c1.
       Returns (update_cmd ops a
         (op_set_meta ops (stamp_end_time (sl_end_clock a) (op_meta ops c1)) c1) rn)))"

text \<open>
  No row: unless the \<^verbatim>\<open>SELECT\<close> was for a notification, the next one is postponed and a new
  round entered.  A failure there makes the thread return at once (\<open>Gone\<close>, but
  \<open>_running\<close> stays \<^verbatim>\<open>true\<close>).
\<close>

definition no_cmd :: "'e select_answers \<Rightarrow> runner \<Rightarrow> runner outcome" where
  "no_cmd a rn =
     (if rn_notify_cmd rn \<noteq> None then Returns rn
      else
        (let rn1 = call (Exec ''SELECT reselect_round FROM cmdqd.enter_reselect_round()'')
               (rn\<lparr>rn_reselect_next_when := sl_now a +
                  of_int (cq_queue_reselect_interval_msec (rn_cmd_queue rn)) / 1000\<rparr>) in
         if res_status (sl_enter_round a) \<noteq> PGRES_TUPLES_OK then Returns (rn1\<lparr>rn_phase := Gone\<rparr>)
         else
           (case bind_exn (getvalue (sl_enter_round a) 0 0) stoi of
              Inl f \<Rightarrow> Dies f
            | Inr r \<Rightarrow> Returns (rn1\<lparr>rn_reselect_round := r\<rparr>))))"

definition handle_select :: "bool \<Rightarrow> ('c, 'e) cmd_ops \<Rightarrow> 'e select_answers \<Rightarrow> runner \<Rightarrow> runner outcome" where
  "handle_select asserts ops a rn =
     (if res_status (sl_select a) \<noteq> PGRES_TUPLES_OK then Returns rn
      else if ntuples (sl_select a) = 1 then serve_cmd ops a rn
      else if asserts \<and> ntuples (sl_select a) \<noteq> 0 then Dies Assert_failed
      else no_cmd a rn)"

text \<open>The end of the transaction, or back to the outer loop when the connection is lost.\<close>

definition end_transaction :: "'e select_answers \<Rightarrow> runner \<Rightarrow> runner" where
  "end_transaction a rn =
     (if rn_phase rn = Gone then rn
      else if sl_txn_unknown a then rn\<lparr>rn_phase := Connecting, rn_conn := Some (sl_conn a)\<rparr>
      else if sl_txn_in_error a
      then (call (Exec ''ROLLBACK TRANSACTION'') rn)\<lparr>rn_phase := Waiting, rn_conn := Some (sl_conn a)\<rparr>
      else (call (Exec ''COMMIT TRANSACTION'') rn)\<lparr>rn_phase := Waiting, rn_conn := Some (sl_conn a)\<rparr>)"

definition select_step :: "bool \<Rightarrow> ('c, 'e) cmd_ops \<Rightarrow> 'e select_answers \<Rightarrow> runner \<Rightarrow> runner outcome" where
  "select_step asserts ops a rn =
     (if \<not> rn_keep_running rn \<or> rn_go_back_to_reconnect_loop rn then Returns (rn\<lparr>rn_phase := Connecting\<rparr>)
      else
        (let rn1 = call (Exec ''BEGIN TRANSACTION'') rn in
         case select_call rn1 of
           None \<Rightarrow> Undefined
         | Some c \<Rightarrow>
             bind_outcome (handle_select asserts ops a (call c rn1))
               (\<lambda>rn2. Returns (end_transaction a rn2))))"

section \<open>Notifications\<close>

text \<open>
  The three checks on the payload, whose exceptions are caught and logged: \<open>None\<close> is a payload
  that is ignored.
\<close>

definition parse_notify_payload :: "bool \<Rightarrow> string \<Rightarrow> fault + (string \<times> string \<times> string option) option" where
  "parse_notify_payload asserts payload =
     (case from_text_composite_value asserts payload of
        Inl (Exn e) \<Rightarrow> Inr None
      | Inl Assert_failed \<Rightarrow> Inl Assert_failed
      | Inr [Some cmd_class, Some cmd_id, cmd_subid] \<Rightarrow> Inr (Some (cmd_class, cmd_id, cmd_subid))
      | Inr _ \<Rightarrow> Inr None)"

definition on_notify :: "bool \<Rightarrow> string \<Rightarrow> runner \<Rightarrow> runner outcome" where
  "on_notify asserts payload rn =
     (case parse_notify_payload asserts payload of
        Inl f \<Rightarrow> Dies f
      | Inr None \<Rightarrow> Returns rn
      | Inr (Some (cmd_class, cmd_id, cmd_subid)) \<Rightarrow>
          Returns (if cmd_class = cq_cmd_class_identity (rn_cmd_queue rn)
            then rn\<lparr>rn_notify_cmd := Some (cmd_class, cmd_id, cmd_subid), rn_phase := Selecting\<rparr>
            else rn))"

section \<open>The kill pipe\<close>

datatype kill_read = Received | Try_again | Read_fails errno | Overruns

text \<open>
  Reading a signal number: the second and later reads go past the variable (the offset counts
  \<^verbatim>\<open>int\<close>s, not bytes).
\<close>

fun read_kill_pipe :: "read_result list \<Rightarrow> nat \<Rightarrow> kill_read option" where
  "read_kill_pipe [] bytes_total = None"
| "read_kill_pipe (Got s # as) bytes_total =
     (if s = [] then Some Received
      else if bytes_total > 0 then Some Overruns
      else read_kill_pipe as (bytes_total + length (take 4 s)))"
| "read_kill_pipe (Read_error e # as) bytes_total =
     (if bytes_total < 4 then Some (if e = EINTR \<or> e = EAGAIN then Try_again else Read_fails e) else Some Received)"

definition on_kill_pipe :: "read_result list \<Rightarrow> runner \<Rightarrow> runner outcome" where
  "on_kill_pipe reads rn =
     (case read_kill_pipe reads 0 of
        None \<Rightarrow> Waits
      | Some Overruns \<Rightarrow> Undefined
      | Some Try_again \<Rightarrow> Returns rn
      | Some (Read_fails e) \<Rightarrow> Returns (exit_runner rn)
      | Some Received \<Rightarrow> Returns (rn\<lparr>rn_keep_running := False\<rparr>))"

text \<open>
  Writing one, in \<^verbatim>\<open>kill()\<close>: the result of \<^verbatim>\<open>write()\<close> is kept in a \<^verbatim>\<open>size_t\<close>, so that
  an error is a huge count and the loop goes on outside of the variable, as it does after a
  partial write.
\<close>

fun kill_loop :: "write_result list \<Rightarrow> nat \<Rightarrow> nat outcome" where
  "kill_loop [] to_write = Waits"
| "kill_loop (Write_error e # as) to_write = Undefined"
| "kill_loop (Wrote n # as) to_write =
     (let n' = min n to_write in
      if n' = 0 then Returns 0
      else if n' < to_write then Undefined
      else bind_outcome (kill_loop as (to_write - n')) (\<lambda>m. Returns (n' + m)))"

text \<open>The bytes that reach the pipe; none for a runner that is not running (yet, or any more).\<close>

definition kill_runner :: "write_result list \<Rightarrow> runner \<Rightarrow> nat outcome" where
  "kill_runner writes rn = (if \<not> rn_running rn then Returns 0 else kill_loop writes 4)"

section \<open>The loop over notifications and poll()\<close>

record wait_answers =
  wt_notify :: "string option"
  wt_now :: rat
  wt_poll :: "errno + bool \<times> bool"
  wt_consume_input :: bool
  wt_kill_reads :: "read_result list"

definition poll_wait_msec :: "wait_answers \<Rightarrow> runner \<Rightarrow> int" where
  "poll_wait_msec a rn = max 0 (trunc ((rn_reselect_next_when rn - wt_now a) * 1000))"

definition wait_step :: "bool \<Rightarrow> wait_answers \<Rightarrow> runner \<Rightarrow> runner outcome" where
  "wait_step asserts a rn =
     (if \<not> rn_keep_running rn then Returns (rn\<lparr>rn_phase := Selecting\<rparr>)
      else
        (let rn1 = rn\<lparr>rn_notify_cmd := None\<rparr> in
         case wt_notify a of
           Some payload \<Rightarrow> on_notify asserts payload rn1
         | None \<Rightarrow>
             (case wt_poll a of
                Inl e \<Rightarrow> Returns (if e = EINTR then rn1 else exit_runner rn1)
              | Inr (conn_ready, kill_ready) \<Rightarrow>
                  (if \<not> conn_ready \<and> \<not> kill_ready then Returns (rn1\<lparr>rn_phase := Selecting\<rparr>)
                   else if conn_ready \<and> \<not> wt_consume_input a
                   then Returns (rn1\<lparr>rn_go_back_to_reconnect_loop := True, rn_phase := Selecting\<rparr>)
                   else if kill_ready then on_kill_pipe (wt_kill_reads a) rn1
                   else Returns rn1))))"

section \<open>The machine\<close>

inductive runner_step ::
    "bool \<Rightarrow> (string \<times> string) list \<Rightarrow> ('c, 'e) cmd_ops \<Rightarrow> runner \<Rightarrow> runner \<Rightarrow> bool"
  for asserts cmdqd_env and ops :: "('c, 'e) cmd_ops" where
  connect: "rn_phase rn = Connecting \<Longrightarrow> connect_step cmdqd_env a rn = Returns rn'
    \<Longrightarrow> runner_step asserts cmdqd_env ops rn rn'"
| select: "rn_phase rn = Selecting \<Longrightarrow> select_step asserts ops b rn = Returns rn'
    \<Longrightarrow> runner_step asserts cmdqd_env ops rn rn'"
| wait: "rn_phase rn = Waiting \<Longrightarrow> wait_step asserts w rn = Returns rn'
    \<Longrightarrow> runner_step asserts cmdqd_env ops rn rn'"

inductive runner_reaches ::
    "bool \<Rightarrow> (string \<times> string) list \<Rightarrow> ('c, 'e) cmd_ops \<Rightarrow> cmd_queue \<Rightarrow> runner \<Rightarrow> bool"
  for asserts cmdqd_env and ops :: "('c, 'e) cmd_ops" and q where
  start: "runner_reaches asserts cmdqd_env ops q (runner_init q)"
| step: "runner_reaches asserts cmdqd_env ops q rn \<Longrightarrow> runner_step asserts cmdqd_env ops rn rn'
    \<Longrightarrow> runner_reaches asserts cmdqd_env ops q rn'"

inductive_cases runner_stepE: "runner_step asserts cmdqd_env ops rn rn'"
inductive_simps runner_step_iff: "runner_step asserts cmdqd_env ops rn rn'"

end
