(* ===== verification/Manager.thy ===== *)
theory Manager
  imports Runner "HOL-Library.Char_ord" "HOL-Library.List_Lexorder"
begin

text \<open>
  \<^verbatim>\<open>CmdQueueRunnerManager\<close> (\<^verbatim>\<open>cmdqueuerunnermanager.cpp\<close>): the main thread of the daemon,
  which keeps one runner thread per queue in step with the list of queues in the database.  An
  \<^verbatim>\<open>unordered_map\<close> is the list of its pairs, a \<^verbatim>\<open>std::set\<close> the sorted list of its
  members.
\<close>

section \<open>State\<close>

text \<open>
  A runner of the maps: the queue it was made for, the state of its thread (\<open>None\<close> until
  \<^verbatim>\<open>_run\<close> has begun), the signals written to its kill pipe so far, and the signals its
  thread has blocked.
\<close>

record thread =
  th_cmd_queue :: cmd_queue
  th_run :: "runner option"
  th_kill_pipe :: "signal list"
  th_sigmask :: "signal set"

definition thread_running :: "thread \<Rightarrow> bool" where
  "thread_running th = (case th_run th of None \<Rightarrow> False | Some rn \<Rightarrow> rn_running rn)"

record manager =
  mg_nix_cmd_queue_runners :: "(string \<times> thread) list"
  mg_sql_cmd_queue_runners :: "(string \<times> thread) list"
  mg_old_cmd_classes :: "string list"
  mg_new_cmd_classes :: "string list"
  mg_conn :: "conn_status option"
  mg_keep_running :: bool
  mg_emit_sigusr1_when_ready :: bool
  mg_emitted_sigusr1_yet :: bool
  mg_explicit_cmd_classes :: "string list"
  mg_sig_recv :: "signal \<Rightarrow> bool"
  mg_kill_pipe :: "signal list"
  mg_sigmask :: "signal set"
  mg_ready_signals :: nat
  mg_calls :: "sql_call list"

definition make_instance :: "bool \<Rightarrow> string list \<Rightarrow> signal set \<Rightarrow> manager" where
  "make_instance emit explicit sigmask = \<lparr>mg_nix_cmd_queue_runners = [], mg_sql_cmd_queue_runners = [],
     mg_old_cmd_classes = [], mg_new_cmd_classes = [], mg_conn = None, mg_keep_running = True,
     mg_emit_sigusr1_when_ready = emit, mg_emitted_sigusr1_yet = False,
     mg_explicit_cmd_classes = explicit, mg_sig_recv = (\<lambda>_. False), mg_kill_pipe = [], mg_sigmask = sigmask,
     mg_ready_signals = 0, mg_calls = []\<rparr>"

definition sigset_masked_in_runner_threads :: "signal set" where
  "sigset_masked_in_runner_threads = {SIGTERM, SIGINT}"

definition manager_call :: "sql_call \<Rightarrow> manager \<Rightarrow> manager" where
  "manager_call c mg = mg\<lparr>mg_calls := mg_calls mg @ [c]\<rparr>"

section \<open>Starting and stopping runners\<close>

definition queue_has_runner_already :: "cmd_queue \<Rightarrow> manager \<Rightarrow> bool" where
  "queue_has_runner_already q mg \<longleftrightarrow>
     map_of (mg_nix_cmd_queue_runners mg) (cq_cmd_class_identity q) \<noteq> None \<or>
     map_of (mg_sql_cmd_queue_runners mg) (cq_cmd_class_identity q) \<noteq> None"

text \<open>
  The constructor of a runner opens a pipe and starts a thread, which inherits the signal mask;
  either may throw (\<open>Some f\<close>).
\<close>

definition start_thread :: "fault option \<Rightarrow> signal set \<Rightarrow> cmd_queue \<Rightarrow> thread outcome" where
  "start_thread spawn sigmask q =
     (case spawn of
        Some f \<Rightarrow> Dies f
      | None \<Rightarrow> Returns \<lparr>th_cmd_queue = q, th_run = None, th_kill_pipe = [], th_sigmask = sigmask\<rparr>)"

text \<open>
  \<^verbatim>\<open>emplace\<close> of a key that is present may build the runner first, as the GNU library does, and
  then destroy it with its thread still joinable, which aborts the program.
\<close>

definition emplace_runner ::
    "fault option \<Rightarrow> signal set \<Rightarrow> cmd_queue \<Rightarrow> (string \<times> thread) list \<Rightarrow> (string \<times> thread) list outcome" where
  "emplace_runner spawn sigmask q runners =
     bind_outcome (start_thread spawn sigmask q) (\<lambda>th.
       if map_of runners (cq_cmd_class_identity q) \<noteq> None then Dies Assert_failed
       else Returns (runners @ [(cq_cmd_class_identity q, th)]))"

definition add_runner :: "(string \<Rightarrow> fault option) \<Rightarrow> cmd_queue \<Rightarrow> manager \<Rightarrow> manager outcome" where
  "add_runner spawn q mg =
     (let sigmask = mg_sigmask mg \<union> sigset_masked_in_runner_threads in
      bind_outcome
        (if cq_cmd_signature_class_relname q = ''nix_queue_cmd_template''
         then bind_outcome (emplace_runner (spawn (cq_cmd_class_identity q)) sigmask q (mg_nix_cmd_queue_runners mg))
                (\<lambda>rs. Returns (mg\<lparr>mg_nix_cmd_queue_runners := rs\<rparr>))
         else if cq_cmd_signature_class_relname q = ''sql_queue_cmd_template''
         then bind_outcome (emplace_runner (spawn (cq_cmd_class_identity q)) sigmask q (mg_sql_cmd_queue_runners mg))
                (\<lambda>rs. Returns (mg\<lparr>mg_sql_cmd_queue_runners := rs\<rparr>))
         else Returns mg)
        (\<lambda>mg'. Returns (mg'\<lparr>mg_sigmask := sigmask - sigset_masked_in_runner_threads\<rparr>)))"

text \<open>\<^verbatim>\<open>CmdQueueRunner<T>::kill\<close> on a runner of the maps.\<close>

definition kill_thread :: "write_result list \<Rightarrow> signal \<Rightarrow> thread \<Rightarrow> thread outcome" where
  "kill_thread writes sig_num th =
     (case th_run th of
        None \<Rightarrow> Returns th
      | Some rn \<Rightarrow> bind_outcome (kill_runner writes rn)
          (\<lambda>n. Returns (if n = 4 then th\<lparr>th_kill_pipe := th_kill_pipe th @ [sig_num]\<rparr> else th)))"

definition stop_runner :: "(string \<Rightarrow> write_result list) \<Rightarrow> string \<Rightarrow> signal \<Rightarrow> manager \<Rightarrow> manager outcome" where
  "stop_runner writes cmd_class simulate_signal mg =
     (case map_of (mg_nix_cmd_queue_runners mg) cmd_class of
        Some th \<Rightarrow> bind_outcome (kill_thread (writes cmd_class) simulate_signal th)
          (\<lambda>th'. Returns (mg\<lparr>mg_nix_cmd_queue_runners :=
             AList.update cmd_class th' (mg_nix_cmd_queue_runners mg)\<rparr>))
      | None \<Rightarrow>
          (case map_of (mg_sql_cmd_queue_runners mg) cmd_class of
             Some th \<Rightarrow> bind_outcome (kill_thread (writes cmd_class) simulate_signal th)
               (\<lambda>th'. Returns (mg\<lparr>mg_sql_cmd_queue_runners :=
                  AList.update cmd_class th' (mg_sql_cmd_queue_runners mg)\<rparr>))
           | None \<Rightarrow> Dies (Exn (Runtime_error
               (''Could not find runner for queue_cmd_class = '' @ [CHR 0x27] @ cmd_class @ [CHR 0x27])))))"

section \<open>The list of queues\<close>

text \<open>
  One execution of the \<^verbatim>\<open>SELECT\<close>: its result, and the signals received by the end of the sleep
  that follows a failure.
\<close>

record select_attempt =
  sa_result :: pg_result
  sa_sig_recv :: "signal \<Rightarrow> bool"

text \<open>A null result: libpq reports a fatal error, no columns and no rows for it.\<close>

definition null_result :: pg_result where
  "null_result = \<lparr>res_status = PGRES_FATAL_ERROR, res_fnames = [], res_rows = [],
     res_error_message = [], res_diag = (\<lambda>_. None)\<rparr>"

definition select_queues_call :: "string list \<Rightarrow> sql_call" where
  "select_queues_call explicit = Exec_params ''CmdQueue::SELECT_STMT'' [Some (as_text_array explicit)]"

text \<open>
  The loop around it.  \<open>None\<close> is the early return after a failure that is not to be retried;
  the seconds slept come with the result.
\<close>

fun select_queues ::
    "bool \<Rightarrow> select_attempt list \<Rightarrow> nat \<Rightarrow> pg_result \<Rightarrow> manager \<Rightarrow> (pg_result option \<times> manager \<times> nat list) outcome" where
  "select_queues retry_select [] secs result mg =
     (if mg_keep_running mg then Waits else Returns (Some result, mg, []))"
| "select_queues retry_select (a # as) secs result mg =
     (if \<not> mg_keep_running mg then Returns (Some result, mg, [])
      else
        (let mg1 = manager_call (select_queues_call (mg_explicit_cmd_classes mg)) mg in
         if res_status (sa_result a) = PGRES_TUPLES_OK then Returns (Some (sa_result a), mg1, [])
         else if \<not> retry_select then Returns (None, mg1, [])
         else
           bind_outcome
             (select_queues retry_select as (next_retry secs) (sa_result a)
               (if sig_num_received (sa_sig_recv a) [SIGTERM, SIGINT, SIGQUIT] \<noteq> 0
                then mg1\<lparr>mg_keep_running := False\<rparr> else mg1))
             (\<lambda>(result', mg', slept). Returns (result', mg', secs # slept))))"

definition queues_of :: "(exn \<Rightarrow> string) \<Rightarrow> pg_result \<Rightarrow> cmd_queue list" where
  "queues_of what result = map (\<lambda>i. cmd_queue_of_row what result i (fnumbers result)) [0..<ntuples result]"

fun refresh_rows :: "(string \<Rightarrow> fault option) \<Rightarrow> cmd_queue list \<Rightarrow> manager \<Rightarrow> manager outcome" where
  "refresh_rows spawn [] mg = Returns mg"
| "refresh_rows spawn (q # qs) mg =
     (if \<not> cq_is_valid q then refresh_rows spawn qs mg
      else
        bind_outcome (if queue_has_runner_already q mg then Returns mg else add_runner spawn q mg)
          (\<lambda>mg1. refresh_rows spawn qs (mg1\<lparr>mg_new_cmd_classes :=
             insort_insert (cq_cmd_class_identity q) (mg_new_cmd_classes mg1)\<rparr>)))"

fun stop_disappeared :: "(string \<Rightarrow> write_result list) \<Rightarrow> string list \<Rightarrow> manager \<Rightarrow> manager outcome" where
  "stop_disappeared writes [] mg = Returns mg"
| "stop_disappeared writes (c # cs) mg =
     (if c \<notin> set (mg_new_cmd_classes mg)
      then bind_outcome (stop_runner writes c SIGTERM mg) (stop_disappeared writes cs)
      else stop_disappeared writes cs mg)"

text \<open>What the database and the operating system answer to one refresh.\<close>

record refresh_answers =
  ra_attempts :: "select_attempt list"
  ra_spawn :: "string \<Rightarrow> fault option"
  ra_writes :: "string \<Rightarrow> write_result list"

definition refresh_queue_list ::
    "(exn \<Rightarrow> string) \<Rightarrow> bool \<Rightarrow> refresh_answers \<Rightarrow> manager \<Rightarrow> (manager \<times> nat list) outcome" where
  "refresh_queue_list what retry_select a mg =
     bind_outcome (select_queues retry_select (ra_attempts a) 1 null_result mg) (\<lambda>(result, mg1, slept).
       case result of
         None \<Rightarrow> Returns (mg1, slept)
       | Some res \<Rightarrow>
           bind_outcome (refresh_rows (ra_spawn a) (queues_of what res) (mg1\<lparr>mg_new_cmd_classes := []\<rparr>)) (\<lambda>mg2.
           bind_outcome (stop_disappeared (ra_writes a) (mg_old_cmd_classes mg2) mg2) (\<lambda>mg3.
             Returns (mg3\<lparr>mg_old_cmd_classes := mg_new_cmd_classes mg3\<rparr>, slept))))"

text \<open>
  \<^verbatim>\<open>get_cmd_class_names\<close>: an empty result throws, before its status is looked at.
\<close>

definition no_connection :: fault where
  "no_connection = Exn (Runtime_error ''No connection.'')"

fun class_names :: "pg_result \<Rightarrow> nat list \<Rightarrow> fault + string list" where
  "class_names result [] = Inr []"
| "class_names result (i # is) =
     bind_exn (column result i (fnumbers result) ''cmd_class'') (\<lambda>v. map_exn (Cons v) (class_names result is))"

definition get_cmd_class_names ::
    "attempt list \<Rightarrow> pg_result \<Rightarrow> manager \<Rightarrow> (string list \<times> manager) outcome" where
  "get_cmd_class_names attempts qresult mg =
     bind_outcome (maintain_connection attempts (mg_conn mg) True) (\<lambda>(conn, slept).
       if conn \<noteq> Some CONNECTION_OK then Dies no_connection
       else if ntuples qresult = 0 then Dies (Exn (Runtime_error ''No result''))
       else if res_status qresult \<noteq> PGRES_TUPLES_OK then Dies (Exn (Runtime_error (res_error_message qresult)))
       else
         (case class_names qresult [0..<ntuples qresult] of
            Inl f \<Rightarrow> Dies f
          | Inr names \<Rightarrow> Returns (names,
              manager_call (Exec ''SELECT cmd_class FROM cmdq.cmd_queue'') (mg\<lparr>mg_conn := conn\<rparr>))))"

section \<open>Signals\<close>

text \<open>
  \<^verbatim>\<open>receive_signal\<close>, which sets the global flag of the signal (the functions that look at the
  flags get them with their other answers), and its loop over \<^verbatim>\<open>write()\<close>.  Its result is kept in a \<^verbatim>\<open>size_t\<close>, and
  the offset counts \<^verbatim>\<open>int\<close>s: after an error or a partial write the loop leaves the variable.
\<close>

fun signal_write_loop :: "write_result list \<Rightarrow> unit outcome" where
  "signal_write_loop [] = Waits"
| "signal_write_loop (Write_error e # as) = Undefined"
| "signal_write_loop (Wrote n # as) =
     (if n = 0 then signal_write_loop as else if n < 4 then Undefined else Returns ())"

definition receive_signal :: "write_result list \<Rightarrow> signal \<Rightarrow> manager \<Rightarrow> manager outcome" where
  "receive_signal writes sig_num mg =
     (let mg1 = mg\<lparr>mg_sig_recv := (mg_sig_recv mg)(sig_num := True)\<rparr> in
      if sig_num = SIGTERM \<or> sig_num = SIGINT \<or> sig_num = SIGQUIT
      then bind_outcome (signal_write_loop writes)
             (\<lambda>_. Returns (mg1\<lparr>mg_kill_pipe := mg_kill_pipe mg1 @ [sig_num]\<rparr>))
      else Returns mg1)"

text \<open>
  The other end: the count asked for shrinks with the bytes read, and \<^verbatim>\<open>read()\<close> of none of them
  returns 0, which ends the loop.
\<close>

fun read_signal_loop :: "read_result list \<Rightarrow> nat \<Rightarrow> bool" where
  "read_signal_loop [] bytes_read = (4 \<le> bytes_read)"
| "read_signal_loop (Read_error e # as) bytes_read =
     (4 \<le> bytes_read \<or> (if e = EINTR then read_signal_loop as bytes_read else True))"
| "read_signal_loop (Got s # as) bytes_read =
     (4 \<le> bytes_read \<or>
      (let n = length (take (4 - bytes_read) s) in n = 0 \<or> read_signal_loop as (bytes_read + n)))"

section \<open>Listening for changes\<close>

record notification =
  nt_extra :: string
  nt_refresh :: refresh_answers

text \<open>
  \<^verbatim>\<open>at(2)\<close> is evaluated only when the first field is the name of the table; nothing catches what
  the parser or \<^verbatim>\<open>at()\<close> throws.
\<close>

definition list_at :: "'v list \<Rightarrow> nat \<Rightarrow> fault + 'v" where
  "list_at xs i = (if i < length xs then Inr (xs ! i) else Inl (Exn Out_of_range))"

definition announces_change :: "bool \<Rightarrow> string \<Rightarrow> fault + bool" where
  "announces_change asserts extra =
     bind_exn (from_text_composite_value asserts extra) (\<lambda>payload_fields.
     bind_exn (list_at payload_fields 0) (\<lambda>table.
       if table = Some ''cmd_queue''
       then map_exn (\<lambda>op. op \<in> {Some ''INSERT'', Some ''UPDATE'', Some ''DELETE''}) (list_at payload_fields 2)
       else Inr False))"

fun on_notifies ::
    "bool \<Rightarrow> (exn \<Rightarrow> string) \<Rightarrow> notification list \<Rightarrow> manager \<Rightarrow> manager outcome" where
  "on_notifies asserts what [] mg = Returns mg"
| "on_notifies asserts what (n # ns) mg =
     (if \<not> mg_keep_running mg then Returns mg
      else
        (case announces_change asserts (nt_extra n) of
           Inl f \<Rightarrow> Dies f
         | Inr changed \<Rightarrow>
             bind_outcome
               (if changed
                then bind_outcome (refresh_queue_list what True (nt_refresh n) mg) (\<lambda>(mg', slept). Returns mg')
                else Returns mg)
               (on_notifies asserts what ns)))"

record listen_turn =
  ln_poll :: "errno + bool \<times> bool"
  ln_notifies :: "notification list"
  ln_kill_reads :: "read_result list"

text \<open>One turn of the loop around \<^verbatim>\<open>poll()\<close>; the flag says that the loop is left.\<close>

definition listen_step ::
    "bool \<Rightarrow> (exn \<Rightarrow> string) \<Rightarrow> listen_turn \<Rightarrow> manager \<Rightarrow> (bool \<times> manager) outcome" where
  "listen_step asserts what t mg =
     (if \<not> mg_keep_running mg then Returns (True, mg)
      else
        (case ln_poll t of
           Inl e \<Rightarrow> Returns (e \<noteq> EINTR, mg)
         | Inr (conn_ready, kill_ready) \<Rightarrow>
             bind_outcome (if conn_ready then on_notifies asserts what (ln_notifies t) mg else Returns mg) (\<lambda>mg1.
               if kill_ready
               then (if read_signal_loop (ln_kill_reads t) 0
                     then Returns (False, mg1\<lparr>mg_keep_running := False\<rparr>)
                     else Waits)
               else Returns (False, mg1))))"

fun listen_loop ::
    "bool \<Rightarrow> (exn \<Rightarrow> string) \<Rightarrow> listen_turn list \<Rightarrow> manager \<Rightarrow> manager outcome" where
  "listen_loop asserts what [] mg = (if mg_keep_running mg then Waits else Returns mg)"
| "listen_loop asserts what (t # ts) mg =
     bind_outcome (listen_step asserts what t mg)
       (\<lambda>(left, mg'). if left then Returns mg' else listen_loop asserts what ts mg')"

text \<open>
  \<^verbatim>\<open>LISTEN\<close> and the ready signal to the parent process; the flag says that the function
  returns before its loop.
\<close>

definition listen_start :: "pg_result \<Rightarrow> int \<Rightarrow> manager \<Rightarrow> bool \<times> manager" where
  "listen_start listen_result socket mg =
     (let mg1 = manager_call (Exec ''LISTEN cmdq'') mg in
      if res_status listen_result \<noteq> PGRES_COMMAND_OK then (True, mg1)
      else
        (let mg2 = (if mg_emit_sigusr1_when_ready mg1 \<and> \<not> mg_emitted_sigusr1_yet mg1
               then mg1\<lparr>mg_ready_signals := Suc (mg_ready_signals mg1), mg_emitted_sigusr1_yet := True\<rparr>
               else mg1) in
         (socket < 0, mg2)))"

definition listen_for_queue_list_changes ::
    "bool \<Rightarrow> (exn \<Rightarrow> string) \<Rightarrow> pg_result \<Rightarrow> int \<Rightarrow> listen_turn list \<Rightarrow> manager \<Rightarrow> manager outcome" where
  "listen_for_queue_list_changes asserts what listen_result socket turns mg =
     (case listen_start listen_result socket mg of
        (True, mg') \<Rightarrow> Returns mg'
      | (False, mg') \<Rightarrow> listen_loop asserts what turns mg')"

section \<open>The end\<close>

fun kill_all :: "(string \<Rightarrow> write_result list) \<Rightarrow> signal \<Rightarrow> (string \<times> thread) list \<Rightarrow> (string \<times> thread) list outcome" where
  "kill_all writes sig_num [] = Returns []"
| "kill_all writes sig_num ((c, th) # rs) =
     bind_outcome (kill_thread (writes c) sig_num th) (\<lambda>th'.
     bind_outcome (kill_all writes sig_num rs) (\<lambda>rs'. Returns ((c, th') # rs')))"

definition stop_all_runners ::
    "(signal \<Rightarrow> bool) \<Rightarrow> (string \<Rightarrow> write_result list) \<Rightarrow> manager \<Rightarrow> manager outcome" where
  "stop_all_runners sig_recv writes mg =
     (let sig_num = sig_num_received sig_recv [SIGQUIT, SIGTERM, SIGINT] in
      bind_outcome (kill_all writes sig_num (mg_nix_cmd_queue_runners mg)) (\<lambda>nix.
      bind_outcome (kill_all writes sig_num (mg_sql_cmd_queue_runners mg)) (\<lambda>sql.
        Returns (mg\<lparr>mg_nix_cmd_queue_runners := nix, mg_sql_cmd_queue_runners := sql\<rparr>))))"

text \<open>\<^verbatim>\<open>join()\<close> returns when the thread has ended.\<close>

definition thread_ended :: "thread \<Rightarrow> bool" where
  "thread_ended th = (case th_run th of None \<Rightarrow> False | Some rn \<Rightarrow> rn_phase rn = Gone)"

definition join_all_threads :: "manager \<Rightarrow> manager outcome" where
  "join_all_threads mg =
     (if \<forall>(c, th)\<in>set (mg_nix_cmd_queue_runners mg @ mg_sql_cmd_queue_runners mg). thread_ended th
      then Returns mg else Waits)"

end
