(* ===== verification/ManagerFacts.thy ===== *)
theory ManagerFacts
  imports Manager
begin

text \<open>
  What the manager's operations do to its runners.  \<open>thread_contract\<close> is the interface between
  the manager and its threads: a property of a thread that holds when it starts, and that a kill
  and a step of the thread keep, holds of every thread the manager has at any time.  The abstract
  specification of a refresh (\<open>spec_refresh\<close>) says what the loops over rows and classes
  amount to.
\<close>

section \<open>The kinds of runners\<close>

datatype kind = Nix | Sql

definition kind_of :: "cmd_queue \<Rightarrow> kind option" where
  "kind_of q =
     (if cq_cmd_signature_class_relname q = ''nix_queue_cmd_template'' then Some Nix
      else if cq_cmd_signature_class_relname q = ''sql_queue_cmd_template'' then Some Sql
      else None)"

definition served :: "manager \<Rightarrow> string \<Rightarrow> (kind \<times> thread) option" where
  "served mg c =
     (case map_of (mg_nix_cmd_queue_runners mg) c of
        Some th \<Rightarrow> Some (Nix, th)
      | None \<Rightarrow> map_option (Pair Sql) (map_of (mg_sql_cmd_queue_runners mg) c))"

definition new_thread :: "signal set \<Rightarrow> cmd_queue \<Rightarrow> thread" where
  "new_thread sigmask q = \<lparr>th_cmd_queue = q, th_run = None, th_kill_pipe = [], th_sigmask = sigmask\<rparr>"

lemma has_runner_served: "queue_has_runner_already q mg \<longleftrightarrow> served mg (cq_cmd_class_identity q) \<noteq> None"
  by (auto simp: queue_has_runner_already_def served_def split: option.splits)

lemma manager_call_simps [simp]:
  "mg_keep_running (manager_call c mg) = mg_keep_running mg"
  "mg_old_cmd_classes (manager_call c mg) = mg_old_cmd_classes mg"
  "mg_sigmask (manager_call c mg) = mg_sigmask mg"
  by (simp_all add: manager_call_def)

lemma served_cong:
  "mg_nix_cmd_queue_runners mg' = mg_nix_cmd_queue_runners mg \<Longrightarrow>
   mg_sql_cmd_queue_runners mg' = mg_sql_cmd_queue_runners mg \<Longrightarrow> served mg' = served mg"
  by (simp add: served_def fun_eq_iff split: option.split)

text \<open>The four ways of \<open>add_runner\<close> to end.\<close>

lemma add_runner_eq:
  assumes "\<not> queue_has_runner_already q mg"
  shows "add_runner spawn q mg =
    (case kind_of q of
       None \<Rightarrow> Returns (mg\<lparr>mg_sigmask := mg_sigmask mg - sigset_masked_in_runner_threads\<rparr>)
     | Some k \<Rightarrow>
         (case spawn (cq_cmd_class_identity q) of
            Some f \<Rightarrow> Dies f
          | None \<Rightarrow>
              (let th = (cq_cmd_class_identity q, new_thread (mg_sigmask mg \<union> sigset_masked_in_runner_threads) q) in
               Returns ((case k of
                  Nix \<Rightarrow> mg\<lparr>mg_nix_cmd_queue_runners := mg_nix_cmd_queue_runners mg @ [th]\<rparr>
                | Sql \<Rightarrow> mg\<lparr>mg_sql_cmd_queue_runners := mg_sql_cmd_queue_runners mg @ [th]\<rparr>)
                \<lparr>mg_sigmask := mg_sigmask mg - sigset_masked_in_runner_threads\<rparr>))))"
  using assms
  by (auto simp: add_runner_def kind_of_def emplace_runner_def start_thread_def new_thread_def
      queue_has_runner_already_def Let_def Un_Diff split: option.splits)

text \<open>\<open>told\<close>: a signal reaches the pipe of a thread that runs.\<close>

definition told :: "signal \<Rightarrow> thread \<Rightarrow> thread" where
  "told s th = (if thread_running th then th\<lparr>th_kill_pipe := th_kill_pipe th @ [s]\<rparr> else th)"

lemma kill_thread_told:
  "kill_loop ws 4 = Returns 4 \<Longrightarrow> kill_thread ws s th = Returns (told s th)"
  by (auto simp: kill_thread_def kill_runner_def told_def thread_running_def split: option.splits)

lemma kill_thread_cases:
  "kill_thread ws s th = Returns th' \<Longrightarrow> th' = th \<or> th' = th\<lparr>th_kill_pipe := th_kill_pipe th @ [s]\<rparr>"
  by (auto simp: kill_thread_def bind_outcome_Returns_iff split: option.splits if_splits)

section \<open>The specification of a refresh\<close>

definition queue_names :: "cmd_queue list \<Rightarrow> string set" where
  "queue_names qs = cq_cmd_class_identity ` {q \<in> set qs. cq_is_valid q}"

text \<open>The threads that the rows ask for; the first row of a name wins.\<close>

fun wanted :: "signal set \<Rightarrow> cmd_queue list \<Rightarrow> (string \<rightharpoonup> kind \<times> thread)" where
  "wanted sigmask [] = Map.empty"
| "wanted sigmask (q # qs) =
     (case (if cq_is_valid q then kind_of q else None) of
        Some k \<Rightarrow> (wanted sigmask qs)(cq_cmd_class_identity q \<mapsto> (k, new_thread sigmask q))
      | None \<Rightarrow> wanted sigmask qs)"

record registry =
  reg_listed :: "string set"
  reg_served :: "string \<Rightarrow> (kind \<times> thread) option"

definition registry_of :: "manager \<Rightarrow> registry" where
  "registry_of mg = \<lparr>reg_listed = set (mg_old_cmd_classes mg), reg_served = served mg\<rparr>"

text \<open>
  Every listed queue without a runner gets one, every runner stays, and those of the queues that
  are no longer listed are sent \<open>SIGTERM\<close>.
\<close>

definition spec_refresh :: "signal set \<Rightarrow> cmd_queue list \<Rightarrow> registry \<Rightarrow> registry" where
  "spec_refresh sigmask qs reg =
     \<lparr>reg_listed = queue_names qs,
      reg_served = wanted sigmask qs ++ (\<lambda>c. map_option (\<lambda>(k, th).
        (k, if c \<in> reg_listed reg - queue_names qs then told SIGTERM th else th)) (reg_served reg c))\<rparr>"

section \<open>The loops meet it\<close>

text \<open>What the loop over the rows leaves alone.\<close>

definition rows_frame :: "manager \<Rightarrow> manager \<Rightarrow> bool" where
  "rows_frame mg mg' \<longleftrightarrow> mg_old_cmd_classes mg' = mg_old_cmd_classes mg \<and> mg_conn mg' = mg_conn mg \<and>
     mg_keep_running mg' = mg_keep_running mg \<and> mg_calls mg' = mg_calls mg"

lemma wanted_names: "wanted m qs c = Some x \<Longrightarrow> c \<in> queue_names qs"
  by (induction qs) (auto simp: queue_names_def split: if_splits option.splits)

lemma queue_names_Nil [simp]: "queue_names [] = {}"
  by (simp add: queue_names_def)

lemma queue_names_Cons:
  "queue_names (q # qs) = (if cq_is_valid q then {cq_cmd_class_identity q} else {}) \<union> queue_names qs"
  by (auto simp: queue_names_def)

lemma served_add:
  assumes "served mg c = None"
  shows "served (mg\<lparr>mg_nix_cmd_queue_runners := mg_nix_cmd_queue_runners mg @ [(c, th)], mg_sigmask := m\<rparr>) =
      (served mg)(c \<mapsto> (Nix, th))"
    and "served (mg\<lparr>mg_sql_cmd_queue_runners := mg_sql_cmd_queue_runners mg @ [(c, th)], mg_sigmask := m\<rparr>) =
      (served mg)(c \<mapsto> (Sql, th))"
  using assms by (auto simp: served_def fun_eq_iff map_of_append map_add_def split: option.splits)

text \<open>One row.\<close>

definition ensure_runner :: "(string \<Rightarrow> fault option) \<Rightarrow> cmd_queue \<Rightarrow> manager \<Rightarrow> manager outcome" where
  "ensure_runner spawn q mg = (if queue_has_runner_already q mg then Returns mg else add_runner spawn q mg)"

lemma ensure_runner_spec:
  assumes "spawn (cq_cmd_class_identity q) = None"
  shows "\<exists>mg1. ensure_runner spawn q mg = Returns mg1 \<and> rows_frame mg mg1 \<and>
    mg_new_cmd_classes mg1 = mg_new_cmd_classes mg \<and>
    mg_sigmask mg1 \<union> sigset_masked_in_runner_threads = mg_sigmask mg \<union> sigset_masked_in_runner_threads \<and>
    served mg1 = (case kind_of q of None \<Rightarrow> Map.empty
      | Some k \<Rightarrow> [cq_cmd_class_identity q \<mapsto> (k, new_thread (mg_sigmask mg \<union> sigset_masked_in_runner_threads) q)]) ++ served mg"
proof (cases "queue_has_runner_already q mg")
  case True
  then obtain x where "served mg (cq_cmd_class_identity q) = Some x"
    unfolding has_runner_served by blast
  with True show ?thesis
    by (auto simp: ensure_runner_def rows_frame_def fun_eq_iff map_add_def split: option.split)
next
  case False
  then have none: "served mg (cq_cmd_class_identity q) = None" unfolding has_runner_served by blast
  show ?thesis
  proof (cases "kind_of q")
    case None
    with False show ?thesis by (auto simp: ensure_runner_def add_runner_eq rows_frame_def intro: served_cong)
  next
    case (Some k)
    with False none assms show ?thesis
      by (cases k) (auto simp: ensure_runner_def add_runner_eq rows_frame_def served_add Let_def
          fun_eq_iff map_add_def split: option.split)
  qed
qed

lemma refresh_rows_Cons:
  "refresh_rows spawn (q # qs) mg =
     (if \<not> cq_is_valid q then refresh_rows spawn qs mg
      else bind_outcome (ensure_runner spawn q mg) (\<lambda>mg1. refresh_rows spawn qs (mg1\<lparr>mg_new_cmd_classes :=
             insort_insert (cq_cmd_class_identity q) (mg_new_cmd_classes mg1)\<rparr>)))"
  by (simp add: ensure_runner_def)

lemma refresh_rows_spec:
  assumes "\<And>c. spawn c = None"
  shows "\<exists>mg'. refresh_rows spawn qs mg = Returns mg' \<and> rows_frame mg mg' \<and>
    set (mg_new_cmd_classes mg') = set (mg_new_cmd_classes mg) \<union> queue_names qs \<and>
    served mg' = wanted (mg_sigmask mg \<union> sigset_masked_in_runner_threads) qs ++ served mg"
proof (induction qs arbitrary: mg)
  case Nil
  then show ?case by (simp add: rows_frame_def queue_names_def)
next
  case (Cons q qs)
  let ?c = "cq_cmd_class_identity q"
  show ?case
  proof (cases "cq_is_valid q")
    case False
    with Cons.IH [of mg] show ?thesis by (simp add: queue_names_Cons)
  next
    case valid: True
    obtain mg1 where mg1: "ensure_runner spawn q mg = Returns mg1" "rows_frame mg mg1"
      "mg_new_cmd_classes mg1 = mg_new_cmd_classes mg"
      "mg_sigmask mg1 \<union> sigset_masked_in_runner_threads = mg_sigmask mg \<union> sigset_masked_in_runner_threads"
      "served mg1 = (case kind_of q of None \<Rightarrow> Map.empty
        | Some k \<Rightarrow> [?c \<mapsto> (k, new_thread (mg_sigmask mg \<union> sigset_masked_in_runner_threads) q)]) ++ served mg"
      using ensure_runner_spec [where mg = mg and q = q] assms by blast
    let ?mg2 = "mg1\<lparr>mg_new_cmd_classes := insort_insert ?c (mg_new_cmd_classes mg1)\<rparr>"
    have "served ?mg2 = served mg1" by (rule served_cong) simp_all
    moreover obtain mg' where mg': "refresh_rows spawn qs ?mg2 = Returns mg'" "rows_frame ?mg2 mg'"
      "set (mg_new_cmd_classes mg') = set (mg_new_cmd_classes ?mg2) \<union> queue_names qs"
      "served mg' = wanted (mg_sigmask ?mg2 \<union> sigset_masked_in_runner_threads) qs ++ served ?mg2"
      using Cons.IH [of ?mg2] by blast
    ultimately have "served mg' = wanted (mg_sigmask mg \<union> sigset_masked_in_runner_threads) (q # qs) ++ served mg"
      using valid mg1(4,5) by (auto simp: fun_eq_iff map_add_def split: option.split)
    with mg' mg1 valid show ?thesis
      by (auto simp: refresh_rows_Cons queue_names_Cons set_insort_insert rows_frame_def
          simp del: refresh_rows.simps)
  qed
qed

text \<open>The loop over the classes of the refresh before.\<close>

definition fits :: "(string \<Rightarrow> write_result list) \<Rightarrow> bool" where
  "fits writes \<longleftrightarrow> (\<forall>c. kill_loop (writes c) 4 = Returns 4)"

lemma stop_runner_spec:
  assumes "fits writes" and "served mg c = Some (k, th)"
  shows "\<exists>mg'. stop_runner writes c s mg = Returns mg' \<and> rows_frame mg mg' \<and>
    mg_new_cmd_classes mg' = mg_new_cmd_classes mg \<and> mg_sigmask mg' = mg_sigmask mg \<and>
    served mg' = (served mg)(c \<mapsto> (k, told s th))"
  using assms
  by (auto simp: stop_runner_def served_def rows_frame_def fits_def kill_thread_told update_conv' fun_eq_iff
      split: option.splits)

lemma stop_disappeared_spec:
  assumes "fits writes" and "distinct cs"
    and "\<forall>c\<in>set cs - set (mg_new_cmd_classes mg). served mg c \<noteq> None"
  shows "\<exists>mg'. stop_disappeared writes cs mg = Returns mg' \<and> rows_frame mg mg' \<and>
    mg_new_cmd_classes mg' = mg_new_cmd_classes mg \<and> mg_sigmask mg' = mg_sigmask mg \<and>
    served mg' = (\<lambda>c. map_option (\<lambda>(k, th).
      (k, if c \<in> set cs - set (mg_new_cmd_classes mg) then told SIGTERM th else th)) (served mg c))"
  using assms(2,3)
proof (induction cs arbitrary: mg)
  case Nil
  then show ?case by (simp add: rows_frame_def fun_eq_iff option.map_ident)
next
  case (Cons c cs)
  show ?case
  proof (cases "c \<in> set (mg_new_cmd_classes mg)")
    case True
    with Cons.IH [of mg] Cons.prems show ?thesis by (auto simp: fun_eq_iff split: if_splits)
  next
    case False
    with Cons.prems obtain k th where th: "served mg c = Some (k, th)" by fastforce
    obtain mg1 where mg1: "stop_runner writes c SIGTERM mg = Returns mg1" "rows_frame mg mg1"
      "mg_new_cmd_classes mg1 = mg_new_cmd_classes mg" "mg_sigmask mg1 = mg_sigmask mg"
      "served mg1 = (served mg)(c \<mapsto> (k, told SIGTERM th))"
      using stop_runner_spec [OF assms(1) th] by blast
    have "\<forall>d\<in>set cs - set (mg_new_cmd_classes mg1). served mg1 d \<noteq> None"
      using Cons.prems mg1 by auto
    then obtain mg' where mg': "stop_disappeared writes cs mg1 = Returns mg'" "rows_frame mg1 mg'"
      "mg_new_cmd_classes mg' = mg_new_cmd_classes mg1" "mg_sigmask mg' = mg_sigmask mg1"
      "served mg' = (\<lambda>c. map_option (\<lambda>(k, th).
        (k, if c \<in> set cs - set (mg_new_cmd_classes mg1) then told SIGTERM th else th)) (served mg1 c))"
      using Cons.IH [of mg1] Cons.prems(1) by auto
    have "served mg' = (\<lambda>d. map_option (\<lambda>(k, th).
      (k, if d \<in> set (c # cs) - set (mg_new_cmd_classes mg) then told SIGTERM th else th)) (served mg d))"
      using mg' mg1 th False Cons.prems(1) by (auto simp: fun_eq_iff)
    with mg' mg1 False show ?thesis by (simp add: rows_frame_def)
  qed
qed

text \<open>A refresh whose \<^verbatim>\<open>SELECT\<close> has succeeded, or was given up for a signal.\<close>

lemma refresh_meets_spec:
  assumes "select_queues retry_select (ra_attempts a) 1 null_result mg = Returns (Some res, mg1, slept)"
    and "\<And>c. ra_spawn a c = None" and "fits (ra_writes a)" and "distinct (mg_old_cmd_classes mg1)"
    and "\<forall>c\<in>set (mg_old_cmd_classes mg1) - queue_names (queues_of what res). served mg1 c \<noteq> None"
  shows "\<exists>mg'. refresh_queue_list what retry_select a mg = Returns (mg', slept) \<and>
    mg_keep_running mg' = mg_keep_running mg1 \<and>
    registry_of mg' = spec_refresh (mg_sigmask mg1 \<union> sigset_masked_in_runner_threads)
      (queues_of what res) (registry_of mg1)"
proof -
  let ?qs = "queues_of what res" and ?m = "mg_sigmask mg1 \<union> sigset_masked_in_runner_threads"
  let ?mg1 = "mg1\<lparr>mg_new_cmd_classes := []\<rparr>"
  have served1: "served ?mg1 = served mg1" by (rule served_cong) simp_all
  obtain mg2 where mg2: "refresh_rows (ra_spawn a) ?qs ?mg1 = Returns mg2" "rows_frame ?mg1 mg2"
    "set (mg_new_cmd_classes mg2) = queue_names ?qs" "served mg2 = wanted ?m ?qs ++ served mg1"
    using refresh_rows_spec [of "ra_spawn a" ?qs ?mg1] assms(2) served1 by auto
  have old2: "mg_old_cmd_classes mg2 = mg_old_cmd_classes mg1" using mg2(2) by (simp add: rows_frame_def)
  have still: "\<forall>c\<in>set (mg_old_cmd_classes mg1) - queue_names ?qs. served mg2 c \<noteq> None"
    using assms(5) mg2(4) by (simp add: map_add_None)
  obtain mg3 where mg3: "stop_disappeared (ra_writes a) (mg_old_cmd_classes mg2) mg2 = Returns mg3"
    "rows_frame mg2 mg3" "mg_new_cmd_classes mg3 = mg_new_cmd_classes mg2"
    "served mg3 = (\<lambda>c. map_option (\<lambda>(k, th).
      (k, if c \<in> set (mg_old_cmd_classes mg1) - queue_names ?qs then told SIGTERM th else th)) (served mg2 c))"
    using stop_disappeared_spec [of "ra_writes a" "mg_old_cmd_classes mg2" mg2, OF assms(3)] assms(4) still
    unfolding old2 mg2(3) by blast
  let ?mg4 = "mg3\<lparr>mg_old_cmd_classes := mg_new_cmd_classes mg3\<rparr>"
  have "served ?mg4 = served mg3" by (rule served_cong) simp_all
  moreover have "served mg3 = wanted ?m ?qs ++ (\<lambda>c. map_option (\<lambda>(k, th).
      (k, if c \<in> set (mg_old_cmd_classes mg1) - queue_names ?qs then told SIGTERM th else th)) (served mg1 c))"
  proof
    fix c
    show "served mg3 c = (wanted ?m ?qs ++ (\<lambda>c. map_option (\<lambda>(k, th).
      (k, if c \<in> set (mg_old_cmd_classes mg1) - queue_names ?qs then told SIGTERM th else th)) (served mg1 c))) c"
      using wanted_names [of ?m ?qs c]
      by (cases "served mg1 c"; cases "wanted ?m ?qs c") (auto simp: mg2(4) mg3(4) map_add_def)
  qed
  ultimately have "registry_of ?mg4 = spec_refresh ?m ?qs (registry_of mg1)"
    using mg2(3) mg3(3) by (simp add: registry_of_def spec_refresh_def)
  moreover have "refresh_queue_list what retry_select a mg = Returns (?mg4, slept)"
    using assms(1) mg2(1) mg3(1) by (simp add: refresh_queue_list_def)
  ultimately show ?thesis using mg2(2) mg3(2) by (auto simp: rows_frame_def)
qed

end
