(* ===== verification/Daemon.thy ===== *)
theory Daemon
  imports ManagerFacts
begin

text \<open>
  The daemon as a whole (\<^verbatim>\<open>main\<close> in \<^verbatim>\<open>pg_cmd_queue_daemon.cpp\<close> from the point where its
  arguments are known): the main thread, which goes through the phases of \<^verbatim>\<open>main\<close>, interleaved
  with the steps of all runner threads and with signals.  \<open>thread_contract\<close> is the interface
  between the manager and its threads: a property of a thread that holds when it starts, and that
  a kill and a step of the thread keep, holds of every thread of the daemon at any time.
\<close>

section \<open>Threads\<close>

inductive thread_step ::
    "bool \<Rightarrow> (string \<times> string) list \<Rightarrow> kind \<Rightarrow> thread \<Rightarrow> thread \<Rightarrow> bool"
  for asserts cmdqd_env where
  started: "th_run th = None
    \<Longrightarrow> thread_step asserts cmdqd_env k th (th\<lparr>th_run := Some (runner_init (th_cmd_queue th))\<rparr>)"
| nix: "th_run th = Some rn \<Longrightarrow> runner_step asserts cmdqd_env (nix_ops asserts) rn rn'
    \<Longrightarrow> thread_step asserts cmdqd_env Nix th (th\<lparr>th_run := Some rn'\<rparr>)"
| sql: "th_run th = Some rn \<Longrightarrow> runner_step asserts cmdqd_env sql_ops rn rn'
    \<Longrightarrow> thread_step asserts cmdqd_env Sql th (th\<lparr>th_run := Some rn'\<rparr>)"

inductive_cases thread_stepE: "thread_step asserts cmdqd_env k th th'"

text \<open>Replacing a thread of the maps.\<close>

definition set_thread :: "kind \<Rightarrow> string \<Rightarrow> thread \<Rightarrow> manager \<Rightarrow> manager" where
  "set_thread k c th mg =
     (case k of
        Nix \<Rightarrow> mg\<lparr>mg_nix_cmd_queue_runners := AList.update c th (mg_nix_cmd_queue_runners mg)\<rparr>
      | Sql \<Rightarrow> mg\<lparr>mg_sql_cmd_queue_runners := AList.update c th (mg_sql_cmd_queue_runners mg)\<rparr>)"

section \<open>The main thread\<close>

datatype main_phase =
    Before_connection
  | Before_refresh
  | Before_listening
  | Listening
  | Before_stopping
  | Before_joining
  | Finished

record daemon =
  dm_phase :: main_phase
  dm_manager :: manager

definition daemon_init :: "bool \<Rightarrow> string list \<Rightarrow> signal set \<Rightarrow> daemon" where
  "daemon_init emit explicit sigmask = \<lparr>dm_phase = Before_connection, dm_manager = make_instance emit explicit sigmask\<rparr>"

text \<open>
  \<^verbatim>\<open>PQ::execParams\<close> on a null connection is undefined behaviour: there is no step for it.  A
  step of the main thread that dies is none either: the whole program has ended.
\<close>

inductive daemon_step ::
    "bool \<Rightarrow> (exn \<Rightarrow> string) \<Rightarrow> (string \<times> string) list \<Rightarrow> daemon \<Rightarrow> daemon \<Rightarrow> bool"
  for asserts what cmdqd_env where
  connect: "maintain_connection attempts (mg_conn mg) False = Returns (conn, slept)
    \<Longrightarrow> daemon_step asserts what cmdqd_env \<lparr>dm_phase = Before_connection, dm_manager = mg\<rparr>
          \<lparr>dm_phase = Before_refresh, dm_manager = mg\<lparr>mg_conn := conn\<rparr>\<rparr>"
| refresh: "mg_conn mg \<noteq> None \<Longrightarrow> refresh_queue_list what False a mg = Returns (mg', slept)
    \<Longrightarrow> daemon_step asserts what cmdqd_env \<lparr>dm_phase = Before_refresh, dm_manager = mg\<rparr>
          \<lparr>dm_phase = Before_listening, dm_manager = mg'\<rparr>"
| announce: "listen_start listen_result socket mg = (left, mg')
    \<Longrightarrow> daemon_step asserts what cmdqd_env \<lparr>dm_phase = Before_listening, dm_manager = mg\<rparr>
          \<lparr>dm_phase = (if left then Before_stopping else Listening), dm_manager = mg'\<rparr>"
| listen: "listen_step asserts what t mg = Returns (left, mg')
    \<Longrightarrow> daemon_step asserts what cmdqd_env \<lparr>dm_phase = Listening, dm_manager = mg\<rparr>
          \<lparr>dm_phase = (if left then Before_stopping else Listening), dm_manager = mg'\<rparr>"
| stop: "stop_all_runners sig_recv writes mg = Returns mg'
    \<Longrightarrow> daemon_step asserts what cmdqd_env \<lparr>dm_phase = Before_stopping, dm_manager = mg\<rparr>
          \<lparr>dm_phase = Before_joining, dm_manager = mg'\<rparr>"
| join: "join_all_threads mg = Returns mg'
    \<Longrightarrow> daemon_step asserts what cmdqd_env \<lparr>dm_phase = Before_joining, dm_manager = mg\<rparr>
          \<lparr>dm_phase = Finished, dm_manager = mg'\<rparr>"
| handler: "p \<noteq> Finished \<Longrightarrow> receive_signal ws sig_num mg = Returns mg'
    \<Longrightarrow> daemon_step asserts what cmdqd_env \<lparr>dm_phase = p, dm_manager = mg\<rparr> \<lparr>dm_phase = p, dm_manager = mg'\<rparr>"
| thread: "p \<noteq> Finished \<Longrightarrow> served mg c = Some (k, th) \<Longrightarrow> thread_step asserts cmdqd_env k th th'
    \<Longrightarrow> daemon_step asserts what cmdqd_env \<lparr>dm_phase = p, dm_manager = mg\<rparr>
          \<lparr>dm_phase = p, dm_manager = set_thread k c th' mg\<rparr>"

inductive daemon_reaches ::
    "bool \<Rightarrow> (exn \<Rightarrow> string) \<Rightarrow> (string \<times> string) list \<Rightarrow> daemon \<Rightarrow> bool"
  for asserts what cmdqd_env where
  start: "daemon_reaches asserts what cmdqd_env (daemon_init emit explicit sigmask)"
| step: "daemon_reaches asserts what cmdqd_env dm \<Longrightarrow> daemon_step asserts what cmdqd_env dm dm'
    \<Longrightarrow> daemon_reaches asserts what cmdqd_env dm'"

inductive_cases daemon_stepE: "daemon_step asserts what cmdqd_env dm dm'"

section \<open>How the maps of runners change\<close>

lemma served_updates [simp]:
  "served (mg\<lparr>mg_new_cmd_classes := x1\<rparr>) = served mg"
  "served (mg\<lparr>mg_old_cmd_classes := x1\<rparr>) = served mg"
  "served (mg\<lparr>mg_keep_running := x2\<rparr>) = served mg"
  "served (mg\<lparr>mg_conn := x3\<rparr>) = served mg"
  "served (mg\<lparr>mg_sig_recv := x9\<rparr>) = served mg"
  "served (mg\<lparr>mg_kill_pipe := x4\<rparr>) = served mg"
  "served (mg\<lparr>mg_sigmask := x5\<rparr>) = served mg"
  "served (mg\<lparr>mg_ready_signals := x6, mg_emitted_sigusr1_yet := x7\<rparr>) = served mg"
  "served (manager_call x8 mg) = served mg"
  by (simp_all add: served_def manager_call_def fun_eq_iff split: option.split)

lemma served_set_thread:
  "served mg c = Some (k, th) \<Longrightarrow> served (set_thread k c th' mg) = (served mg)(c \<mapsto> (k, th'))"
  by (cases k) (auto simp: served_def set_thread_def update_conv' fun_eq_iff split: option.splits)

text \<open>
  Everything that happens to the two maps: a runner is added under a key that neither has, or the
  thread of a runner is changed by a kill or by a step of its own.  No runner is ever removed.
\<close>

inductive evolves :: "bool \<Rightarrow> (string \<times> string) list \<Rightarrow> manager \<Rightarrow> manager \<Rightarrow> bool"
  for asserts cmdqd_env mg where
  none: "evolves asserts cmdqd_env mg mg"
| same: "evolves asserts cmdqd_env mg mg1 \<Longrightarrow> mg_nix_cmd_queue_runners mg' = mg_nix_cmd_queue_runners mg1 \<Longrightarrow>
    mg_sql_cmd_queue_runners mg' = mg_sql_cmd_queue_runners mg1 \<Longrightarrow> evolves asserts cmdqd_env mg mg'"
| add: "evolves asserts cmdqd_env mg mg1 \<Longrightarrow> served mg1 (cq_cmd_class_identity q) = None \<Longrightarrow> cq_is_valid q \<Longrightarrow>
    kind_of q = Some k \<Longrightarrow> sigset_masked_in_runner_threads \<subseteq> sigmask \<Longrightarrow>
    mg_nix_cmd_queue_runners mg' = mg_nix_cmd_queue_runners mg1 @
      (if k = Nix then [(cq_cmd_class_identity q, new_thread sigmask q)] else []) \<Longrightarrow>
    mg_sql_cmd_queue_runners mg' = mg_sql_cmd_queue_runners mg1 @
      (if k = Sql then [(cq_cmd_class_identity q, new_thread sigmask q)] else []) \<Longrightarrow>
    evolves asserts cmdqd_env mg mg'"
| change: "evolves asserts cmdqd_env mg mg1 \<Longrightarrow> served mg1 c = Some (k, th) \<Longrightarrow>
    th' = th\<lparr>th_kill_pipe := p\<rparr> \<or> thread_step asserts cmdqd_env k th th' \<Longrightarrow>
    mg_nix_cmd_queue_runners mg' = mg_nix_cmd_queue_runners (set_thread k c th' mg1) \<Longrightarrow>
    mg_sql_cmd_queue_runners mg' = mg_sql_cmd_queue_runners (set_thread k c th' mg1) \<Longrightarrow>
    evolves asserts cmdqd_env mg mg'"

lemma evolves_trans:
  "evolves asserts cmdqd_env mg1 mg2 \<Longrightarrow> evolves asserts cmdqd_env mg0 mg1 \<Longrightarrow> evolves asserts cmdqd_env mg0 mg2"
proof (induction rule: evolves.induct)
  case (same mg' mg'')
  then show ?case by (blast intro: evolves.same)
next
  case (add mg1 q k sigmask mg')
  then show ?case by (blast intro: evolves.add)
next
  case (change mg1 c k th th' p mg')
  then show ?case by (blast intro: evolves.change)
qed

definition same_runners :: "manager \<Rightarrow> manager \<Rightarrow> bool" where
  "same_runners mg mg' \<longleftrightarrow> mg_nix_cmd_queue_runners mg' = mg_nix_cmd_queue_runners mg \<and>
     mg_sql_cmd_queue_runners mg' = mg_sql_cmd_queue_runners mg"

lemma evolves_same: "evolves asserts cmdqd_env mg0 mg \<Longrightarrow> same_runners mg mg' \<Longrightarrow> evolves asserts cmdqd_env mg0 mg'"
  by (auto simp: same_runners_def intro: evolves.same)

lemma evolves_updates [simp]:
  "evolves asserts cmdqd_env mg0 (mg\<lparr>mg_new_cmd_classes := x1\<rparr>) = evolves asserts cmdqd_env mg0 mg"
  "evolves asserts cmdqd_env mg0 (mg\<lparr>mg_old_cmd_classes := x1\<rparr>) = evolves asserts cmdqd_env mg0 mg"
  "evolves asserts cmdqd_env mg0 (mg\<lparr>mg_keep_running := x2\<rparr>) = evolves asserts cmdqd_env mg0 mg"
  "evolves asserts cmdqd_env mg0 (mg\<lparr>mg_conn := x3\<rparr>) = evolves asserts cmdqd_env mg0 mg"
  "evolves asserts cmdqd_env mg0 (mg\<lparr>mg_sig_recv := x9\<rparr>) = evolves asserts cmdqd_env mg0 mg"
  "evolves asserts cmdqd_env mg0 (mg\<lparr>mg_sig_recv := x9, mg_kill_pipe := x4\<rparr>) = evolves asserts cmdqd_env mg0 mg"
  "evolves asserts cmdqd_env mg0 (mg\<lparr>mg_kill_pipe := x4\<rparr>) = evolves asserts cmdqd_env mg0 mg"
  "evolves asserts cmdqd_env mg0 (mg\<lparr>mg_ready_signals := x6, mg_emitted_sigusr1_yet := x7\<rparr>) =
    evolves asserts cmdqd_env mg0 mg"
  "evolves asserts cmdqd_env mg0 (manager_call x8 mg) = evolves asserts cmdqd_env mg0 mg"
  by (auto simp: manager_call_def intro: evolves.same)

lemma ensure_runner_evolves:
  assumes "ensure_runner spawn q mg = Returns mg'" and "cq_is_valid q"
  shows "evolves asserts cmdqd_env mg mg'"
proof (cases "queue_has_runner_already q mg")
  case True
  with assms show ?thesis by (auto simp: ensure_runner_def intro: evolves.none)
next
  case False
  then have none: "served mg (cq_cmd_class_identity q) = None" unfolding has_runner_served by blast
  show ?thesis
  proof (cases "kind_of q")
    case None
    with assms False show ?thesis by (auto simp: ensure_runner_def add_runner_eq intro: evolves.same [OF evolves.none])
  next
    case (Some k)
    with assms False show ?thesis
      by (intro evolves.add [OF evolves.none none assms(2) Some,
            where sigmask = "mg_sigmask mg \<union> sigset_masked_in_runner_threads"])
        (cases k; auto simp: ensure_runner_def add_runner_eq Let_def split: option.splits)+
  qed
qed

lemma stop_runner_evolves:
  assumes "stop_runner writes c s mg = Returns mg'"
  shows "evolves asserts cmdqd_env mg mg'"
proof -
  obtain k th th' where "served mg c = Some (k, th)" "kill_thread (writes c) s th = Returns th'"
    "mg' = set_thread k c th' mg"
    using assms by (auto simp: stop_runner_def served_def set_thread_def bind_outcome_Returns_iff
        split: option.splits)
  then show ?thesis
    by (auto intro!: evolves.change [OF evolves.none, of mg c k th th' "th_kill_pipe th'"] dest!: kill_thread_cases)
qed

lemma select_queues_same:
  "select_queues retry as secs result mg = Returns (r, mg', slept) \<Longrightarrow>
     same_runners mg mg' \<and> mg_old_cmd_classes mg' = mg_old_cmd_classes mg \<and> mg_sigmask mg' = mg_sigmask mg"
proof (induction "as" arbitrary: secs result mg r mg' slept)
  case (Cons a as)
  let ?mg1 = "manager_call (select_queues_call (mg_explicit_cmd_classes mg)) mg"
  show ?case
  proof (cases "mg_keep_running mg \<and> res_status (sa_result a) \<noteq> PGRES_TUPLES_OK \<and> retry")
    case False
    with Cons.prems show ?thesis by (auto simp: same_runners_def manager_call_def Let_def split: if_splits)
  next
    case True
    with Cons.prems obtain mg2 slept' where
      rest: "select_queues retry as (next_retry secs) (sa_result a) mg2 = Returns (r, mg', slept')"
      and mg2: "mg2 = ?mg1 \<or> mg2 = ?mg1\<lparr>mg_keep_running := False\<rparr>"
      by (auto simp: Let_def bind_outcome_Returns_iff simp del: sig_num_received.simps split: if_splits)
    from mg2 have "same_runners mg mg2" "mg_old_cmd_classes mg2 = mg_old_cmd_classes mg"
      "mg_sigmask mg2 = mg_sigmask mg"
      by (auto simp: same_runners_def manager_call_def)
    with Cons.IH [OF rest] show ?thesis by (simp add: same_runners_def)
  qed
qed (auto simp: same_runners_def split: if_splits)

lemma refresh_rows_evolves:
  "refresh_rows spawn qs mg = Returns mg' \<Longrightarrow> evolves asserts cmdqd_env mg0 mg \<Longrightarrow>
    evolves asserts cmdqd_env mg0 mg' \<and> (distinct (mg_new_cmd_classes mg) \<longrightarrow> distinct (mg_new_cmd_classes mg'))"
proof (induction qs arbitrary: mg)
  case (Cons q qs)
  show ?case
  proof (cases "cq_is_valid q")
    case False
    with Cons show ?thesis by simp
  next
    case True
    with Cons.prems(1) obtain mg1 where mg1: "ensure_runner spawn q mg = Returns mg1"
      and rest: "refresh_rows spawn qs (mg1\<lparr>mg_new_cmd_classes :=
        insort_insert (cq_cmd_class_identity q) (mg_new_cmd_classes mg1)\<rparr>) = Returns mg'"
      by (auto simp: refresh_rows_Cons bind_outcome_Returns_iff simp del: refresh_rows.simps)
    have "mg_new_cmd_classes mg1 = mg_new_cmd_classes mg"
      using mg1 by (auto simp: ensure_runner_def add_runner_eq Let_def split: if_splits option.splits kind.splits)
    moreover have "evolves asserts cmdqd_env mg0 mg1"
      using ensure_runner_evolves [OF mg1 True] Cons.prems(2) by (rule evolves_trans)
    ultimately show ?thesis
      using Cons.IH [OF rest] by (simp add: distinct_insort_insert)
  qed
qed simp

lemma stop_runner_new: "stop_runner writes c s mg = Returns mg' \<Longrightarrow> mg_new_cmd_classes mg' = mg_new_cmd_classes mg"
  by (auto simp: stop_runner_def bind_outcome_Returns_iff split: option.splits)

lemma stop_disappeared_evolves:
  "stop_disappeared writes cs mg = Returns mg' \<Longrightarrow> evolves asserts cmdqd_env mg0 mg \<Longrightarrow>
    evolves asserts cmdqd_env mg0 mg' \<and> mg_new_cmd_classes mg' = mg_new_cmd_classes mg"
proof (induction cs arbitrary: mg)
  case (Cons c cs)
  show ?case
  proof (cases "c \<in> set (mg_new_cmd_classes mg)")
    case True
    with Cons show ?thesis by simp
  next
    case False
    with Cons.prems(1) obtain mg1 where mg1: "stop_runner writes c SIGTERM mg = Returns mg1"
      "stop_disappeared writes cs mg1 = Returns mg'" by (auto simp: bind_outcome_Returns_iff)
    have "evolves asserts cmdqd_env mg0 mg1"
      using stop_runner_evolves [OF mg1(1)] Cons.prems(2) by (rule evolves_trans)
    with Cons.IH [OF mg1(2)] stop_runner_new [OF mg1(1)] show ?thesis by simp
  qed
qed simp

lemma refresh_evolves:
  assumes "refresh_queue_list what retry a mg = Returns (mg', slept)" and "evolves asserts cmdqd_env mg0 mg"
  shows "evolves asserts cmdqd_env mg0 mg' \<and> (distinct (mg_old_cmd_classes mg) \<longrightarrow> distinct (mg_old_cmd_classes mg'))"
proof -
  obtain result mg1 slept1 where sel: "select_queues retry (ra_attempts a) 1 null_result mg = Returns (result, mg1, slept1)"
    using assms(1) by (auto simp: refresh_queue_list_def bind_outcome_Returns_iff)
  have ev1: "evolves asserts cmdqd_env mg0 mg1" and old1: "mg_old_cmd_classes mg1 = mg_old_cmd_classes mg"
    using select_queues_same [OF sel] evolves_same [OF assms(2)] by auto
  show ?thesis
  proof (cases result)
    case None
    with sel ev1 old1 assms(1) show ?thesis by (simp add: refresh_queue_list_def)
  next
    case (Some res)
    let ?mg1 = "mg1\<lparr>mg_new_cmd_classes := []\<rparr>"
    obtain mg2 mg3 where mg2: "refresh_rows (ra_spawn a) (queues_of what res) ?mg1 = Returns mg2"
      and mg3: "stop_disappeared (ra_writes a) (mg_old_cmd_classes mg2) mg2 = Returns mg3"
      and mg': "mg' = mg3\<lparr>mg_old_cmd_classes := mg_new_cmd_classes mg3\<rparr>"
      using assms(1) sel Some by (auto simp: refresh_queue_list_def bind_outcome_Returns_iff)
    have "evolves asserts cmdqd_env mg0 ?mg1" using ev1 by simp
    with refresh_rows_evolves [OF mg2] have "evolves asserts cmdqd_env mg0 mg2" "distinct (mg_new_cmd_classes mg2)"
      by auto
    with stop_disappeared_evolves [OF mg3] show ?thesis by (simp add: mg')
  qed
qed

text \<open>From here on the two facts travel together.\<close>

definition keeps_shape :: "bool \<Rightarrow> (string \<times> string) list \<Rightarrow> manager \<Rightarrow> manager \<Rightarrow> bool" where
  "keeps_shape asserts cmdqd_env mg0 mg \<longleftrightarrow> evolves asserts cmdqd_env mg0 mg \<and> distinct (mg_old_cmd_classes mg)"

lemma keeps_shape_updates [simp]:
  "keeps_shape asserts cmdqd_env mg0 (mg\<lparr>mg_keep_running := x2\<rparr>) = keeps_shape asserts cmdqd_env mg0 mg"
  "keeps_shape asserts cmdqd_env mg0 (mg\<lparr>mg_conn := x3\<rparr>) = keeps_shape asserts cmdqd_env mg0 mg"
  "keeps_shape asserts cmdqd_env mg0 (mg\<lparr>mg_sig_recv := x9\<rparr>) = keeps_shape asserts cmdqd_env mg0 mg"
  "keeps_shape asserts cmdqd_env mg0 (mg\<lparr>mg_sig_recv := x9, mg_kill_pipe := x4\<rparr>) = keeps_shape asserts cmdqd_env mg0 mg"
  "keeps_shape asserts cmdqd_env mg0 (mg\<lparr>mg_kill_pipe := x4\<rparr>) = keeps_shape asserts cmdqd_env mg0 mg"
  "keeps_shape asserts cmdqd_env mg0 (mg\<lparr>mg_ready_signals := x6, mg_emitted_sigusr1_yet := x7\<rparr>) =
    keeps_shape asserts cmdqd_env mg0 mg"
  "keeps_shape asserts cmdqd_env mg0 (manager_call x8 mg) = keeps_shape asserts cmdqd_env mg0 mg"
  by (simp_all add: keeps_shape_def)

lemma refresh_keeps_shape:
  "refresh_queue_list what retry a mg = Returns (mg', slept) \<Longrightarrow> keeps_shape asserts cmdqd_env mg0 mg
    \<Longrightarrow> keeps_shape asserts cmdqd_env mg0 mg'"
  using refresh_evolves by (auto simp: keeps_shape_def)

lemma on_notifies_keeps_shape:
  "on_notifies asserts' what ns mg = Returns mg' \<Longrightarrow> keeps_shape asserts cmdqd_env mg0 mg
    \<Longrightarrow> keeps_shape asserts cmdqd_env mg0 mg'"
  by (induction ns arbitrary: mg)
    (auto simp: bind_outcome_Returns_iff split: if_splits sum.splits dest!: refresh_keeps_shape)

lemma listen_step_keeps_shape:
  "listen_step asserts' what t mg = Returns (left, mg') \<Longrightarrow> keeps_shape asserts cmdqd_env mg0 mg
    \<Longrightarrow> keeps_shape asserts cmdqd_env mg0 mg'"
  by (auto simp: listen_step_def bind_outcome_Returns_iff split: if_splits sum.splits
      dest!: on_notifies_keeps_shape)

section \<open>One runner per queue\<close>

definition keys :: "manager \<Rightarrow> string list" where
  "keys mg = map fst (mg_nix_cmd_queue_runners mg) @ map fst (mg_sql_cmd_queue_runners mg)"

lemma served_None_keys: "served mg c = None \<longleftrightarrow> c \<notin> set (keys mg)"
  by (auto simp: served_def keys_def map_of_eq_None_iff split: option.split dest: map_of_SomeD
      intro: image_eqI [rotated])

lemma map_fst_update: "k \<in> fst ` set al \<Longrightarrow> map fst (AList.update k v al) = map fst al"
  by (induction al) auto

lemma keys_set_thread: "served mg c = Some (k, th) \<Longrightarrow> keys (set_thread k c th' mg) = keys mg"
  by (cases k)
    (auto simp: served_def keys_def set_thread_def map_fst_update split: option.splits dest!: map_of_SomeD
      intro!: map_fst_update image_eqI [rotated])

lemma evolves_keys: "evolves asserts cmdqd_env mg0 mg \<Longrightarrow> distinct (keys mg0) \<Longrightarrow> distinct (keys mg)"
proof (induction rule: evolves.induct)
  case (same mg1 mg')
  then show ?case by (simp add: keys_def)
next
  case (add mg1 q k sigmask mg')
  then have "cq_cmd_class_identity q \<notin> set (keys mg1)" by (simp add: served_None_keys)
  with add show ?case by (cases k) (auto simp: keys_def)
next
  case (change mg1 c k th th' p mg')
  have "keys mg' = keys (set_thread k c th' mg1)" using change by (simp add: keys_def)
  with keys_set_thread [OF change.hyps(2)] change show ?case by simp
qed

section \<open>Stopping all runners\<close>

lemma update_middle: "c \<notin> fst ` set pre \<Longrightarrow> AList.update c v (pre @ (c, u) # rs) = pre @ (c, v) # rs"
  by (induction pre) auto

text \<open>The runners of one map, which kind \<open>k\<close> selects.\<close>

definition runners :: "kind \<Rightarrow> manager \<Rightarrow> (string \<times> thread) list" where
  "runners k mg = (case k of Nix \<Rightarrow> mg_nix_cmd_queue_runners mg | Sql \<Rightarrow> mg_sql_cmd_queue_runners mg)"

definition with_runners :: "kind \<Rightarrow> (string \<times> thread) list \<Rightarrow> manager \<Rightarrow> manager" where
  "with_runners k rs mg =
     (case k of Nix \<Rightarrow> mg\<lparr>mg_nix_cmd_queue_runners := rs\<rparr> | Sql \<Rightarrow> mg\<lparr>mg_sql_cmd_queue_runners := rs\<rparr>)"

lemma runners_simps [simp]:
  "runners k (with_runners k rs mg) = rs"
  "with_runners k rs (with_runners k rs' mg) = with_runners k rs mg"
  "with_runners k (runners k mg) mg = mg"
  by (cases k; simp add: runners_def with_runners_def)+

lemma set_thread_runners: "set_thread k c th mg = with_runners k (AList.update c th (runners k mg)) mg"
  by (cases k) (simp_all add: set_thread_def runners_def with_runners_def)

lemma served_runners:
  assumes "distinct (keys mg)" and "(c, th) \<in> set (runners k mg)"
  shows "served mg c = Some (k, th)"
proof (cases k)
  case Nix
  with assms show ?thesis by (simp add: runners_def served_def keys_def)
next
  case Sql
  with assms have "c \<notin> fst ` set (mg_nix_cmd_queue_runners mg)" by (force simp: runners_def keys_def)
  then have "map_of (mg_nix_cmd_queue_runners mg) c = None" by (simp add: map_of_eq_None_iff)
  with Sql assms show ?thesis by (simp add: runners_def served_def keys_def)
qed

lemma keys_with_runners:
  "map fst rs = map fst (runners k mg) \<Longrightarrow> keys (with_runners k rs mg) = keys mg"
  by (cases k) (simp_all add: runners_def with_runners_def keys_def)

lemma kill_all_evolves:
  "kill_all writes s rs = Returns rs' \<Longrightarrow> runners k mg = pre @ rs \<Longrightarrow> distinct (keys mg) \<Longrightarrow>
    evolves asserts cmdqd_env mg (with_runners k (pre @ rs') mg) \<and> map fst rs' = map fst rs"
proof (induction rs arbitrary: pre mg rs')
  case Nil
  then show ?case using runners_simps(3) [of k mg] by (auto intro: evolves.none)
next
  case (Cons r rs)
  obtain c th where r: "r = (c, th)" by (cases r)
  with Cons.prems(1) obtain th' rs'' where kill: "kill_thread (writes c) s th = Returns th'"
    and rest: "kill_all writes s rs = Returns rs''" and rs': "rs' = (c, th') # rs''"
    by (auto simp: bind_outcome_Returns_iff)
  let ?mg1 = "set_thread k c th' mg"
  have served: "served mg c = Some (k, th)"
    using Cons.prems(2,3) by (intro served_runners) (simp_all add: r)
  have fresh: "c \<notin> fst ` set pre"
    using Cons.prems(2,3) by (cases k) (auto simp: keys_def runners_def r)
  have mg1: "runners k ?mg1 = (pre @ [(c, th')]) @ rs"
    by (simp add: set_thread_runners Cons.prems(2) r update_middle [OF fresh])
  have "evolves asserts cmdqd_env ?mg1 (with_runners k ((pre @ [(c, th')]) @ rs'') ?mg1) \<and> map fst rs'' = map fst rs"
    by (rule Cons.IH [OF rest mg1]) (simp add: keys_set_thread [OF served] Cons.prems(3))
  moreover have "evolves asserts cmdqd_env mg ?mg1"
    using kill_thread_cases [OF kill]
    by (auto intro!: evolves.change [OF evolves.none served, where p = "th_kill_pipe th'" and th' = th'])
  ultimately show ?case
    by (auto simp: rs' r set_thread_runners intro: evolves_trans)
qed

lemma stop_all_evolves:
  assumes "stop_all_runners sig_recv writes mg = Returns mg'" and "distinct (keys mg)"
  shows "evolves asserts cmdqd_env mg mg' \<and> mg_old_cmd_classes mg' = mg_old_cmd_classes mg"
proof -
  let ?s = "sig_num_received sig_recv [SIGQUIT, SIGTERM, SIGINT]"
  obtain nix sql where nix: "kill_all writes ?s (mg_nix_cmd_queue_runners mg) = Returns nix"
    and sql: "kill_all writes ?s (mg_sql_cmd_queue_runners mg) = Returns sql"
    and mg': "mg' = mg\<lparr>mg_nix_cmd_queue_runners := nix, mg_sql_cmd_queue_runners := sql\<rparr>"
    using assms(1) by (auto simp: stop_all_runners_def Let_def bind_outcome_Returns_iff simp del: sig_num_received.simps)
  let ?mg1 = "with_runners Nix nix mg"
  have ev1: "evolves asserts cmdqd_env mg ?mg1" and fst1: "map fst nix = map fst (runners Nix mg)"
    using kill_all_evolves [OF nix, of Nix mg "[]"] assms(2) by (auto simp: runners_def)
  have "evolves asserts cmdqd_env ?mg1 (with_runners Sql sql ?mg1)"
    using kill_all_evolves [OF sql, of Sql ?mg1 "[]"] assms(2) keys_with_runners [OF fst1]
    by (auto simp: runners_def with_runners_def)
  with ev1 show ?thesis by (auto simp: mg' with_runners_def intro: evolves_trans)
qed

section \<open>The daemon\<close>

lemma keeps_shape_keys:
  "keeps_shape asserts cmdqd_env (make_instance emit explicit sigmask) mg \<Longrightarrow> distinct (keys mg)"
  using evolves_keys [of asserts cmdqd_env "make_instance emit explicit sigmask" mg]
  by (simp add: keeps_shape_def make_instance_def keys_def)

lemma daemon_step_keeps_shape:
  assumes "daemon_step asserts what cmdqd_env dm dm'"
    and "keeps_shape asserts cmdqd_env mg0 (dm_manager dm)" and "distinct (keys (dm_manager dm))"
  shows "keeps_shape asserts cmdqd_env mg0 (dm_manager dm')"
  using assms
proof cases
  case (stop sig_recv writes mg mg')
  with stop_all_evolves [OF stop(3)] assms(2,3) show ?thesis
    by (auto simp: keeps_shape_def intro: evolves_trans)
next
  case (thread p mg c k th th')
  then have "evolves asserts cmdqd_env mg0 (set_thread k c th' mg)"
    using assms(2) by (auto simp: keeps_shape_def intro: evolves.change [where p = "[]"])
  then show ?thesis
    using thread assms(2) by (cases k) (simp_all add: keeps_shape_def set_thread_def)
qed (auto simp: listen_start_def join_all_threads_def receive_signal_def bind_outcome_Returns_iff Let_def
    split: if_splits intro: refresh_keeps_shape listen_step_keeps_shape)

lemma daemon_keeps_shape:
  assumes "daemon_reaches asserts what cmdqd_env dm"
  shows "\<exists>emit explicit sigmask.
    keeps_shape asserts cmdqd_env (make_instance emit explicit sigmask) (dm_manager dm)"
  using assms
proof induction
  case (start emit explicit sigmask)
  then show ?case
    by (auto simp: daemon_init_def keeps_shape_def make_instance_def intro: evolves.none)
next
  case (step dm dm')
  then show ?case by (blast intro: daemon_step_keeps_shape dest: keeps_shape_keys)
qed

lemma daemon_step_evolves:
  assumes "daemon_reaches asserts what cmdqd_env dm" and "daemon_step asserts what cmdqd_env dm dm'"
  shows "evolves asserts cmdqd_env (dm_manager dm) (dm_manager dm')"
proof -
  have "keeps_shape asserts cmdqd_env (dm_manager dm) (dm_manager dm)" and "distinct (keys (dm_manager dm))"
    using daemon_keeps_shape [OF assms(1)] keeps_shape_keys by (auto simp: keeps_shape_def intro: evolves.none)
  then show ?thesis using daemon_step_keeps_shape [OF assms(2)] by (simp add: keeps_shape_def)
qed

end
