(* ===== verification/RunnerProps.thy ===== *)
theory RunnerProps
  imports Runner NixRunProps
begin

text \<open>
  What a runner keeps to: the transactions it opens and ends, what its \<^verbatim>\<open>UPDATE\<close> names, what
  it makes of a notification, and how it comes to an end.
\<close>

section \<open>Transactions\<close>

text \<open>
  A replay of the calls: \<open>Some b\<close> with \<open>b\<close> whether a transaction is open, \<open>None\<close> when a call
  was out of place: a transaction begun inside of another, a command selected or updated or a
  round entered outside of one, or a failed update remembered inside of the transaction that is
  rolled back.
\<close>

definition tx_step :: "bool option \<Rightarrow> sql_call \<Rightarrow> bool option" where
  "tx_step st c =
     (case st of
        None \<Rightarrow> None
      | Some b \<Rightarrow>
          (case c of
             Exec s \<Rightarrow>
               (if s = ''BEGIN TRANSACTION'' then (if b then None else Some True)
                else if s = ''COMMIT TRANSACTION'' \<or> s = ''ROLLBACK TRANSACTION'' then Some False
                else if b then Some b else None)
           | Exec_params s ps \<Rightarrow>
               (if s = ''CALL cmdqd.runner_session_start($1::regclass, $2)'' then Some False
                else if b then None else Some b)
           | Exec_prepared s ps ls fs \<Rightarrow> (if b then Some b else None)
           | Describe_prepared s \<Rightarrow> Some b))"

definition transactions :: "sql_call list \<Rightarrow> bool option" where
  "transactions calls = foldl tx_step (Some False) calls"

lemma transactions_simps [simp]:
  "transactions [] = Some False"
  "transactions (calls @ cs) = foldl tx_step (transactions calls) cs"
  by (simp_all add: transactions_def)

lemma some_bool_False [simp]: "\<exists>b. \<not> b"
  by blast

definition tx_inv :: "runner \<Rightarrow> bool" where
  "tx_inv rn \<longleftrightarrow> transactions (rn_calls rn) \<noteq> None \<and>
     (rn_phase rn \<in> {Selecting, Waiting} \<longrightarrow> transactions (rn_calls rn) = Some False)"

lemma tx_inv_connect:
  assumes "connect_step cmdqd_env a rn = Returns rn'" and "tx_inv rn" and "rn_phase rn = Connecting"
  shows "tx_inv rn'"
  using assms
  by (auto simp: connect_step_def bind_outcome_Returns_iff Let_def tx_inv_def call_def session_start_call_def
      tx_step_def exit_runner_def split: if_splits)

lemma tx_inv_wait:
  assumes "wait_step asserts a rn = Returns rn'" and "tx_inv rn" and "rn_phase rn = Waiting"
  shows "tx_inv rn'"
  using assms
  by (auto simp: wait_step_def Let_def tx_inv_def on_notify_def on_kill_pipe_def exit_runner_def
      split: option.splits sum.splits if_splits kill_read.splits)

text \<open>Between the select and the end of the transaction.\<close>

definition tx_select :: "runner \<Rightarrow> bool" where
  "tx_select rn \<longleftrightarrow> transactions (rn_calls rn) \<noteq> None"

lemma tx_select_handle:
  assumes "handle_select asserts ops a rn = Returns rn'" and "transactions (rn_calls rn) = Some True"
  shows "tx_select rn'"
  using assms
  by (auto simp: handle_select_def serve_cmd_def update_cmd_def no_cmd_def bind_outcome_Returns_iff Let_def
      call_def tx_select_def tx_step_def split: if_splits sum.splits)

lemma select_call_prepared: "select_call rn = Some c \<Longrightarrow> \<exists>s ps. c = Exec_prepared s ps [] []"
  by (auto simp: select_call_def split: option.splits if_splits)

lemma tx_inv_select:
  assumes "select_step asserts ops a rn = Returns rn'" and "tx_inv rn" and "rn_phase rn = Selecting"
  shows "tx_inv rn'"
proof (cases "\<not> rn_keep_running rn \<or> rn_go_back_to_reconnect_loop rn")
  case True
  with assms show ?thesis by (auto simp: select_step_def tx_inv_def)
next
  case False
  let ?rn1 = "call (Exec ''BEGIN TRANSACTION'') rn"
  from False assms(1) obtain c rn2 where c: "select_call ?rn1 = Some c"
    and rn2: "handle_select asserts ops a (call c ?rn1) = Returns rn2" and rn': "rn' = end_transaction a rn2"
    by (auto simp: select_step_def Let_def bind_outcome_Returns_iff split: option.splits)
  have "transactions (rn_calls (call c ?rn1)) = Some True"
    using assms(2,3) select_call_prepared [OF c] by (auto simp: tx_inv_def call_def tx_step_def)
  from tx_select_handle [OF rn2 this] show ?thesis
    by (auto simp: rn' end_transaction_def tx_inv_def tx_select_def call_def tx_step_def)
qed

lemma tx_inv_step: "runner_step asserts cmdqd_env ops rn rn' \<Longrightarrow> tx_inv rn \<Longrightarrow> tx_inv rn'"
  by (erule runner_stepE) (auto intro: tx_inv_connect tx_inv_select tx_inv_wait)

text \<open>
  C1. In every state a runner can reach, whatever the server answered, its calls are in order:
  no transaction is begun inside of another, commands are selected and updated only inside of
  one, a failed update is remembered only after the rollback, and whenever the runner selects or
  waits no transaction is open.
\<close>

theorem runner_transactions:
  assumes "runner_reaches asserts cmdqd_env ops q rn"
  shows "transactions (rn_calls rn) \<noteq> None \<and>
    (rn_phase rn \<in> {Selecting, Waiting} \<longrightarrow> transactions (rn_calls rn) = Some False)"
  using assms unfolding tx_inv_def [symmetric]
proof (induction rule: runner_reaches.induct)
  case start
  show ?case by (simp add: tx_inv_def runner_init_def)
next
  case (step rn rn')
  then show ?case by (blast intro: tx_inv_step)
qed

section \<open>A run for the witnesses\<close>

definition ok_attempt :: attempt where
  "ok_attempt = \<lparr>at_sig_recv = (\<lambda>_. False), at_status = CONNECTION_OK\<rparr>"

definition text_result :: "exec_status \<Rightarrow> string list \<Rightarrow> string option list list \<Rightarrow> pg_result" where
  "text_result s names rows = \<lparr>res_status = s, res_fnames = names, res_rows = rows, res_error_message = [],
     res_diag = (\<lambda>_. None)\<rparr>"

definition example_queue :: cmd_queue where
  "example_queue = cmd_queue_blank\<lparr>cq_is_valid := True, cq_cmd_class_identity := ''q'',
     cq_queue_reselect_interval_msec := 100\<rparr>"

definition sql_fields :: "string list" where
  "sql_fields = [''cmd_class_identity'', ''cmd_class_relname'', ''cmd_id'', ''cmd_subid'', ''cmd_sql'']"

definition example_connect :: connect_answers where
  "example_connect = \<lparr>cn_attempts = [ok_attempt], cn_session_start = text_result PGRES_COMMAND_OK [] [],
     cn_describe = text_result PGRES_COMMAND_OK sql_fields [], cn_now = 0\<rparr>"

definition example_select :: "sql_answer list select_answers" where
  "example_select = \<lparr>sl_select = text_result PGRES_TUPLES_OK sql_fields
       [[Some ''q'', Some ''q'', Some ''7'', None, Some ''CALL f()'']],
     sl_start_clock = 1000000,
     sl_run = map (\<lambda>s. ([], text_result s [] [])) [PGRES_COMMAND_OK, PGRES_COMMAND_OK, PGRES_COMMAND_OK, PGRES_COMMAND_OK],
     sl_end_clock = 2500000, sl_update = text_result PGRES_COMMAND_OK [] [],
     sl_remember_failed_update = text_result PGRES_COMMAND_OK [] [], sl_now = 1,
     sl_enter_round = text_result PGRES_TUPLES_OK [''reselect_round''] [[Some ''1'']],
     sl_conn = CONNECTION_OK, sl_txn_unknown = False, sl_txn_in_error = False\<rparr>"

definition example_selecting :: runner where
  "example_selecting = (runner_init example_queue)\<lparr>rn_phase := Selecting, rn_conn := Some CONNECTION_OK,
     rn_selected_field_numbers := fnumbers (cn_describe example_connect),
     rn_calls := [session_start_call [] example_queue, Describe_prepared ''select_oldest_cmd'']\<rparr>"

lemma connect_step_example:
  "connect_step [] example_connect (runner_init example_queue) = Returns example_selecting"
  by (simp add: connect_step_def example_connect_def example_selecting_def runner_init_def maintain_connection_def
      ok_attempt_def stop_signals_def call_def text_result_def example_queue_def cmd_queue_blank_def)

lemma example_selecting_reached: "runner_reaches asserts [] sql_ops example_queue example_selecting"
proof (rule runner_reaches.step [OF runner_reaches.start])
  show "runner_step asserts [] sql_ops (runner_init example_queue) example_selecting"
    by (rule runner_step.connect [OF _ connect_step_example]) (simp add: runner_init_def)
qed

theorem runner_transactions_witness: "transactions (rn_calls example_selecting) = Some False"
  using runner_transactions [OF example_selecting_reached] by (auto simp: example_selecting_def)

section \<open>The update\<close>

text \<open>
  What the calls after a select say of the served row: first its \<^verbatim>\<open>UPDATE\<close>, with eight
  parameters that start with the row's own key and the two times, and after a failed one the
  rollback and the note of the failure, under the same key.
\<close>

definition update_calls :: "cmd_meta \<Rightarrow> 'e select_answers \<Rightarrow> sql_call list \<Rightarrow> bool" where
  "update_calls m a calls \<longleftrightarrow>
     (\<exists>params ls fs rest. calls = Exec_prepared ''update_cmd'' params ls fs # rest \<and> length params = 8 \<and>
        length ls \<in> {0, 8} \<and> length fs = length ls \<and>
        take 4 params = [Some (md_cmd_id m), md_cmd_subid m, Some (show_f (unix_timestamp (sl_start_clock a))),
          Some (show_f (unix_timestamp (sl_end_clock a)))] \<and>
        rest = (if res_status (sl_update a) = PGRES_COMMAND_OK then []
          else [Exec ''ROLLBACK TRANSACTION'',
                Exec_params ''CALL cmdqd.remember_failed_update_for_this_reselect_round($1, $2)''
                  [Some (md_cmd_id m), md_cmd_subid m]]))"

lemma update_cmd_simps:
  "rn_calls (update_cmd ops a c rn) = rn_calls rn @
     Exec_prepared ''update_cmd'' (op_update_params ops c) (op_update_param_lengths ops c) (op_update_param_formats ops c) #
     (if res_status (sl_update a) = PGRES_COMMAND_OK then []
      else [Exec ''ROLLBACK TRANSACTION'',
            Exec_params ''CALL cmdqd.remember_failed_update_for_this_reselect_round($1, $2)''
              [Some (md_cmd_id (op_meta ops c)), md_cmd_subid (op_meta ops c)]])"
  "rn_phase (update_cmd ops a c rn) = rn_phase rn"
  by (simp_all add: update_cmd_def Let_def call_def)

context queue_cmd
begin

lemma serve_cmd_update:
  assumes "serve_cmd ops a rn = Returns rn'"
  shows "\<exists>calls. rn_calls rn' = rn_calls rn @ calls \<and>
    update_calls (cmd_meta_of_row (sl_select a) 0 (rn_selected_field_numbers rn)) a calls"
proof -
  let ?m = "cmd_meta_of_row (sl_select a) 0 (rn_selected_field_numbers rn)"
  obtain c0 c1 where c0: "op_of_row ops (sl_select a) 0 (rn_selected_field_numbers rn) = Returns c0"
    and c1: "op_run ops (sl_run a) (cq_queue_cmd_timeout_sec (rn_cmd_queue rn))
      (op_set_meta ops (stamp_start_time (sl_start_clock a) (op_meta ops c0)) c0) = Returns c1"
    using assms by (auto simp: serve_cmd_def bind_outcome_Returns_iff)
  let ?c = "op_set_meta ops (stamp_end_time (sl_end_clock a) (op_meta ops c1)) c1"
  have meta: "op_meta ops ?c = stamp_end_time (sl_end_clock a) (stamp_start_time (sl_start_clock a) ?m)"
    using of_row_meta [OF c0] run_meta [OF c1] by (simp add: set_meta)
  have params: "take 4 (op_update_params ops ?c) =
      [Some (md_cmd_id ?m), md_cmd_subid ?m, Some (show_f (unix_timestamp (sl_start_clock a))),
       Some (show_f (unix_timestamp (sl_end_clock a)))]"
    unfolding params_head meta by (simp add: stamp_start_time_def stamp_end_time_def)
  have key: "md_cmd_id (op_meta ops ?c) = md_cmd_id ?m" "md_cmd_subid (op_meta ops ?c) = md_cmd_subid ?m"
    unfolding meta by (simp_all add: stamp_start_time_def stamp_end_time_def)
  have sizes: "length (op_update_param_lengths ops ?c) \<in> {0, 8}"
    "length (op_update_param_formats ops ?c) = length (op_update_param_lengths ops ?c)"
    using lengths [of ?c] formats [of ?c] params_length [of ?c] by auto
  have "rn' = update_cmd ops a ?c rn" using assms c0 c1 by (simp add: serve_cmd_def)
  then show ?thesis
    using params sizes params_length [of ?c]
    by (simp only: update_cmd_simps key) (simp add: update_calls_def)
qed

lemma select_step_update:
  assumes "select_step asserts ops a rn = Returns rn'" and "rn_keep_running rn"
    and "\<not> rn_go_back_to_reconnect_loop rn" and "res_status (sl_select a) = PGRES_TUPLES_OK"
    and "ntuples (sl_select a) = 1" and "rn_phase rn = Selecting"
  shows "\<exists>c calls last. rn_calls rn' = rn_calls rn @ [Exec ''BEGIN TRANSACTION'', c] @ calls @ last \<and>
    update_calls (cmd_meta_of_row (sl_select a) 0 (rn_selected_field_numbers rn)) a calls \<and>
    last = (if sl_txn_unknown a then []
      else if sl_txn_in_error a then [Exec ''ROLLBACK TRANSACTION''] else [Exec ''COMMIT TRANSACTION''])"
proof -
  let ?rn1 = "call (Exec ''BEGIN TRANSACTION'') rn"
  from assms obtain c rn2 where c: "select_call ?rn1 = Some c"
    and rn2: "serve_cmd ops a (call c ?rn1) = Returns rn2" and rn': "rn' = end_transaction a rn2"
    by (auto simp: select_step_def Let_def bind_outcome_Returns_iff handle_select_def split: option.splits)
  from serve_cmd_update [OF rn2] obtain calls where calls: "rn_calls rn2 = rn_calls (call c ?rn1) @ calls"
    and upd: "update_calls (cmd_meta_of_row (sl_select a) 0 (rn_selected_field_numbers rn)) a calls"
    by (auto simp: call_def)
  have "rn_phase rn2 = Selecting"
    using rn2 assms(6) by (auto simp: serve_cmd_def bind_outcome_Returns_iff call_def update_cmd_simps)
  then have "rn_calls rn' = rn_calls rn @ [Exec ''BEGIN TRANSACTION'', c] @ calls @
      (if sl_txn_unknown a then []
       else if sl_txn_in_error a then [Exec ''ROLLBACK TRANSACTION''] else [Exec ''COMMIT TRANSACTION''])"
    by (simp add: rn' end_transaction_def calls call_def)
  with upd show ?thesis by blast
qed

end

text \<open>
  C2. A runner of a \<^verbatim>\<open>nix_queue_cmd\<close> queue that gets a row serves exactly that row: between
  the begin and the end of one transaction it sends one \<^verbatim>\<open>UPDATE\<close>, under the \<open>cmd_id\<close>
  and \<open>cmd_subid\<close> of the row it selected, with eight parameters that carry the two times stamped
  around the run; a failed one is rolled back and remembered under the same key.
\<close>

theorem nix_runner_updates_selected_row:
  assumes "rn_keep_running rn" and "\<not> rn_go_back_to_reconnect_loop rn" and "rn_phase rn = Selecting"
    and "res_status (sl_select a) = PGRES_TUPLES_OK" and "ntuples (sl_select a) = 1"
    and "select_step asserts (nix_ops asserts) a rn = Returns rn'"
  shows "\<exists>c calls fin. rn_calls rn' = rn_calls rn @ [Exec ''BEGIN TRANSACTION'', c] @ calls @ fin \<and>
    update_calls (cmd_meta_of_row (sl_select a) 0 (rn_selected_field_numbers rn)) a calls \<and>
    fin = (if sl_txn_unknown a then []
      else if sl_txn_in_error a then [Exec ''ROLLBACK TRANSACTION''] else [Exec ''COMMIT TRANSACTION''])"
  by (rule nix_queue.select_step_update [OF assms(6,1,2,4,5,3)])

text \<open>A row of a nix queue, and its run.\<close>

definition nix_fields :: "string list" where
  "nix_fields = [''cmd_class_identity'', ''cmd_class_relname'', ''cmd_id'', ''cmd_subid'', ''cmd_argv'',
     ''cmd_env'', ''cmd_stdin'']"

definition nix_row :: "string \<Rightarrow> string \<Rightarrow> string \<Rightarrow> pg_result" where
  "nix_row argv env stdin = text_result PGRES_TUPLES_OK nix_fields
     [[Some ''q'', Some ''q'', Some ''7'', None, Some argv, Some env, Some stdin]]"

definition forkless_env :: nix_env where
  "forkless_env = \<lparr>ne_strerror = (\<lambda>_. ''e''), ne_strsignal = show_int,
     ne_start = example_start\<lparr>sa_fork := Inl EAGAIN\<rparr>, ne_turns = [], ne_last_wait = Not_yet,
     ne_closes = (\<lambda>_. [None]), ne_sigmask = {}\<rparr>"

definition nix_select :: "nix_env select_answers" where
  "nix_select = \<lparr>sl_select = nix_row ''{cat}'' [] [], sl_start_clock = 1000000, sl_run = forkless_env,
     sl_end_clock = 2500000, sl_update = text_result PGRES_FATAL_ERROR [] [],
     sl_remember_failed_update = text_result PGRES_COMMAND_OK [] [], sl_now = 1,
     sl_enter_round = text_result PGRES_TUPLES_OK [''reselect_round''] [[Some ''1'']],
     sl_conn = CONNECTION_OK, sl_txn_unknown = False, sl_txn_in_error = False\<rparr>"

definition nix_selecting :: runner where
  "nix_selecting = example_selecting\<lparr>rn_selected_field_numbers := fnumbers (nix_row [] [] [])\<rparr>"

lemma nix_row_has:
  "row_has (nix_row argv env stdin) 0 (fnumbers (nix_row [] [] [])) ''cmd_argv'' (Some argv)"
  "row_has (nix_row argv env stdin) 0 (fnumbers (nix_row [] [] [])) ''cmd_env'' (Some env)"
  "row_has (nix_row argv env stdin) 0 (fnumbers (nix_row [] [] [])) ''cmd_stdin'' (Some stdin)"
  by (simp_all add: row_has_def nix_row_def text_result_def nix_fields_def fnumbers_def cell_exists_def)

lemma nix_row_argv: "text_array_value asserts ''{cat}'' = Inr [''cat'']"
  using from_text_array_text [of "[(False, ''cat'')]" asserts]
  by (simp add: text_array_value_def array_text_def array_element_def parsable_element_def plain_element_def
      strip_backslashes_def)

lemma nix_row_env: "bind_exn (from_text_hstore []) throw_if_missing_any_value = Inr []"
  using from_text_hstore_text [of "[]" "[]"] by (simp add: separator_def)

lemma nix_row_valid: "nix_cmd_of_row asserts (nix_row ''{cat}'' [] []) 0 (fnumbers (nix_row [] [] [])) =
    Inr ((nix_cmd_blank (cmd_meta_of_row (nix_row ''{cat}'' [] []) 0 (fnumbers (nix_row [] [] []))))
      \<lparr>nx_cmd_argv := [''cat''], nx_is_valid := True\<rparr>)"
  using nix_cmd_of_row_ok [OF nix_row_has, of asserts "''{cat}''" "[''cat'']" "[]" "[]" "[]"] nix_row_argv nix_row_env
  by (simp add: c_string_def nix_cmd_blank_def)

lemma nix_run_forkless: "\<exists>c'. nix_run forkless_env timeout c = Returns c'"
  by (simp add: nix_run_def forkless_env_def example_defs run_defs del: write_stdin.simps)

lemma nix_row_simps [simp]: "res_status (nix_row argv env stdin) = PGRES_TUPLES_OK" "ntuples (nix_row argv env stdin) = 1"
  by (simp_all add: nix_row_def text_result_def ntuples_def)

lemma nix_serve:
  assumes "rn_selected_field_numbers rn = fnumbers (nix_row [] [] [])"
  shows "\<exists>rn'. serve_cmd (nix_ops asserts) nix_select rn = Returns rn'"
proof -
  have "\<exists>y. bind_outcome (nix_run forkless_env t c) (\<lambda>c. Returns (f c)) = Returns y" for t c and f :: "nix_cmd \<Rightarrow> runner"
    using nix_run_forkless [of t c] by auto
  then show ?thesis
    using assms nix_row_valid [of asserts] by (simp add: serve_cmd_def nix_ops_def nix_select_def)
qed

lemma nix_select_step:
  obtains rn' where "select_step asserts (nix_ops asserts) nix_select nix_selecting = Returns rn'"
proof -
  let ?rn = "call (Exec_prepared ''select_oldest_cmd'' [] [] []) (call (Exec ''BEGIN TRANSACTION'') nix_selecting)"
  have "rn_selected_field_numbers ?rn = fnumbers (nix_row [] [] [])" by (simp add: nix_selecting_def call_def)
  from nix_serve [OF this, of asserts] obtain rn2 where "serve_cmd (nix_ops asserts) nix_select ?rn = Returns rn2"
    by blast
  moreover have "select_call (call (Exec ''BEGIN TRANSACTION'') nix_selecting) =
      Some (Exec_prepared ''select_oldest_cmd'' [] [] [])"
    by (simp add: select_call_def nix_selecting_def example_selecting_def runner_init_def call_def
        example_queue_def cmd_queue_blank_def)
  moreover have "rn_keep_running nix_selecting" "\<not> rn_go_back_to_reconnect_loop nix_selecting"
    by (simp_all add: nix_selecting_def example_selecting_def runner_init_def)
  ultimately show thesis
    using that by (simp add: select_step_def handle_select_def) (simp add: nix_select_def)
qed

theorem nix_runner_updates_selected_row_witness:
  "\<exists>rn' c calls fin. select_step True (nix_ops True) nix_select nix_selecting = Returns rn' \<and>
    rn_calls rn' = rn_calls nix_selecting @ [Exec ''BEGIN TRANSACTION'', c] @ calls @ fin \<and>
    update_calls (cmd_meta_of_row (nix_row ''{cat}'' [] []) 0 (fnumbers (nix_row [] [] []))) nix_select calls"
proof -
  obtain rn' where r: "select_step True (nix_ops True) nix_select nix_selecting = Returns rn'"
    by (rule nix_select_step)
  have "rn_keep_running nix_selecting" "\<not> rn_go_back_to_reconnect_loop nix_selecting" "rn_phase nix_selecting = Selecting"
    "res_status (sl_select nix_select) = PGRES_TUPLES_OK" "ntuples (sl_select nix_select) = 1"
    by (simp_all add: nix_selecting_def example_selecting_def runner_init_def nix_select_def)
  from nix_runner_updates_selected_row [OF this r] r show ?thesis
    by (auto simp: nix_select_def nix_selecting_def)
qed

text \<open>
  The same for a runner of an \<^verbatim>\<open>sql_queue_cmd\<close> queue: one \<^verbatim>\<open>UPDATE\<close>, of the selected
  row, in the transaction of its select.
\<close>

theorem sql_runner_updates_selected_row:
  assumes "rn_keep_running rn" and "\<not> rn_go_back_to_reconnect_loop rn" and "rn_phase rn = Selecting"
    and "res_status (sl_select a) = PGRES_TUPLES_OK" and "ntuples (sl_select a) = 1"
    and "select_step asserts sql_ops a rn = Returns rn'"
  shows "\<exists>c calls fin. rn_calls rn' = rn_calls rn @ [Exec ''BEGIN TRANSACTION'', c] @ calls @ fin \<and>
    update_calls (cmd_meta_of_row (sl_select a) 0 (rn_selected_field_numbers rn)) a calls \<and>
    fin = (if sl_txn_unknown a then []
      else if sl_txn_in_error a then [Exec ''ROLLBACK TRANSACTION''] else [Exec ''COMMIT TRANSACTION''])"
  by (rule sql_queue.select_step_update [OF assms(6,1,2,4,5,3)])

lemma sql_run_ok: "\<exists>r. sql_run_cmd (sl_run example_select) c = Returns r"
  by (simp add: example_select_def sql_run_cmd_def sql_phase_defs sql_run_init_def sql_exec_def text_result_def)

lemma sql_select_step: "\<exists>rn'. select_step asserts sql_ops example_select example_selecting = Returns rn'"
proof -
  have "\<exists>y. bind_outcome (bind_outcome (sql_run_cmd (sl_run example_select) c) (\<lambda>r. Returns (sr_cmd r)))
      (\<lambda>c. Returns (f c)) = Returns y"
    for c and f :: "sql_cmd \<Rightarrow> runner"
    using sql_run_ok [of c] by auto
  then have "\<exists>rn'. serve_cmd sql_ops example_select rn = Returns rn'" for rn
    by (simp add: serve_cmd_def sql_ops_def)
  then obtain rn2 where "serve_cmd sql_ops example_select
      (call (Exec_prepared ''select_oldest_cmd'' [] [] []) (call (Exec ''BEGIN TRANSACTION'') example_selecting)) = Returns rn2"
    by blast
  moreover have "select_call (call (Exec ''BEGIN TRANSACTION'') example_selecting) =
      Some (Exec_prepared ''select_oldest_cmd'' [] [] [])"
    by (simp add: select_call_def example_selecting_def runner_init_def call_def example_queue_def cmd_queue_blank_def)
  moreover have "rn_keep_running example_selecting" "\<not> rn_go_back_to_reconnect_loop example_selecting"
    by (simp_all add: example_selecting_def runner_init_def)
  moreover have "res_status (sl_select example_select) = PGRES_TUPLES_OK" "ntuples (sl_select example_select) = 1"
    by (simp_all add: example_select_def text_result_def ntuples_def)
  ultimately show ?thesis by (simp add: select_step_def handle_select_def)
qed

theorem sql_runner_updates_selected_row_witness:
  "\<exists>rn' c calls fin. select_step True sql_ops example_select example_selecting = Returns rn' \<and>
    rn_calls rn' = rn_calls example_selecting @ [Exec ''BEGIN TRANSACTION'', c] @ calls @ fin \<and>
    update_calls (cmd_meta_of_row (sl_select example_select) 0 (fnumbers (cn_describe example_connect))) example_select calls"
proof -
  obtain rn' where r: "select_step True sql_ops example_select example_selecting = Returns rn'"
    using sql_select_step by blast
  have "rn_keep_running example_selecting" "\<not> rn_go_back_to_reconnect_loop example_selecting"
    "rn_phase example_selecting = Selecting" "rn_selected_field_numbers example_selecting = fnumbers (cn_describe example_connect)"
    "res_status (sl_select example_select) = PGRES_TUPLES_OK" "ntuples (sl_select example_select) = 1"
    by (simp_all add: example_selecting_def runner_init_def example_select_def text_result_def ntuples_def)
  with sql_runner_updates_selected_row [OF this(1-3,5,6) r] r show ?thesis by auto
qed

section \<open>Notifications\<close>

text \<open>The three fields a notification should have, in the text of a composite value.\<close>

definition is_quoted :: "composite_field \<Rightarrow> bool" where
  "is_quoted f \<longleftrightarrow> (\<exists>b. f = Quoted_field b)"

lemma parse_notify_three:
  assumes "readable_composite [f0, f1, f2]"
  shows "parse_notify_payload asserts (composite_text [f0, f1, f2]) =
    Inr (case (f0, f1) of
      (Plain_field cmd_class, Plain_field cmd_id) \<Rightarrow>
        (case f2 of Null_field \<Rightarrow> Some (cmd_class, cmd_id, None)
         | Plain_field cmd_subid \<Rightarrow> Some (cmd_class, cmd_id, Some cmd_subid)
         | Quoted_field b \<Rightarrow> None)
    | _ \<Rightarrow> None)"
proof -
  have "from_text_composite_value asserts (composite_text [f0, f1, f2]) = Inr (concat (map read_field [f0, f1, f2]))"
    using composite_format.parse_print [OF assms] .
  moreover have "f0 \<noteq> Null_field" using assms by (simp add: readable_composite_def)
  ultimately show ?thesis
    by (cases f0; cases f1; cases f2) (simp_all add: parse_notify_payload_def)
qed


definition wait_for_notify :: "string \<Rightarrow> wait_answers" where
  "wait_for_notify payload = \<lparr>wt_notify = Some payload, wt_now = 0, wt_poll = Inr (False, False),
     wt_consume_input = True, wt_kill_reads = []\<rparr>"


section \<open>The end of a runner\<close>

fun loops_left :: "phase \<Rightarrow> nat" where
  "loops_left Waiting = 3"
| "loops_left Selecting = 2"
| "loops_left Connecting = 1"
| "loops_left Gone = 0"

lemma stopping_step:
  assumes "runner_step asserts cmdqd_env ops rn rn'" and "\<not> rn_keep_running rn"
  shows "rn_calls rn' = rn_calls rn \<and> \<not> rn_keep_running rn' \<and>
    loops_left (rn_phase rn) = Suc (loops_left (rn_phase rn')) \<and>
    (rn_phase rn' = Gone \<longrightarrow> \<not> rn_running rn')"
  using assms
  by (auto elim!: runner_stepE simp: connect_step_def select_step_def wait_step_def exit_runner_def)

lemma stopping_progress:
  assumes "\<not> rn_keep_running rn" and "rn_phase rn \<noteq> Gone"
  shows "\<exists>rn'. runner_step asserts cmdqd_env ops rn rn'"
proof (cases "rn_phase rn")
  case Connecting
  with assms show ?thesis by (auto intro!: runner_step.connect simp: connect_step_def)
next
  case Selecting
  with assms show ?thesis by (auto intro!: runner_step.select simp: select_step_def)
next
  case Waiting
  with assms show ?thesis by (auto intro!: runner_step.wait simp: wait_step_def)
qed (use assms in simp)

text \<open>
  A runner that was told to stop comes to its end by itself, from whatever loop it is in: it
  leaves one loop per step, calls the server no more, and after the outermost loop it is marked
  as no longer running.
\<close>

theorem stopping_runner_exits:
  assumes "\<not> rn_keep_running rn" and "rn_phase rn \<noteq> Gone"
  shows "\<exists>rn'. (runner_step asserts cmdqd_env ops ^^ loops_left (rn_phase rn)) rn rn' \<and>
    rn_phase rn' = Gone \<and> \<not> rn_running rn' \<and> rn_calls rn' = rn_calls rn"
  using assms
proof (induction "loops_left (rn_phase rn)" arbitrary: rn)
  case 0
  then show ?case by (cases "rn_phase rn") simp_all
next
  case (Suc n)
  obtain rn1 where step: "runner_step asserts cmdqd_env ops rn rn1"
    using stopping_progress [OF Suc.prems] by blast
  note after = stopping_step [OF step Suc.prems(1)]
  show ?case
  proof (cases "rn_phase rn1 = Gone")
    case True
    with after have "loops_left (rn_phase rn) = 1" by simp
    with step have "(runner_step asserts cmdqd_env ops ^^ loops_left (rn_phase rn)) rn rn1"
      by (simp only: relpowp_1)
    with True after show ?thesis by blast
  next
    case False
    have "n = loops_left (rn_phase rn1)" using Suc.hyps(2) after by simp
    from Suc.hyps(1) [OF this] after False obtain rn2 where
      "(runner_step asserts cmdqd_env ops ^^ loops_left (rn_phase rn1)) rn1 rn2"
      "rn_phase rn2 = Gone" "\<not> rn_running rn2" "rn_calls rn2 = rn_calls rn1"
      by blast
    moreover from step this(1) after have "(runner_step asserts cmdqd_env ops ^^ loops_left (rn_phase rn)) rn rn2"
      by (metis relpowp_Suc_I2)
    ultimately show ?thesis using after by auto
  qed
qed

theorem stopping_runner_exits_witness:
  "\<exists>rn'. (runner_step True [] sql_ops ^^ 2) (example_selecting\<lparr>rn_keep_running := False\<rparr>) rn' \<and>
    rn_phase rn' = Gone \<and> \<not> rn_running rn'"
  using stopping_runner_exits [of "example_selecting\<lparr>rn_keep_running := False\<rparr>" True "[]" sql_ops]
  by (auto simp: example_selecting_def eval_nat_numeral)

text \<open>
  C17. A signal passed to a running runner by \<^verbatim>\<open>kill()\<close> stops it: the four bytes go through
  the pipe in one piece and the next \<^verbatim>\<open>poll()\<close> ends the loops.  But a second signal that is
  in the pipe before the first was read is written past the variable it is read into, and a
  signal for a runner whose thread has not yet started is lost.
\<close>

theorem kill_stops_runner:
  assumes "rn_keep_running rn" and "wt_notify a = None" and "wt_poll a = Inr (conn_ready, True)"
    and "conn_ready \<longrightarrow> wt_consume_input a" and "length s = 4"
  shows "(rn_running rn \<longrightarrow> kill_runner [Wrote 4, Wrote 0] rn = Returns 4) \<and>
    (wt_kill_reads a = [Got s, Read_error EAGAIN] \<longrightarrow>
      wait_step asserts a rn = Returns (rn\<lparr>rn_notify_cmd := None, rn_keep_running := False\<rparr>)) \<and>
    (\<forall>s'. s' \<noteq> [] \<longrightarrow> wt_kill_reads a = [Got s, Got s', Read_error EAGAIN] \<longrightarrow>
      wait_step asserts a rn = Undefined) \<and>
    (\<not> rn_running rn \<longrightarrow> kill_runner [Wrote 4, Wrote 0] rn = Returns 0)"
proof -
  have "s \<noteq> []" using assms(5) by auto
  then show ?thesis
    using assms by (auto simp: kill_runner_def wait_step_def on_kill_pipe_def)
qed

definition killed_answers :: "read_result list \<Rightarrow> wait_answers" where
  "killed_answers reads = \<lparr>wt_notify = None, wt_now = 0, wt_poll = Inr (False, True),
     wt_consume_input = True, wt_kill_reads = reads\<rparr>"

theorem kill_stops_runner_witness:
  "wait_step True (killed_answers [Got ''abcd'', Read_error EAGAIN]) example_selecting =
     Returns (example_selecting\<lparr>rn_notify_cmd := None, rn_keep_running := False\<rparr>) \<and>
   wait_step True (killed_answers [Got ''abcd'', Got ''efgh'', Read_error EAGAIN]) example_selecting = Undefined"
  using kill_stops_runner [of example_selecting "killed_answers [Got ''abcd'', Read_error EAGAIN]" False "''abcd''" True]
    kill_stops_runner [of example_selecting "killed_answers [Got ''abcd'', Got ''efgh'', Read_error EAGAIN]" False "''abcd''" True]
  by (simp add: killed_answers_def example_selecting_def runner_init_def)

text \<open>
  A runner whose round could not be entered is gone, but not marked so; one that selects before
  any connection was made, because a stop signal came first, dereferences a null pointer.
\<close>

lemma gone_but_running:
  assumes "rn_notify_cmd rn = None" and "res_status (sl_enter_round a) \<noteq> PGRES_TUPLES_OK" and "rn_running rn"
  shows "\<exists>rn'. no_cmd a rn = Returns rn' \<and> rn_phase rn' = Gone \<and> rn_running rn'"
  using assms by (simp add: no_cmd_def Let_def call_def)

lemma stopped_before_connecting:
  assumes "stop_requested x"
  shows "connect_step cmdqd_env (a\<lparr>cn_attempts := x # as\<rparr>) (runner_init q) = Undefined"
  using assms by (simp add: connect_step_def runner_init_def maintain_connection_def sig_num_received_stop [symmetric])

text \<open>A round number beyond the range of \<^verbatim>\<open>int\<close> is an uncaught exception.\<close>

lemma round_out_of_range:
  assumes "rn_notify_cmd rn = None" and "res_status (sl_enter_round a) = PGRES_TUPLES_OK"
    and "bind_exn (getvalue (sl_enter_round a) 0 0) stoi = Inl f"
  shows "no_cmd a rn = Dies f"
  using assms by (simp add: no_cmd_def Let_def call_def)

end
