(* ===== verification/DaemonProps.thy ===== *)
theory DaemonProps
  imports Daemon RunnerProps
begin

text \<open>
  What the daemon keeps to: which runners there are and for which queues, what a refresh of the
  list of queues amounts to, when it dies, and how the daemon comes to an end.
\<close>

section \<open>The contract of a thread\<close>

locale thread_contract =
  fixes asserts :: bool and cmdqd_env :: "(string \<times> string) list" and P :: "kind \<Rightarrow> string \<Rightarrow> thread \<Rightarrow> bool"
  assumes start: "cq_is_valid q \<Longrightarrow> kind_of q = Some k \<Longrightarrow> sigset_masked_in_runner_threads \<subseteq> sigmask
      \<Longrightarrow> P k (cq_cmd_class_identity q) (new_thread sigmask q)"
    and kill: "P k c th \<Longrightarrow> P k c (th\<lparr>th_kill_pipe := p\<rparr>)"
    and step: "P k c th \<Longrightarrow> thread_step asserts cmdqd_env k th th' \<Longrightarrow> P k c th'"
begin

lemma evolution:
  "evolves asserts cmdqd_env mg0 mg \<Longrightarrow> (\<And>c k th. served mg0 c = Some (k, th) \<Longrightarrow> P k c th)
    \<Longrightarrow> served mg c = Some (k, th) \<Longrightarrow> P k c th"
proof (induction arbitrary: c k th rule: evolves.induct)
  case (same mg1 mg')
  then show ?case by (metis served_cong)
next
  case (add mg1 q k1 sigmask mg')
  have "served mg' = (served mg1)(cq_cmd_class_identity q \<mapsto> (k1, new_thread sigmask q))"
    using add.hyps by (cases k1) (auto simp: served_def fun_eq_iff map_of_append map_add_def split: option.splits)
  with add show ?case by (auto intro: start split: if_splits)
next
  case (change mg1 c1 k1 th1 th1' p mg')
  have "served mg' = served (set_thread k1 c1 th1' mg1)" using change.hyps by (intro served_cong)
  with change show ?case by (auto simp: served_set_thread intro: kill step split: if_splits)
qed

lemma daemon:
  assumes "daemon_reaches asserts what cmdqd_env dm" and "served (dm_manager dm) c = Some (k, th)"
  shows "P k c th"
proof -
  obtain emit explicit sigmask where
    ev: "evolves asserts cmdqd_env (make_instance emit explicit sigmask) (dm_manager dm)"
    using daemon_keeps_shape [OF assms(1)] by (auto simp: keeps_shape_def)
  show ?thesis
    by (rule evolution [OF ev _ assms(2)]) (simp add: served_def make_instance_def)
qed

end

text \<open>The runner is for the queue of its key and of the kind of its template.\<close>

definition belongs :: "kind \<Rightarrow> string \<Rightarrow> thread \<Rightarrow> bool" where
  "belongs k c th \<longleftrightarrow> cq_cmd_class_identity (th_cmd_queue th) = c \<and> cq_is_valid (th_cmd_queue th) \<and>
     kind_of (th_cmd_queue th) = Some k \<and> sigset_masked_in_runner_threads \<subseteq> th_sigmask th"

interpretation belonging: thread_contract asserts cmdqd_env belongs for asserts cmdqd_env
  by unfold_locales (auto simp: belongs_def new_thread_def elim!: thread_stepE)

text \<open>A thread that has begun is in a state that its runner can reach.\<close>

definition runs :: "bool \<Rightarrow> (string \<times> string) list \<Rightarrow> kind \<Rightarrow> string \<Rightarrow> thread \<Rightarrow> bool" where
  "runs asserts cmdqd_env k c th \<longleftrightarrow>
     (case th_run th of
        None \<Rightarrow> True
      | Some rn \<Rightarrow>
          (case k of
             Nix \<Rightarrow> runner_reaches asserts cmdqd_env (nix_ops asserts) (th_cmd_queue th) rn
           | Sql \<Rightarrow> runner_reaches asserts cmdqd_env sql_ops (th_cmd_queue th) rn))"

interpretation running: thread_contract asserts cmdqd_env "runs asserts cmdqd_env" for asserts cmdqd_env
proof
  fix k c th th'
  assume "runs asserts cmdqd_env k c th" and "thread_step asserts cmdqd_env k th th'"
  then show "runs asserts cmdqd_env k c th'"
    by (cases k) (auto simp: runs_def elim!: thread_stepE intro: runner_reaches.intros)
qed (auto simp: runs_def new_thread_def split: option.split kind.split)

section \<open>The runners of the daemon\<close>

lemma connect_step_queue: "connect_step cmdqd_env a rn = Returns rn' \<Longrightarrow> rn_cmd_queue rn' = rn_cmd_queue rn"
  by (auto simp: connect_step_def bind_outcome_Returns_iff Let_def call_def exit_runner_def split: if_splits)

lemma update_cmd_queue [simp]: "rn_cmd_queue (update_cmd ops a c rn) = rn_cmd_queue rn"
  by (simp add: update_cmd_def call_def Let_def)

lemma end_transaction_queue [simp]: "rn_cmd_queue (end_transaction a rn) = rn_cmd_queue rn"
  by (simp add: end_transaction_def call_def)

lemma handle_select_queue: "handle_select asserts ops a rn = Returns rn' \<Longrightarrow> rn_cmd_queue rn' = rn_cmd_queue rn"
  by (auto simp: handle_select_def serve_cmd_def no_cmd_def bind_outcome_Returns_iff Let_def call_def
      split: if_splits sum.splits)

lemma select_step_queue: "select_step asserts ops a rn = Returns rn' \<Longrightarrow> rn_cmd_queue rn' = rn_cmd_queue rn"
  by (auto simp: select_step_def bind_outcome_Returns_iff Let_def call_def
      split: if_splits option.splits dest!: handle_select_queue)

lemma wait_step_queue: "wait_step asserts a rn = Returns rn' \<Longrightarrow> rn_cmd_queue rn' = rn_cmd_queue rn"
  by (auto simp: wait_step_def Let_def on_notify_def on_kill_pipe_def exit_runner_def
      split: option.splits sum.splits if_splits kill_read.splits)

lemma runner_reaches_queue: "runner_reaches asserts cmdqd_env ops q rn \<Longrightarrow> rn_cmd_queue rn = q"
  by (induction rule: runner_reaches.induct)
    (auto simp: runner_init_def elim!: runner_stepE dest: connect_step_queue select_step_queue wait_step_queue)

lemma runner_reaches_tx: "runner_reaches asserts cmdqd_env ops q rn \<Longrightarrow> tx_inv rn"
proof (induction rule: runner_reaches.induct)
  case start
  show ?case by (simp add: tx_inv_def runner_init_def)
next
  case (step rn rn')
  then show ?case by (blast intro: tx_inv_step)
qed


section \<open>A run for the witnesses\<close>

definition queue_fields :: "string list" where
  "queue_fields = [''cmd_class_identity'', ''cmd_class_relname'', ''cmd_signature_class_relname'',
     ''queue_runner_role'', ''queue_notify_channel'', ''queue_reselect_interval_msec'',
     ''queue_reselect_randomized_every_nth'', ''queue_cmd_timeout_sec'', ''ansi_fg'']"

definition queue_row :: "string \<Rightarrow> string \<Rightarrow> string option list" where
  "queue_row ident template = [Some ident, Some ''q'', Some template, None, None, Some ''100'', None, None, None]"

definition queue_result :: "(string \<times> string) list \<Rightarrow> pg_result" where
  "queue_result rows = text_result PGRES_TUPLES_OK queue_fields (map (\<lambda>(i, t). queue_row i t) rows)"

definition queue_from :: "string \<Rightarrow> string \<Rightarrow> cmd_queue" where
  "queue_from ident template = \<lparr>cq_is_valid = True, cq_validation_error_message = [],
     cq_cmd_class_identity = c_string ident, cq_cmd_class_relname = ''q'', cq_cmd_signature_class_relname = c_string template,
     cq_queue_runner_role = None, cq_queue_notify_channel = None, cq_queue_reselect_interval_msec = 100,
     cq_queue_reselect_randomized_every_nth = None, cq_queue_cmd_timeout_sec = 0, cq_ansi_fg = []\<rparr>"

lemma stoi_100: "stoi (c_string ''100'') = Inr 100"
  by code_simp

lemma queue_row_has:
  assumes "i < length rows" and "rows ! i = (ident, template)"
  shows "row_has (queue_result rows) i (fnumbers (queue_result rows)) ''cmd_class_identity'' (Some ident)"
    and "row_has (queue_result rows) i (fnumbers (queue_result rows)) ''cmd_class_relname'' (Some ''q'')"
    and "row_has (queue_result rows) i (fnumbers (queue_result rows)) ''cmd_signature_class_relname'' (Some template)"
    and "row_has (queue_result rows) i (fnumbers (queue_result rows)) ''queue_runner_role'' None"
    and "row_has (queue_result rows) i (fnumbers (queue_result rows)) ''queue_notify_channel'' None"
    and "row_has (queue_result rows) i (fnumbers (queue_result rows)) ''queue_reselect_interval_msec'' (Some ''100'')"
    and "row_has (queue_result rows) i (fnumbers (queue_result rows)) ''queue_reselect_randomized_every_nth'' None"
    and "row_has (queue_result rows) i (fnumbers (queue_result rows)) ''queue_cmd_timeout_sec'' None"
    and "row_has (queue_result rows) i (fnumbers (queue_result rows)) ''ansi_fg'' None"
  using assms
  by (simp_all add: row_has_def cell_exists_def fnumbers_def queue_result_def text_result_def queue_fields_def queue_row_def)

lemma cmd_queue_of_example_row:
  assumes "i < length rows" and "rows ! i = (ident, template)"
  shows "cmd_queue_of_row what (queue_result rows) i (fnumbers (queue_result rows)) = queue_from ident template"
  using cmd_queue_of_row_ok [OF queue_row_has [OF assms] stoi_100, where what = what]
  by (simp add: queue_from_def c_string_def)

lemma queues_of_example [simp]: "queues_of what (queue_result rows) = map (\<lambda>(i, t). queue_from i t) rows"
proof (rule nth_equalityI)
  show "length (queues_of what (queue_result rows)) = length (map (\<lambda>(i, t). queue_from i t) rows)"
    by (simp add: queues_of_def queue_result_def text_result_def ntuples_def)
  fix i
  assume "i < length (queues_of what (queue_result rows))"
  then have "i < length rows" by (simp add: queues_of_def queue_result_def text_result_def ntuples_def)
  then show "queues_of what (queue_result rows) ! i = map (\<lambda>(i, t). queue_from i t) rows ! i"
    using cmd_queue_of_example_row [of i rows "fst (rows ! i)" "snd (rows ! i)" what]
    by (simp add: queues_of_def queue_result_def text_result_def ntuples_def case_prod_beta)
qed

lemma queue_result_status [simp]: "res_status (queue_result rows) = PGRES_TUPLES_OK"
  by (simp add: queue_result_def text_result_def)

lemma queue_from_simps [simp]:
  "cq_is_valid (queue_from i t)"
  "cq_cmd_class_identity (queue_from i t) = c_string i"
  "kind_of (queue_from i ''nix_queue_cmd_template'') = Some Nix"
  "kind_of (queue_from i ''sql_queue_cmd_template'') = Some Sql"
  by (simp_all add: queue_from_def kind_of_def c_string_def)

definition quiet :: "signal \<Rightarrow> bool" where "quiet s = False"

definition refresh_with :: "pg_result \<Rightarrow> refresh_answers" where
  "refresh_with res = \<lparr>ra_attempts = [\<lparr>sa_result = res, sa_sig_recv = quiet\<rparr>], ra_spawn = (\<lambda>_. None),
     ra_writes = (\<lambda>_. [Wrote 4, Wrote 0])\<rparr>"

lemma fits_example: "fits (\<lambda>_. [Wrote 4, Wrote 0])"
  by (simp add: fits_def)

definition example_manager :: manager where
  "example_manager = (make_instance False [] {})
     \<lparr>mg_sql_cmd_queue_runners := [(''q'', new_thread {SIGTERM, SIGINT} (queue_from ''q'' ''sql_queue_cmd_template''))],
      mg_old_cmd_classes := [''q''], mg_new_cmd_classes := [''q''], mg_conn := Some CONNECTION_OK,
      mg_calls := [select_queues_call []]\<rparr>"

lemma example_refresh:
  "refresh_queue_list what False (refresh_with (queue_result [(''q'', ''sql_queue_cmd_template'')]))
     ((make_instance False [] {})\<lparr>mg_conn := Some CONNECTION_OK\<rparr>) = Returns (example_manager, [])"
  by (simp add: refresh_queue_list_def refresh_with_def manager_call_def example_manager_def make_instance_def
      refresh_rows_Cons ensure_runner_def queue_has_runner_already_def add_runner_eq kind_of_def queue_from_def
      c_string_def sigset_masked_in_runner_threads_def new_thread_def insort_insert_insort del: refresh_rows.simps(2))

definition example_daemon :: daemon where
  "example_daemon = \<lparr>dm_phase = Before_listening, dm_manager = example_manager\<rparr>"

lemma example_daemon_reached: "daemon_reaches asserts what cmdqd_env example_daemon"
proof -
  let ?mg = "make_instance False [] {}"
  have "maintain_connection [ok_attempt] (mg_conn ?mg) False = Returns (Some CONNECTION_OK, [])"
    by (simp add: make_instance_def maintain_connection_def ok_attempt_def stop_signals_def)
  then have "daemon_reaches asserts what cmdqd_env
      \<lparr>dm_phase = Before_refresh, dm_manager = ?mg\<lparr>mg_conn := Some CONNECTION_OK\<rparr>\<rparr>"
    using daemon_reaches.start [of asserts what cmdqd_env False "[]" "{}"]
    unfolding daemon_init_def by (rule daemon_reaches.step [rotated, OF daemon_step.connect])
  moreover have "mg_conn (?mg\<lparr>mg_conn := Some CONNECTION_OK\<rparr>) \<noteq> None" by simp
  ultimately show ?thesis
    unfolding example_daemon_def
    by (blast intro: daemon_reaches.step daemon_step.refresh example_refresh)
qed

lemma example_manager_simps [simp]:
  "served example_manager = [''q'' \<mapsto> (Sql, new_thread {SIGTERM, SIGINT} (queue_from ''q'' ''sql_queue_cmd_template''))]"
  "mg_keep_running example_manager" "mg_sigmask example_manager = {}" "mg_old_cmd_classes example_manager = [''q'']"
  by (auto simp: example_manager_def make_instance_def served_def fun_eq_iff)


section \<open>Refreshing the list of queues\<close>

text \<open>
  C7. Refinement: in any reachable state of the daemon, a refresh whose \<^verbatim>\<open>SELECT\<close> succeeds makes
  of the registry of queues and runners exactly what its specification says: the listed queues
  are those of the valid rows, every one of them of a known kind that has no runner gets one, no
  runner goes away, and those of queues no longer listed are sent \<open>SIGTERM\<close>.  The threads must
  be startable, the pipes writable, and every queue that disappeared must have a runner.
\<close>

theorem refresh_refines:
  assumes "daemon_reaches asserts what cmdqd_env dm" and "mg = dm_manager dm" and "mg_keep_running mg"
    and "ra_attempts a = sel # as" and "res_status (sa_result sel) = PGRES_TUPLES_OK"
    and "\<And>c. ra_spawn a c = None" and "fits (ra_writes a)"
    and "\<And>c. c \<in> set (mg_old_cmd_classes mg) \<Longrightarrow> c \<notin> queue_names (queues_of what (sa_result sel)) \<Longrightarrow> served mg c \<noteq> None"
  shows "\<exists>mg'. refresh_queue_list what retry a mg = Returns (mg', []) \<and>
    registry_of mg' = spec_refresh (mg_sigmask mg \<union> {SIGTERM, SIGINT}) (queues_of what (sa_result sel)) (registry_of mg)"
proof -
  let ?mg1 = "manager_call (select_queues_call (mg_explicit_cmd_classes mg)) mg"
  have old: "mg_old_cmd_classes ?mg1 = mg_old_cmd_classes mg" "mg_sigmask ?mg1 = mg_sigmask mg"
    by (simp_all add: manager_call_def)
  have "distinct (mg_old_cmd_classes mg)"
    using daemon_keeps_shape [OF assms(1)] by (auto simp: keeps_shape_def assms(2))
  moreover have "registry_of ?mg1 = registry_of mg" by (simp add: registry_of_def old)
  moreover have "select_queues retry (ra_attempts a) 1 null_result mg = Returns (Some (sa_result sel), ?mg1, [])"
    using assms(3-5) by simp
  ultimately show ?thesis
    using refresh_meets_spec [of retry a mg "sa_result sel" ?mg1 "[]" what] assms(6-8) old
    by (auto simp: sigset_masked_in_runner_threads_def)
qed

definition changed_rows :: "pg_result" where
  "changed_rows = queue_result [(''r'', ''nix_queue_cmd_template'')]"

theorem refresh_refines_witness:
  "\<exists>mg'. refresh_queue_list (\<lambda>_. []) True (refresh_with changed_rows) example_manager = Returns (mg', []) \<and>
    reg_listed (registry_of mg') = {''r''} \<and>
    reg_served (registry_of mg') ''r'' = Some (Nix, new_thread {SIGTERM, SIGINT} (queue_from ''r'' ''nix_queue_cmd_template'')) \<and>
    reg_served (registry_of mg') ''q'' = Some (Sql, new_thread {SIGTERM, SIGINT} (queue_from ''q'' ''sql_queue_cmd_template''))"
proof -
  let ?qs = "queues_of (\<lambda>_. []) changed_rows" and ?m = "{SIGTERM, SIGINT}"
  have names: "queue_names ?qs = {''r''}"
    and wanted: "wanted ?m ?qs = [''r'' \<mapsto> (Nix, new_thread ?m (queue_from ''r'' ''nix_queue_cmd_template''))]"
    by (simp_all add: changed_rows_def queue_names_Cons c_string_def)
  have "\<exists>mg'. refresh_queue_list (\<lambda>_. []) True (refresh_with changed_rows) example_manager = Returns (mg', []) \<and>
    registry_of mg' = spec_refresh (mg_sigmask example_manager \<union> ?m)
      (queues_of (\<lambda>_. []) (sa_result \<lparr>sa_result = changed_rows, sa_sig_recv = quiet\<rparr>)) (registry_of example_manager)"
    using names
    by (intro refresh_refines [OF example_daemon_reached])
      (auto simp: example_daemon_def refresh_with_def changed_rows_def fits_example)
  then obtain mg' where "refresh_queue_list (\<lambda>_. []) True (refresh_with changed_rows) example_manager = Returns (mg', [])"
    and "registry_of mg' = spec_refresh ?m ?qs (registry_of example_manager)" by auto
  then show ?thesis
    by (intro exI [of _ mg'])
      (simp add: spec_refresh_def names wanted registry_of_def told_def thread_running_def new_thread_def map_add_def)
qed

end
