(* ===== verification/DaemonEnd.thy ===== *)
theory DaemonEnd
  imports DaemonProps
begin

text \<open>
  How runners and the daemon end, what a failed or interrupted refresh does, and which
  notifications lead to one.
\<close>

section \<open>A runner that has ended\<close>

lemma ended_thread_step: "thread_step asserts cmdqd_env k th th' \<Longrightarrow> \<not> thread_ended th"
  by (auto simp: thread_ended_def elim!: thread_stepE runner_stepE)

text \<open>The threads that have ended stay as they are.\<close>

definition ended_kept :: "manager \<Rightarrow> manager \<Rightarrow> bool" where
  "ended_kept mg mg' \<longleftrightarrow> (\<forall>c k th. served mg c = Some (k, th) \<longrightarrow> thread_ended th \<longrightarrow>
     (\<exists>th'. served mg' c = Some (k, th') \<and> th_cmd_queue th' = th_cmd_queue th \<and> th_run th' = th_run th))"

lemma ended_kept_refl: "ended_kept mg mg"
  by (simp add: ended_kept_def)

lemma ended_kept_trans: "ended_kept mg mg' \<Longrightarrow> ended_kept mg' mg'' \<Longrightarrow> ended_kept mg mg''"
  by (force simp: ended_kept_def thread_ended_def split: option.splits)

lemma ended_kept_evolves: "evolves asserts cmdqd_env mg mg' \<Longrightarrow> ended_kept mg mg'"
proof (induction rule: evolves.induct)
  case none
  show ?case by (rule ended_kept_refl)
next
  case (same mg1 mg')
  then have "served mg' = served mg1" by (intro served_cong)
  with same.IH show ?case by (simp add: ended_kept_def)
next
  case (add mg1 q k sigmask mg')
  have "served mg' = (served mg1)(cq_cmd_class_identity q \<mapsto> (k, new_thread sigmask q))"
    using add.hyps by (cases k) (auto simp: served_def fun_eq_iff map_of_append map_add_def split: option.splits)
  then have "ended_kept mg1 mg'" using add.hyps by (auto simp: ended_kept_def)
  with add.IH show ?case by (rule ended_kept_trans)
next
  case (change mg1 c k th th' p mg')
  have "served mg' = served (set_thread k c th' mg1)" using change.hyps by (intro served_cong)
  then have "ended_kept mg1 mg'"
    using change.hyps by (auto simp: ended_kept_def served_set_thread dest: ended_thread_step)
  with change.IH show ?case by (rule ended_kept_trans)
qed

lemma daemon_steps_reach:
  "(daemon_step asserts what cmdqd_env)\<^sup>*\<^sup>* dm dm' \<Longrightarrow> daemon_reaches asserts what cmdqd_env dm
    \<Longrightarrow> daemon_reaches asserts what cmdqd_env dm' \<and> ended_kept (dm_manager dm) (dm_manager dm')"
proof (induction rule: rtranclp_induct)
  case base
  then show ?case by (simp add: ended_kept_refl)
next
  case (step dm1 dm2)
  then show ?case
    by (blast intro: daemon_reaches.step ended_kept_trans ended_kept_evolves daemon_step_evolves)
qed

text \<open>
  C9. A runner whose thread has ended is never replaced: whatever the daemon does afterwards, the
  queue keeps the runner that has ended.  So a queue that was dropped and created again, or one
  whose runner gave up for an error, is not served until the daemon is restarted.
\<close>

theorem ended_runner_not_replaced:
  assumes "daemon_reaches asserts what cmdqd_env dm" and "(daemon_step asserts what cmdqd_env)\<^sup>*\<^sup>* dm dm'"
    and "served (dm_manager dm) c = Some (k, th)" and "thread_ended th"
  shows "\<exists>th'. served (dm_manager dm') c = Some (k, th') \<and> thread_ended th' \<and> th_cmd_queue th' = th_cmd_queue th"
  using daemon_steps_reach [OF assms(2,1)] assms(3,4)
  by (force simp: ended_kept_def thread_ended_def split: option.splits)

text \<open>The runner of the example begins, and ends when its session cannot be started.\<close>

definition failing_connect :: connect_answers where
  "failing_connect = example_connect\<lparr>cn_session_start := text_result PGRES_FATAL_ERROR [] []\<rparr>"

definition example_queue_row :: cmd_queue where
  "example_queue_row = queue_from ''q'' ''sql_queue_cmd_template''"

definition ended_runner :: runner where
  "ended_runner = exit_runner (call (session_start_call [] example_queue_row)
     ((runner_init example_queue_row)\<lparr>rn_conn := Some CONNECTION_OK\<rparr>))"

lemma ended_runner_step: "runner_step True [] sql_ops (runner_init example_queue_row) ended_runner"
  by (rule runner_step.connect [where a = failing_connect])
    (simp_all add: runner_init_def connect_step_def failing_connect_def example_connect_def ended_runner_def
      maintain_connection_def ok_attempt_def stop_signals_def text_result_def)

definition begun_thread :: "runner \<Rightarrow> thread" where
  "begun_thread rn = (new_thread {SIGTERM, SIGINT} example_queue_row)\<lparr>th_run := Some rn\<rparr>"

definition daemon_with :: "main_phase \<Rightarrow> thread \<Rightarrow> daemon" where
  "daemon_with p th = \<lparr>dm_phase = p, dm_manager = set_thread Sql ''q'' th example_manager\<rparr>"

lemma daemon_with_served [simp]: "served (dm_manager (daemon_with p th)) = [''q'' \<mapsto> (Sql, th)]"
  by (simp add: daemon_with_def served_set_thread [of _ _ _ "new_thread {SIGTERM, SIGINT} example_queue_row"]
      example_queue_row_def)

lemma daemon_with_step:
  assumes "thread_step True [] Sql th th'" and "p \<noteq> Finished"
  shows "daemon_step True what [] (daemon_with p th) (daemon_with p th')"
proof -
  have "daemon_with p th' = \<lparr>dm_phase = p, dm_manager = set_thread Sql ''q'' th' (dm_manager (daemon_with p th))\<rparr>"
    by (simp add: daemon_with_def set_thread_def example_manager_def)
  moreover have "daemon_with p th = \<lparr>dm_phase = p, dm_manager = dm_manager (daemon_with p th)\<rparr>"
    by (simp add: daemon_with_def)
  ultimately show ?thesis
    using daemon_step.thread [OF assms(2) _ assms(1), of "dm_manager (daemon_with p th)" "''q''" what] by simp
qed

lemma ended_daemon_reached: "daemon_reaches True what [] (daemon_with Before_listening (begun_thread ended_runner))"
proof -
  let ?th = "new_thread {SIGTERM, SIGINT} example_queue_row"
  have "thread_step True [] Sql ?th (begun_thread (runner_init example_queue_row))"
    using thread_step.started [of ?th True "[]" Sql] by (simp add: new_thread_def begun_thread_def)
  moreover have "thread_step True [] Sql (begun_thread (runner_init example_queue_row)) (begun_thread ended_runner)"
    using thread_step.sql [OF _ ended_runner_step, of "begun_thread (runner_init example_queue_row)"]
    by (simp add: begun_thread_def)
  moreover have "example_daemon = daemon_with Before_listening ?th"
    by (simp add: example_daemon_def daemon_with_def set_thread_def example_manager_def example_queue_row_def)
  ultimately show ?thesis
    using example_daemon_reached [of True what "[]"]
    by (metis daemon_reaches.step daemon_with_step main_phase.distinct)
qed

definition listening_daemon :: "thread \<Rightarrow> daemon" where
  "listening_daemon th = \<lparr>dm_phase = Listening,
     dm_manager = manager_call (Exec ''LISTEN cmdq'') (dm_manager (daemon_with Listening th))\<rparr>"

lemma example_announce: "daemon_step True what [] (daemon_with Before_listening th) (listening_daemon th)"
proof -
  have start: "listen_start (text_result PGRES_COMMAND_OK [] []) 5 (dm_manager (daemon_with Before_listening th)) =
      (False, manager_call (Exec ''LISTEN cmdq'') (dm_manager (daemon_with Listening th)))"
    by (simp add: listen_start_def manager_call_def text_result_def daemon_with_def set_thread_def
        example_manager_def make_instance_def)
  have "daemon_with Before_listening th = \<lparr>dm_phase = Before_listening, dm_manager = dm_manager (daemon_with Before_listening th)\<rparr>"
    by (simp add: daemon_with_def)
  with daemon_step.announce [OF start, of True what "[]"] show ?thesis by (simp add: listening_daemon_def)
qed

lemma example_announced:
  "(daemon_step True what [])\<^sup>*\<^sup>* (daemon_with Before_listening th) (listening_daemon th)"
  by (rule r_into_rtranclp) (rule example_announce)

theorem ended_runner_not_replaced_witness:
  "\<exists>th'. served (dm_manager (listening_daemon (begun_thread ended_runner))) ''q'' = Some (Sql, th') \<and> thread_ended th'"
  using ended_runner_not_replaced [OF ended_daemon_reached [of "\<lambda>_. []"] example_announced,
      of "''q''" Sql "begun_thread ended_runner"]
  by (auto simp: begun_thread_def thread_ended_def ended_runner_def exit_runner_def)

section \<open>The end of the daemon\<close>

lemma finished_step:
  "daemon_step asserts what cmdqd_env dm dm' \<Longrightarrow> dm_phase dm' = Finished \<Longrightarrow>
    \<forall>(c, th)\<in>set (mg_nix_cmd_queue_runners (dm_manager dm') @ mg_sql_cmd_queue_runners (dm_manager dm')). thread_ended th"
  by (erule daemon_stepE) (auto simp: join_all_threads_def split: if_splits)

text \<open>
  C13. The daemon returns from \<^verbatim>\<open>main\<close> only after every one of its runner threads has begun
  and ended.
\<close>

theorem daemon_finishes_last:
  assumes "daemon_reaches asserts what cmdqd_env dm" and "dm_phase dm = Finished"
    and "served (dm_manager dm) c = Some (k, th)"
  shows "\<exists>rn. th_run th = Some rn \<and> rn_phase rn = Gone"
proof -
  have "\<forall>(c, th)\<in>set (mg_nix_cmd_queue_runners (dm_manager dm) @ mg_sql_cmd_queue_runners (dm_manager dm)). thread_ended th"
    using assms(1,2)
  proof cases
    case (step dm0)
    with assms(2) show ?thesis by (intro finished_step)
  qed (simp add: daemon_init_def)
  then have "thread_ended th"
    using assms(3) by (auto simp: served_def split: option.splits dest: map_of_SomeD)
  then show ?thesis by (simp add: thread_ended_def split: option.splits)
qed

definition finished_daemon :: daemon where
  "finished_daemon = \<lparr>dm_phase = Finished,
     dm_manager = manager_call (Exec ''LISTEN cmdq'') (dm_manager (daemon_with Finished (begun_thread ended_runner)))\<rparr>"

lemma finished_daemon_reached: "daemon_reaches True what [] finished_daemon"
proof -
  let ?dm = "daemon_with Before_listening (begun_thread ended_runner)" and ?mg = "dm_manager finished_daemon"
  have dm: "?dm = \<lparr>dm_phase = Before_listening, dm_manager = dm_manager ?dm\<rparr>" by (simp add: daemon_with_def)
  have "listen_start null_result 5 (dm_manager ?dm) = (True, ?mg)"
    by (simp add: listen_start_def null_result_def daemon_with_def finished_daemon_def)
  from daemon_step.announce [OF this, of True what "[]", folded dm]
  have 1: "daemon_reaches True what [] \<lparr>dm_phase = Before_stopping, dm_manager = ?mg\<rparr>"
    by (auto intro: daemon_reaches.step [OF ended_daemon_reached])
  have mg: "mg_nix_cmd_queue_runners ?mg = []" "mg_sql_cmd_queue_runners ?mg = [(''q'', begun_thread ended_runner)]"
    by (simp_all add: finished_daemon_def manager_call_def daemon_with_def set_thread_def example_manager_def
        make_instance_def)
  have "kill_thread [] s (begun_thread ended_runner) = Returns (begun_thread ended_runner)" for s
    by (simp add: kill_thread_def begun_thread_def kill_runner_def ended_runner_def exit_runner_def)
  then have "stop_all_runners quiet (\<lambda>_. []) ?mg = Returns ?mg"
    by (simp add: stop_all_runners_def mg)
  from daemon_reaches.step [OF 1 daemon_step.stop [OF this]]
  have 2: "daemon_reaches True what [] \<lparr>dm_phase = Before_joining, dm_manager = ?mg\<rparr>" .
  have "join_all_threads ?mg = Returns ?mg"
    by (simp add: join_all_threads_def mg thread_ended_def begun_thread_def ended_runner_def exit_runner_def)
  from daemon_reaches.step [OF 2 daemon_step.join [OF this]] show ?thesis
    by (simp add: finished_daemon_def)
qed

theorem daemon_finishes_last_witness: "\<exists>rn. th_run (begun_thread ended_runner) = Some rn \<and> rn_phase rn = Gone"
  by (rule daemon_finishes_last [OF finished_daemon_reached [of "\<lambda>_. []"], of "''q''" Sql])
    (simp_all add: finished_daemon_def)

end
