(* ===== verification/ThreadEnd.thy ===== *)
theory ThreadEnd
  imports DaemonEnd
begin

text \<open>
  What the end of all threads needs of one: \<open>ending_threads\<close> is the contract between
  \<^verbatim>\<open>join_all_threads\<close> and the threads it joins.  Threads whose steps lower a rank, and which can
  step until it is zero, are all joined after at most as many steps as their ranks add up to.
\<close>

section \<open>Ranks\<close>

definition total_rank :: "(thread \<Rightarrow> nat) \<Rightarrow> manager \<Rightarrow> nat" where
  "total_rank rank mg = (\<Sum>c\<in>set (keys mg). case served mg c of None \<Rightarrow> 0 | Some (k, th) \<Rightarrow> rank th)"

definition all_threads :: "(kind \<Rightarrow> thread \<Rightarrow> bool) \<Rightarrow> manager \<Rightarrow> bool" where
  "all_threads good mg \<longleftrightarrow> (\<forall>c k th. served mg c = Some (k, th) \<longrightarrow> good k th)"

lemma all_threadsD: "all_threads good mg \<Longrightarrow> served mg c = Some (k, th) \<Longrightarrow> good k th"
  by (simp add: all_threads_def)

lemma served_keys: "served mg c = Some s \<Longrightarrow> c \<in> set (keys mg)"
  using served_None_keys [of mg c] by auto

lemma total_rank_set_thread:
  assumes "served mg c = Some (k, th)"
  shows "total_rank rank (set_thread k c th' mg) + rank th = total_rank rank mg + rank th'"
proof -
  let ?f = "\<lambda>mg c. case served mg c of None \<Rightarrow> 0 | Some (k, th) \<Rightarrow> rank th"
  let ?rest = "set (keys mg) - {c}"
  have c: "c \<in> set (keys mg)" using assms by (rule served_keys)
  have "(\<Sum>d\<in>?rest. ?f (set_thread k c th' mg) d) = (\<Sum>d\<in>?rest. ?f mg d)"
    by (rule sum.cong) (simp_all add: served_set_thread [OF assms])
  moreover have "total_rank rank mg = rank th + (\<Sum>d\<in>?rest. ?f mg d)"
    unfolding total_rank_def by (subst sum.remove [of _ c]) (use c assms in simp_all)
  moreover have "total_rank rank (set_thread k c th' mg) = rank th' + (\<Sum>d\<in>?rest. ?f (set_thread k c th' mg) d)"
    unfolding total_rank_def keys_set_thread [OF assms]
    by (subst sum.remove [of _ c]) (use c in \<open>simp_all add: served_set_thread [OF assms]\<close>)
  ultimately show ?thesis by simp
qed

lemma total_rank_le:
  assumes "\<And>th. rank th \<le> b"
  shows "total_rank rank mg \<le> b * length (keys mg)"
proof -
  have "total_rank rank mg \<le> (\<Sum>c\<in>set (keys mg). b)"
    unfolding total_rank_def by (intro sum_mono) (auto simp: assms split: option.split)
  also have "\<dots> \<le> b * length (keys mg)" by (simp add: card_length)
  finally show ?thesis .
qed

lemma total_rank_0: "total_rank rank mg = 0 \<Longrightarrow> served mg c = Some (k, th) \<Longrightarrow> rank th = 0"
  using served_keys [of mg c] by (auto simp: total_rank_def)

lemma total_rank_pos:
  assumes "total_rank rank mg \<noteq> 0"
  obtains c k th where "served mg c = Some (k, th)" and "rank th \<noteq> 0"
proof -
  have "\<not> (\<forall>c\<in>set (keys mg). (case served mg c of None \<Rightarrow> 0 | Some (k, th) \<Rightarrow> rank th) = 0)"
    using assms unfolding total_rank_def by (metis (no_types, lifting) sum.neutral)
  then show ?thesis using that by (auto split: option.splits)
qed

lemma all_threads_set_thread:
  "all_threads good mg \<Longrightarrow> served mg c = Some (k, th) \<Longrightarrow> good k th' \<Longrightarrow> all_threads good (set_thread k c th' mg)"
  by (auto simp: all_threads_def served_set_thread)

lemma join_all_ended:
  assumes "distinct (keys mg)" and "all_threads (\<lambda>_. thread_ended) mg"
  shows "join_all_threads mg = Returns mg"
proof -
  have "thread_ended th" if "(c, th) \<in> set (runners k mg)" for c th k
    using served_runners [OF assms(1) that] assms(2) by (simp add: all_threads_def)
  from this [of _ _ Nix] this [of _ _ Sql] show ?thesis
    by (auto simp: join_all_threads_def runners_def)
qed

section \<open>Joining\<close>

text \<open>While the main thread joins, the threads go on.\<close>

inductive joining :: "(kind \<Rightarrow> thread \<Rightarrow> thread \<Rightarrow> bool) \<Rightarrow> manager \<Rightarrow> manager \<Rightarrow> bool" for step where
  thread: "served mg c = Some (k, th) \<Longrightarrow> step k th th' \<Longrightarrow> joining step mg (set_thread k c th' mg)"

inductive_cases joiningE: "joining step mg mg'"

locale ending_threads =
  fixes good :: "kind \<Rightarrow> thread \<Rightarrow> bool" and rank :: "thread \<Rightarrow> nat"
    and step :: "kind \<Rightarrow> thread \<Rightarrow> thread \<Rightarrow> bool"
  assumes step_good: "step k th th' \<Longrightarrow> good k th \<Longrightarrow> good k th' \<and> rank th' < rank th"
    and progress: "good k th \<Longrightarrow> rank th \<noteq> 0 \<Longrightarrow> \<exists>th'. step k th th'"
    and rank_0: "good k th \<Longrightarrow> rank th = 0 \<Longrightarrow> thread_ended th"
begin

lemma joining_good:
  assumes "joining step mg mg'" and "all_threads good mg"
  shows "all_threads good mg' \<and> total_rank rank mg' < total_rank rank mg \<and> keys mg' = keys mg"
  using assms(1)
proof (rule joiningE)
  fix c k th th'
  assume mg': "mg' = set_thread k c th' mg" and served: "served mg c = Some (k, th)" and st: "step k th th'"
  have "good k th' \<and> rank th' < rank th"
    using st all_threadsD [OF assms(2) served] by (rule step_good)
  then show ?thesis
    using total_rank_set_thread [OF served, of rank th'] all_threads_set_thread [OF assms(2) served]
    by (simp add: mg' keys_set_thread [OF served])
qed

lemma joining_bounded:
  "(joining step ^^ n) mg mg' \<Longrightarrow> all_threads good mg \<Longrightarrow>
    all_threads good mg' \<and> n + total_rank rank mg' \<le> total_rank rank mg \<and> keys mg' = keys mg"
proof (induction n arbitrary: mg')
  case (Suc n)
  from Suc.prems(1) obtain mg1 where "(joining step ^^ n) mg mg1" and last: "joining step mg1 mg'" by auto
  with Suc.IH Suc.prems(2) have "all_threads good mg1" "n + total_rank rank mg1 \<le> total_rank rank mg" "keys mg1 = keys mg"
    by blast+
  with joining_good [OF last] show ?case by simp
qed simp

lemma all_joined:
  assumes "total_rank rank mg = 0" and "distinct (keys mg)" and "all_threads good mg"
  shows "join_all_threads mg = Returns mg"
proof (rule join_all_ended [OF assms(2)])
  show "all_threads (\<lambda>_. thread_ended) mg"
    unfolding all_threads_def using rank_0 [OF all_threadsD [OF assms(3)] total_rank_0 [OF assms(1)]] by blast
qed

lemma joining_progress:
  assumes "distinct (keys mg)" and "all_threads good mg"
  shows "(\<exists>mg'. joining step mg mg') \<or> join_all_threads mg = Returns mg"
proof (cases "total_rank rank mg = 0")
  case True
  then show ?thesis using all_joined assms by blast
next
  case False
  then obtain c k th where th: "served mg c = Some (k, th)" "rank th \<noteq> 0" by (rule total_rank_pos)
  with progress all_threadsD [OF assms(2)] obtain th' where "step k th th'" by blast
  with th(1) show ?thesis by (blast intro: joining.thread)
qed

lemma joining_ends:
  assumes "distinct (keys mg)" and "all_threads good mg"
  shows "\<exists>n mg'. (joining step ^^ n) mg mg' \<and> join_all_threads mg' = Returns mg'"
  using assms
proof (induction "total_rank rank mg" arbitrary: mg rule: less_induct)
  case less
  consider (joined) "join_all_threads mg = Returns mg" | (step) mg1 where "joining step mg mg1"
    using joining_progress [OF less.prems] by blast
  then show ?case
  proof cases
    case joined
    then show ?thesis by (intro exI [of _ 0] exI [of _ mg]) simp
  next
    case (step mg1)
    with joining_good [OF step less.prems(2)] less.prems(1) less.hyps obtain n mg' where
      "(joining step ^^ n) mg1 mg'" "join_all_threads mg' = Returns mg'" by metis
    with step show ?thesis by (blast intro: relpowp_Suc_I2)
  qed
qed

end

end
