(* ===== verification/DaemonStop.thy ===== *)
theory DaemonStop
  imports ThreadEnd RunnerProps
begin

text \<open>
  The end of a daemon whose runners were told to stop: every step of a thread brings the end
  nearer, and the main thread returns from \<^verbatim>\<open>join_all_threads\<close> after at most three steps of each.
\<close>

definition stopping :: "thread \<Rightarrow> bool" where
  "stopping th \<longleftrightarrow> (case th_run th of None \<Rightarrow> False | Some rn \<Rightarrow> rn_phase rn = Gone \<or> \<not> rn_keep_running rn)"

definition all_stopping :: "manager \<Rightarrow> bool" where
  "all_stopping mg \<longleftrightarrow> (\<forall>c k th. served mg c = Some (k, th) \<longrightarrow> stopping th)"

text \<open>The loops that a thread, and all threads together, have yet to leave.\<close>

definition thread_work :: "thread \<Rightarrow> nat" where
  "thread_work th = (case th_run th of None \<Rightarrow> 0 | Some rn \<Rightarrow> loops_left (rn_phase rn))"

definition work :: "manager \<Rightarrow> nat" where
  "work mg = total_rank thread_work mg"

lemma loops_left_le: "loops_left p \<le> 3"
  by (cases p) simp_all

lemma loops_left_0: "loops_left p = 0 \<longleftrightarrow> p = Gone"
  by (cases p) simp_all

lemma loops_left_pos: "0 < loops_left p \<longleftrightarrow> p \<noteq> Gone"
  by (cases p) simp_all

lemma thread_ended_iff: "stopping th \<Longrightarrow> thread_ended th \<longleftrightarrow> thread_work th = 0"
  by (cases "th_run th") (simp_all add: stopping_def thread_ended_def thread_work_def loops_left_0)

lemma work_le: "work mg \<le> 3 * length (keys mg)"
  unfolding work_def by (rule total_rank_le) (simp add: thread_work_def loops_left_le split: option.split)

lemma stopping_thread_step:
  assumes "thread_step asserts cmdqd_env k th th'" and "stopping th"
  shows "stopping th' \<and> thread_work th = Suc (thread_work th')"
proof -
  have "\<not> thread_ended th" using assms(1) by (rule ended_thread_step)
  with assms(2) obtain rn where rn: "th_run th = Some rn" "\<not> rn_keep_running rn"
    by (auto simp: stopping_def thread_ended_def split: option.splits)
  with assms(1) obtain rn' where "th_run th' = Some rn'"
    "\<not> rn_keep_running rn'" "loops_left (rn_phase rn) = Suc (loops_left (rn_phase rn'))"
    by (auto elim!: thread_stepE dest!: stopping_step)
  with rn show ?thesis by (simp add: stopping_def thread_work_def)
qed

lemma stopping_thread_progress:
  assumes "stopping th" and "thread_work th \<noteq> 0"
  shows "\<exists>th'. thread_step asserts cmdqd_env k th th'"
proof -
  obtain rn where rn: "th_run th = Some rn" "\<not> rn_keep_running rn" "rn_phase rn \<noteq> Gone"
    using assms by (auto simp: stopping_def thread_work_def loops_left_pos split: option.splits)
  show ?thesis
  proof (cases k)
    case Nix
    then show ?thesis
      using rn stopping_progress [OF rn(2,3), of asserts cmdqd_env "nix_ops asserts"] by (blast intro: thread_step.nix)
  next
    case Sql
    then show ?thesis
      using rn stopping_progress [OF rn(2,3), of asserts cmdqd_env sql_ops] by (blast intro: thread_step.sql)
  qed
qed

interpretation stopping_threads:
  ending_threads "\<lambda>_. stopping" thread_work "thread_step asserts cmdqd_env" for asserts cmdqd_env
  by unfold_locales (auto simp: thread_ended_iff dest: stopping_thread_step stopping_thread_progress)

lemma work_set_thread:
  assumes "served mg c = Some (k, th)" and "thread_work th = Suc (thread_work th')"
  shows "work mg = Suc (work (set_thread k c th' mg))"
  using total_rank_set_thread [OF assms(1), of thread_work th'] assms(2) by (simp add: work_def)

lemma all_stopping_threads: "all_stopping mg \<longleftrightarrow> all_threads (\<lambda>_. stopping) mg"
  by (simp add: all_stopping_def all_threads_def)

lemma all_stopping_set_thread:
  "all_stopping mg \<Longrightarrow> served mg c = Some (k, th) \<Longrightarrow> stopping th' \<Longrightarrow> all_stopping (set_thread k c th' mg)"
  unfolding all_stopping_threads by (rule all_threads_set_thread)

text \<open>While the main thread joins, what is not the end is a thread that leaves a loop, or a signal.\<close>

lemma joining_step:
  assumes "daemon_step asserts what cmdqd_env dm dm'" and "dm_phase dm = Before_joining"
    and "all_stopping (dm_manager dm)"
  shows "dm_phase dm' = Finished \<or>
    dm_phase dm' = Before_joining \<and> all_stopping (dm_manager dm') \<and>
      (work (dm_manager dm) = Suc (work (dm_manager dm')) \<or> served (dm_manager dm') = served (dm_manager dm))"
  using assms(1)
proof cases
  case (handler p ws sig_num mg mg')
  then have "served mg' = served mg"
    by (auto simp: receive_signal_def Let_def bind_outcome_Returns_iff split: if_splits intro!: served_cong)
  with handler assms show ?thesis by (auto simp: all_stopping_def)
next
  case (thread p mg c k th th')
  then have "stopping th" using assms(3) by (auto simp: all_stopping_def)
  note after = stopping_thread_step [OF thread(5) this]
  with thread assms show ?thesis
    by (auto intro: all_stopping_set_thread work_set_thread)
qed (use assms in auto)

lemma shutdown_steps:
  assumes "distinct (keys mg)" and "all_stopping mg"
  shows "\<exists>dm'. (daemon_step asserts what cmdqd_env ^^ Suc (work mg)) \<lparr>dm_phase = Before_joining, dm_manager = mg\<rparr> dm' \<and>
    dm_phase dm' = Finished"
  using assms
proof (induction "work mg" arbitrary: mg)
  case 0
  then have "join_all_threads mg = Returns mg" using stopping_threads.all_joined
    by (simp add: work_def all_stopping_threads)
  then have "daemon_step asserts what cmdqd_env \<lparr>dm_phase = Before_joining, dm_manager = mg\<rparr>
      \<lparr>dm_phase = Finished, dm_manager = mg\<rparr>" by (rule daemon_step.join)
  then have "(daemon_step asserts what cmdqd_env ^^ Suc (work mg)) \<lparr>dm_phase = Before_joining, dm_manager = mg\<rparr>
      \<lparr>dm_phase = Finished, dm_manager = mg\<rparr>" unfolding 0(1) [symmetric] One_nat_def [symmetric] relpowp_1 .
  moreover have "dm_phase \<lparr>dm_phase = Finished, dm_manager = mg\<rparr> = Finished" by simp
  ultimately show ?case by blast
next
  case (Suc n)
  then have "total_rank thread_work mg \<noteq> 0" by (simp add: work_def)
  then obtain c k th where th: "served mg c = Some (k, th)" "thread_work th \<noteq> 0" by (rule total_rank_pos)
  then have stop: "stopping th" using Suc.prems(2) by (auto simp: all_stopping_def)
  obtain th' where step: "thread_step asserts cmdqd_env k th th'"
    using stopping_thread_progress [OF stop th(2)] by blast
  let ?mg = "set_thread k c th' mg"
  note after = stopping_thread_step [OF step stop]
  have "n = work ?mg" using work_set_thread [OF th(1), of th'] after Suc.hyps(2) by simp
  moreover have "distinct (keys ?mg)" using Suc.prems(1) keys_set_thread [OF th(1)] by simp
  moreover have "all_stopping ?mg" using all_stopping_set_thread [OF Suc.prems(2) th(1)] after by blast
  ultimately obtain dm' where
    "(daemon_step asserts what cmdqd_env ^^ Suc n) \<lparr>dm_phase = Before_joining, dm_manager = ?mg\<rparr> dm'" "dm_phase dm' = Finished"
    using Suc.hyps(1) by metis
  moreover have "daemon_step asserts what cmdqd_env \<lparr>dm_phase = Before_joining, dm_manager = mg\<rparr>
      \<lparr>dm_phase = Before_joining, dm_manager = ?mg\<rparr>"
    by (rule daemon_step.thread [OF _ th(1) step]) simp
  ultimately show ?case unfolding Suc.hyps(2) [symmetric] by (metis relpowp_Suc_I2)
qed

text \<open>
  C10. The daemon comes to its end once all of its runners were told to stop: while \<^verbatim>\<open>main\<close> is in
  \<^verbatim>\<open>join_all_threads\<close>, nothing but a signal can happen that is not a thread leaving one of its
  loops, each of the runners has at most three to leave, one of them can always do so, and when
  none is left \<^verbatim>\<open>main\<close> returns.
\<close>

theorem daemon_shuts_down:
  assumes "dm_phase dm = Before_joining" and "distinct (keys (dm_manager dm))"
    and "\<And>c k th. served (dm_manager dm) c = Some (k, th) \<Longrightarrow> stopping th"
  shows "work (dm_manager dm) \<le> 3 * length (keys (dm_manager dm)) \<and>
    (\<exists>dm'. (daemon_step asserts what cmdqd_env ^^ Suc (work (dm_manager dm))) dm dm' \<and> dm_phase dm' = Finished) \<and>
    (\<forall>dm'. daemon_step asserts what cmdqd_env dm dm' \<longrightarrow> dm_phase dm' = Finished \<or>
       dm_phase dm' = Before_joining \<and> all_stopping (dm_manager dm') \<and>
       (work (dm_manager dm) = Suc (work (dm_manager dm')) \<or> served (dm_manager dm') = served (dm_manager dm)))"
proof -
  have all: "all_stopping (dm_manager dm)" using assms(3) by (auto simp: all_stopping_def)
  have dm: "dm = \<lparr>dm_phase = Before_joining, dm_manager = dm_manager dm\<rparr>" using assms(1) by (cases dm) simp
  have "work (dm_manager dm) \<le> 3 * length (keys (dm_manager dm))"
    by (rule work_le)
  moreover have "\<exists>dm'. (daemon_step asserts what cmdqd_env ^^ Suc (work (dm_manager dm))) dm dm' \<and> dm_phase dm' = Finished"
    using shutdown_steps [OF assms(2) all, of asserts what cmdqd_env] dm by simp
  ultimately show ?thesis using joining_step [OF _ assms(1) all] by blast
qed

definition told_runner :: runner where
  "told_runner = (runner_init example_queue_row)\<lparr>rn_phase := Waiting, rn_keep_running := False\<rparr>"

lemma told_runner_work: "work (dm_manager (daemon_with p (begun_thread told_runner))) = 3"
  "keys (dm_manager (daemon_with p (begun_thread told_runner))) = [''q'']"
proof -
  show "keys (dm_manager (daemon_with p (begun_thread told_runner))) = [''q'']"
    by (simp add: keys_def daemon_with_def set_thread_def example_manager_def make_instance_def)
  then show "work (dm_manager (daemon_with p (begun_thread told_runner))) = 3"
    by (simp add: work_def total_rank_def thread_work_def begun_thread_def told_runner_def)
qed

theorem daemon_shuts_down_witness:
  "\<exists>dm'. (daemon_step True (\<lambda>_. []) [] ^^ 4) (daemon_with Before_joining (begun_thread told_runner)) dm' \<and>
    dm_phase dm' = Finished"
proof -
  let ?dm = "daemon_with Before_joining (begun_thread told_runner)"
  have "stopping (begun_thread told_runner)"
    by (simp add: stopping_def begun_thread_def told_runner_def)
  then have stop: "served (dm_manager ?dm) c = Some (k, th) \<Longrightarrow> stopping th" for c k th
    by (simp split: if_splits)
  have phase: "dm_phase ?dm = Before_joining" by (simp add: daemon_with_def)
  have four: "Suc (work (dm_manager ?dm)) = 4" by (simp add: told_runner_work)
  have "\<exists>dm'. (daemon_step True (\<lambda>_. []) [] ^^ Suc (work (dm_manager ?dm))) ?dm dm' \<and> dm_phase dm' = Finished"
    by (rule daemon_shuts_down [OF phase _ stop, THEN conjunct2, THEN conjunct1]) (simp_all add: told_runner_work)
  then show ?thesis unfolding four .
qed

end
