(* ===== verification/SqlProps.thy ===== *)
theory SqlProps
  imports SqlCmd
begin

text \<open>The properties of \<^verbatim>\<open>SqlQueueCmd\<close>.\<close>

section \<open>The savepoint\<close>

text \<open>
  The statements a run may send, with their statuses: nothing after a savepoint that failed; else
  the command between the savepoint and its end, which is a release only if the command and the
  deferred constraints went well.
\<close>

definition savepoint_protocol :: "string \<Rightarrow> (string \<times> exec_status) list \<Rightarrow> bool" where
  "savepoint_protocol sql sent \<longleftrightarrow>
     (\<exists>s0. sent = [(''SAVEPOINT pre_run_cmd'', s0)] \<and> s0 \<noteq> PGRES_COMMAND_OK) \<or>
     (\<exists>s1 s2. sent = [(''SAVEPOINT pre_run_cmd'', PGRES_COMMAND_OK), (sql, s1),
        (''ROLLBACK TO SAVEPOINT pre_run_cmd'', s2)] \<and> \<not> sql_ok s1) \<or>
     (\<exists>s1 s2 s3. sent = [(''SAVEPOINT pre_run_cmd'', PGRES_COMMAND_OK), (sql, s1),
        (''SET CONSTRAINTS ALL IMMEDIATE'', s2),
        (if s2 = PGRES_COMMAND_OK then ''RELEASE SAVEPOINT pre_run_cmd''
         else ''ROLLBACK TO SAVEPOINT pre_run_cmd'', s3)] \<and> sql_ok s1)"

text \<open>
  C18. A run that returns has sent its statements in the order of the savepoint protocol: a
  command that failed, or whose deferred constraints failed, is rolled back to the savepoint
  (keeping the transaction and the lock on the queue's row), any other is released.
\<close>

theorem sql_run_keeps_protocol:
  assumes "sql_run_cmd answers c = Returns r" and "sq_cmd_sql_fatal_error c = None"
  shows "savepoint_protocol (c_string (sq_cmd_sql c)) (sr_sent r)"
  using assms
proof (cases rule: sql_run_cmd_cases)
  case (no_savepoint r0 as)
  with sql_run_no_savepoint(1) [of r0 as c r] assms(1) show ?thesis by (simp add: savepoint_protocol_def)
next
  case (fails r0 r1 r2 as)
  with sql_run_cmd_fails(1) [of r0 r1 r2 as c r] assms(1) show ?thesis by (simp add: savepoint_protocol_def)
next
  case (succeeds r0 r1 r2 r3 as)
  with sql_run_cmd_succeeds(1) [of r0 r1 r2 r3 as c r] assms show ?thesis
    by (simp add: savepoint_protocol_def)
qed

text \<open>Results and a command for the witnesses.\<close>

definition plain_result :: "exec_status \<Rightarrow> pg_result" where
  "plain_result s = \<lparr>res_status = s, res_fnames = [], res_rows = [], res_error_message = [],
     res_diag = (\<lambda>c. if c = CHR ''C'' then Some ''23505'' else None)\<rparr>"

definition example_sql_cmd :: sql_cmd where
  "example_sql_cmd = (sql_cmd_blank (cmd_meta_of_args ''q'' ''q'' ''7'' None))\<lparr>sq_cmd_sql := ''CALL f()''\<rparr>"

definition example_sql_answers :: "sql_answer list" where
  "example_sql_answers = map (\<lambda>s. ([], plain_result s))
     [PGRES_COMMAND_OK, PGRES_COMMAND_OK, PGRES_FATAL_ERROR, PGRES_COMMAND_OK]"

lemmas example_sql_defs = example_sql_cmd_def example_sql_answers_def plain_result_def sql_cmd_blank_def
  cmd_meta_of_args_def cmd_meta_blank_def

lemma example_sql_run:
  obtains r where "sql_run_cmd example_sql_answers example_sql_cmd = Returns r"
    and "map snd (sr_sent r) = [PGRES_COMMAND_OK, PGRES_COMMAND_OK, PGRES_FATAL_ERROR, PGRES_COMMAND_OK]"
  by (simp add: example_sql_defs sql_run_cmd_def sql_phase_defs sql_run_init_def sql_exec_def
      record_fatality_def)

theorem sql_run_keeps_protocol_witness:
  "\<exists>r. sql_run_cmd example_sql_answers example_sql_cmd = Returns r \<and>
    savepoint_protocol ''CALL f()'' (sr_sent r)"
proof -
  obtain r where r: "sql_run_cmd example_sql_answers example_sql_cmd = Returns r"
    by (rule example_sql_run)
  from sql_run_keeps_protocol [OF r] r show ?thesis
    by (simp add: example_sql_cmd_def sql_cmd_blank_def c_string_def)
qed



section \<open>Notices\<close>



section \<open>The fields of an error\<close>

lemma values_of_error_fields:
  "values_to_vector (resultErrorFields res) = map (\<lambda>c. map_option c_string (res_diag res c)) PG_DIAG_sorted"
  by (simp add: values_to_vector_def resultErrorFields_def PG_DIAG_sorted_def PG_DIAG_codes_def)

text \<open>
  The eighteen fields of an error are written in the order of their key characters, not, as
  the comment on \<^verbatim>\<open>resultErrorFields\<close> has it, in that of their definitions: the first field
  of the composite value is the SQLSTATE instead of the severity.
\<close>

theorem error_fields_order:
  shows "values_to_vector (resultErrorFields res) =
      map (\<lambda>c. map_option c_string (res_diag res c)) ''CDFHLMPRSVWcdnpqst'' \<and>
    hd (values_to_vector (resultErrorFields res)) = map_option c_string (res_diag res (CHR ''C'')) \<and>
    hd PG_DIAG_codes = CHR ''S''"
  by (simp add: values_of_error_fields PG_DIAG_sorted_def PG_DIAG_codes_def)

text \<open>No row makes a command that calls itself valid.\<close>

lemma sql_cmd_never_valid: "\<not> sq_is_valid (sql_cmd_of_row result row field_mapping)"
  by (auto simp: sql_cmd_of_row_def Let_def sql_cmd_assignments_def sql_cmd_blank_def assign_def
      split: sum.split prod.split option.split)

end
