(* ===== verification/ManagerProps.thy ===== *)
theory ManagerProps
  imports DaemonProps
begin

text \<open>
  The other ways a refresh of the list of queues can go, the notifications that lead to one, the
  signal that stops all runners, and the list of names for the command line.
\<close>

section \<open>A refresh that dies\<close>

lemma stop_disappeared_dies:
  assumes "fits writes" and "c \<in> set cs" and "c \<notin> set (mg_new_cmd_classes mg)" and "served mg c = None"
  shows "\<exists>msg. stop_disappeared writes cs mg = Dies (Exn (Runtime_error msg))"
  using assms(2-)
proof (induction cs arbitrary: mg)
  case (Cons d cs)
  show ?case
  proof (cases "d \<in> set (mg_new_cmd_classes mg)")
    case True
    with Cons show ?thesis by auto
  next
    case new: False
    show ?thesis
    proof (cases "served mg d")
      case None
      with new show ?thesis
        by (auto simp: stop_runner_def served_def split: option.splits)
    next
      case (Some kth)
      obtain k th where "kth = (k, th)" by (cases kth)
      then obtain mg1 where mg1: "stop_runner writes d SIGTERM mg = Returns mg1"
        "mg_new_cmd_classes mg1 = mg_new_cmd_classes mg" "served mg1 = (served mg)(d \<mapsto> (k, told SIGTERM th))"
        using stop_runner_spec [OF assms(1), of mg d k th SIGTERM] Some by auto
      have "c \<noteq> d" using Cons.prems(3) Some by auto
      then have "\<exists>msg. stop_disappeared writes cs mg1 = Dies (Exn (Runtime_error msg))"
        using Cons.IH [of mg1] Cons.prems mg1 by auto
      with mg1 new show ?thesis by simp
    qed
  qed
qed simp

text \<open>
  C14. A queue of an unrecognised template is listed without getting a runner.  When it disappears
  from the list again, the next refresh ends the daemon with an exception that nothing catches,
  and with it every runner.
\<close>

theorem unrecognised_queue_kills_daemon:
  assumes "mg_keep_running mg" and "ra_attempts a = sel # as" and "res_status (sa_result sel) = PGRES_TUPLES_OK"
    and "\<And>c. ra_spawn a c = None" and "fits (ra_writes a)"
    and "c \<in> set (mg_old_cmd_classes mg)" and "c \<notin> queue_names (queues_of what (sa_result sel))" and "served mg c = None"
  shows "\<exists>msg. refresh_queue_list what retry a mg = Dies (Exn (Runtime_error msg))"
proof -
  let ?qs = "queues_of what (sa_result sel)"
  let ?mg1 = "(manager_call (select_queues_call (mg_explicit_cmd_classes mg)) mg)\<lparr>mg_new_cmd_classes := []\<rparr>"
  have served1: "served ?mg1 = served mg" by (simp del: fun_upd_apply)
  obtain mg2 where mg2: "refresh_rows (ra_spawn a) ?qs ?mg1 = Returns mg2" "rows_frame ?mg1 mg2"
    "set (mg_new_cmd_classes mg2) = queue_names ?qs"
    "served mg2 = wanted (mg_sigmask ?mg1 \<union> sigset_masked_in_runner_threads) ?qs ++ served mg"
    using refresh_rows_spec [of "ra_spawn a" ?qs ?mg1] assms(4) served1 by auto
  have old: "mg_old_cmd_classes mg2 = mg_old_cmd_classes mg"
    using mg2(2) by (simp add: rows_frame_def manager_call_def)
  have "served mg2 c = None"
    using assms(7,8) wanted_names [of _ ?qs c] mg2(4)
    by (cases "wanted (mg_sigmask ?mg1 \<union> sigset_masked_in_runner_threads) ?qs c") (auto simp: map_add_def)
  with stop_disappeared_dies [OF assms(5), of c "mg_old_cmd_classes mg" mg2] assms(6,7) mg2(3)
  obtain msg where "stop_disappeared (ra_writes a) (mg_old_cmd_classes mg2) mg2 = Dies (Exn (Runtime_error msg))"
    by (auto simp: old)
  with mg2(1) assms(1-3) show ?thesis by (simp add: refresh_queue_list_def)
qed

definition unrecognised_manager :: manager where
  "unrecognised_manager = (make_instance False [] {})\<lparr>mg_old_cmd_classes := [''x'']\<rparr>"

lemma unrecognised_listed:
  "\<exists>mg'. refresh_queue_list what False (refresh_with (queue_result [(''x'', ''http_queue_cmd_template'')]))
      (make_instance False [] {}) = Returns (mg', []) \<and>
    mg_old_cmd_classes mg' = [''x''] \<and> served mg' ''x'' = None"
  by (simp add: refresh_queue_list_def refresh_with_def manager_call_def make_instance_def refresh_rows_Cons
      ensure_runner_def queue_has_runner_already_def add_runner_eq kind_of_def queue_from_def c_string_def
      insort_insert_insort served_def del: refresh_rows.simps(2))

theorem unrecognised_queue_kills_daemon_witness:
  "\<exists>msg. refresh_queue_list (\<lambda>_. []) True (refresh_with (queue_result [])) unrecognised_manager =
    Dies (Exn (Runtime_error msg))"
  by (rule unrecognised_queue_kills_daemon [of _ _ _ _ "''x''"])
    (auto simp: unrecognised_manager_def make_instance_def refresh_with_def fits_example served_def)

section \<open>A refresh that is interrupted\<close>

lemma select_queues_fails:
  assumes "\<forall>b\<in>set as. res_status (sa_result b) \<noteq> PGRES_TUPLES_OK \<and>
      (\<forall>s\<in>{SIGTERM, SIGINT, SIGQUIT}. \<not> sa_sig_recv b s)"
    and "res_status (sa_result l) \<noteq> PGRES_TUPLES_OK" and "\<exists>s\<in>{SIGTERM, SIGINT, SIGQUIT}. sa_sig_recv l s"
    and "mg_keep_running mg"
  shows "\<exists>mg'. select_queues True (as @ [l]) secs result mg =
      Returns (Some (sa_result l), mg', backoff (Suc (length as)) secs) \<and>
    \<not> mg_keep_running mg' \<and> served mg' = served mg \<and> mg_old_cmd_classes mg' = mg_old_cmd_classes mg \<and>
    mg_sigmask mg' = mg_sigmask mg"
  using assms(1,4)
proof (induction "as" arbitrary: secs result mg)
  case Nil
  have "sig_num_received (sa_sig_recv l) [SIGTERM, SIGINT, SIGQUIT] \<noteq> 0"
    using assms(3) by (subst sig_num_received_0_iff) (auto simp: signal_defs)
  with Nil assms(2) show ?case by (auto simp: Let_def simp del: sig_num_received.simps)
next
  case (Cons b bs)
  let ?mg1 = "manager_call (select_queues_call (mg_explicit_cmd_classes mg)) mg"
  have quiet_b: "sig_num_received (sa_sig_recv b) [SIGTERM, SIGINT, SIGQUIT] = 0"
    using Cons.prems(1) by (subst sig_num_received_0_iff) (auto simp: signal_defs)
  have "mg_keep_running ?mg1" using Cons.prems(2) by simp
  with Cons.IH [of ?mg1 "next_retry secs" "sa_result b"] Cons.prems quiet_b show ?case
    by (auto simp: Let_def simp del: sig_num_received.simps)
qed

text \<open>
  C15. When the \<^verbatim>\<open>SELECT\<close> of the queues keeps failing, it is tried again after 1, 2, 4, 8, 16
  and then always 32 seconds; when a stop signal has come in during one of these waits, the list
  is taken to be empty, so that every runner of a listed queue is sent \<open>SIGTERM\<close>, none is
  started, and the manager's loops are left.
\<close>

theorem interrupted_refresh_stops_runners:
  assumes "mg_keep_running mg" and "ra_attempts a = as @ [l]"
    and "\<forall>b\<in>set (as @ [l]). res_status (sa_result b) \<noteq> PGRES_TUPLES_OK"
    and "\<forall>b\<in>set as. \<forall>s\<in>{SIGTERM, SIGINT, SIGQUIT}. \<not> sa_sig_recv b s"
    and "\<exists>s\<in>{SIGTERM, SIGINT, SIGQUIT}. sa_sig_recv l s" and "res_rows (sa_result l) = []"
    and "\<And>c. ra_spawn a c = None" and "fits (ra_writes a)" and "distinct (mg_old_cmd_classes mg)"
    and "\<forall>c\<in>set (mg_old_cmd_classes mg). served mg c \<noteq> None"
  shows "\<exists>mg'. refresh_queue_list what True a mg = Returns (mg', map (\<lambda>i. 2 ^ min 5 i) [0..<Suc (length as)]) \<and>
    \<not> mg_keep_running mg' \<and> mg_old_cmd_classes mg' = [] \<and>
    served mg' = (\<lambda>c. map_option (\<lambda>(k, th).
      (k, if c \<in> set (mg_old_cmd_classes mg) then told SIGTERM th else th)) (served mg c))"
proof -
  let ?slept = "backoff (Suc (length as)) 1"
  have "\<exists>mg'. select_queues True (as @ [l]) 1 null_result mg = Returns (Some (sa_result l), mg', ?slept) \<and>
    \<not> mg_keep_running mg' \<and> served mg' = served mg \<and> mg_old_cmd_classes mg' = mg_old_cmd_classes mg \<and>
    mg_sigmask mg' = mg_sigmask mg"
    using assms(1,3-5) by (intro select_queues_fails) auto
  then obtain mg1 where mg1: "select_queues True (ra_attempts a) 1 null_result mg =
      Returns (Some (sa_result l), mg1, ?slept)"
    "\<not> mg_keep_running mg1" "served mg1 = served mg" "mg_old_cmd_classes mg1 = mg_old_cmd_classes mg"
    unfolding assms(2) by blast
  have none: "queues_of what (sa_result l) = []" by (simp add: queues_of_def ntuples_def assms(6))
  obtain mg' where "refresh_queue_list what True a mg = Returns (mg', ?slept)" "\<not> mg_keep_running mg'"
    "registry_of mg' = spec_refresh (mg_sigmask mg1 \<union> sigset_masked_in_runner_threads) [] (registry_of mg1)"
    using refresh_meets_spec [OF mg1(1) assms(7,8), of what] assms(9,10) mg1(2-4) none by auto
  moreover have "?slept = map (\<lambda>i. 2 ^ min 5 i) [0..<Suc (length as)]"
    using backoff_powers [of 0 "Suc (length as)"] by (simp del: backoff.simps upt_Suc)
  ultimately show ?thesis
    by (auto simp: registry_of_def spec_refresh_def mg1(3,4) simp del: backoff.simps upt_Suc)
qed

definition failed_attempt :: "bool \<Rightarrow> select_attempt" where
  "failed_attempt stop = \<lparr>sa_result = null_result, sa_sig_recv = (\<lambda>s. stop \<and> s = SIGTERM)\<rparr>"

theorem interrupted_refresh_stops_runners_witness:
  "\<exists>mg'. refresh_queue_list (\<lambda>_. []) True \<lparr>ra_attempts = [failed_attempt False, failed_attempt True],
       ra_spawn = (\<lambda>_. None), ra_writes = (\<lambda>_. [Wrote 4, Wrote 0])\<rparr> example_manager = Returns (mg', [1, 2]) \<and>
     \<not> mg_keep_running mg'"
proof -
  let ?a = "\<lparr>ra_attempts = [failed_attempt False, failed_attempt True], ra_spawn = (\<lambda>_. None),
    ra_writes = (\<lambda>_. [Wrote 4, Wrote 0])\<rparr>"
  have "\<exists>mg'. refresh_queue_list (\<lambda>_. []) True ?a example_manager =
      Returns (mg', map (\<lambda>i. 2 ^ min 5 i) [0..<Suc (length [failed_attempt False])]) \<and>
    \<not> mg_keep_running mg' \<and> mg_old_cmd_classes mg' = [] \<and>
    served mg' = (\<lambda>c. map_option (\<lambda>(k, th).
      (k, if c \<in> set (mg_old_cmd_classes example_manager) then told SIGTERM th else th)) (served example_manager c))"
    by (rule interrupted_refresh_stops_runners [where l = "failed_attempt True"])
      (auto simp: failed_attempt_def null_result_def fits_example)
  then show ?thesis by (auto simp: numeral_2_eq_2)
qed

section \<open>Notifications\<close>


definition notify_with :: "composite_field list \<Rightarrow> notification" where
  "notify_with fs = \<lparr>nt_extra = composite_text fs, nt_refresh = refresh_with (queue_result [])\<rparr>"


section \<open>Stopping all runners\<close>

lemma kill_all_told: "fits writes \<Longrightarrow> kill_all writes s rs = Returns (map (\<lambda>(c, th). (c, told s th)) rs)"
  by (induction rs) (auto simp: fits_def kill_thread_told)

definition tell_all :: "signal \<Rightarrow> manager \<Rightarrow> manager" where
  "tell_all s mg = mg\<lparr>mg_nix_cmd_queue_runners := map (\<lambda>(c, th). (c, told s th)) (mg_nix_cmd_queue_runners mg),
     mg_sql_cmd_queue_runners := map (\<lambda>(c, th). (c, told s th)) (mg_sql_cmd_queue_runners mg)\<rparr>"

lemma served_tell_all: "served (tell_all s mg) c = map_option (\<lambda>(k, th). (k, told s th)) (served mg c)"
proof -
  have "map_of (map (\<lambda>(c, th). (c, told s th)) rs) c = map_option (told s) (map_of rs c)" for rs
    by (induction rs) auto
  then show ?thesis by (simp add: served_def tell_all_def option.map_comp comp_def split: option.split)
qed

lemma join_waits:
  assumes "served mg c = Some (k, th)" and "th_run th = None"
  shows "join_all_threads (tell_all s mg) = Waits"
proof -
  have "(c, th) \<in> set (mg_nix_cmd_queue_runners mg @ mg_sql_cmd_queue_runners mg)"
    using assms(1) by (auto simp: served_def split: option.splits dest: map_of_SomeD)
  with assms(2) show ?thesis
    by (force simp: tell_all_def join_all_threads_def thread_ended_def told_def thread_running_def)
qed

text \<open>
  \<^verbatim>\<open>stop_all_runners\<close> passes the first stop signal received, or a zero, on to every runner
  whose thread has begun and is running, and to no other: one whose thread has not yet begun
  misses it, and \<^verbatim>\<open>join_all_threads\<close> then waits for a thread that nothing tells to stop.
\<close>

theorem stop_all_runners_tells:
  assumes "fits writes" and "\<And>s. s \<in> {SIGTERM, SIGINT, SIGQUIT} \<Longrightarrow> sig_recv s \<longleftrightarrow> s = sig_num"
  shows "\<exists>mg'. stop_all_runners sig_recv writes mg = Returns mg' \<and>
    (\<forall>c. served mg' c = map_option (\<lambda>(k, th). (k, told (if sig_num \<in> {SIGTERM, SIGINT, SIGQUIT} then sig_num else 0) th)) (served mg c)) \<and>
    (\<forall>c k th. served mg c = Some (k, th) \<longrightarrow> th_run th = None \<longrightarrow>
       served mg' c = Some (k, th) \<and> join_all_threads mg' = Waits)"
proof -
  let ?s = "if sig_num \<in> {SIGTERM, SIGINT, SIGQUIT} then sig_num else 0"
  have "sig_num_received sig_recv [SIGQUIT, SIGTERM, SIGINT] = ?s"
    using assms(2) [of SIGTERM] assms(2) [of SIGINT] assms(2) [of SIGQUIT] by (auto simp: signal_defs)
  then have "stop_all_runners sig_recv writes mg = Returns (tell_all ?s mg)"
    by (simp add: stop_all_runners_def tell_all_def kill_all_told [OF assms(1)] Let_def del: sig_num_received.simps)
  moreover have "served (tell_all s mg) c = Some (k, th)" if "served mg c = Some (k, th)" "th_run th = None" for c k th s
    using that by (simp add: served_tell_all told_def thread_running_def)
  ultimately show ?thesis using served_tell_all join_waits by blast
qed

theorem stop_all_runners_tells_witness:
  "\<exists>mg'. stop_all_runners (\<lambda>s. s = SIGINT) (\<lambda>_. [Wrote 4, Wrote 0]) example_manager = Returns mg' \<and>
    join_all_threads mg' = Waits"
proof -
  have "served example_manager ''q'' = Some (Sql, new_thread {SIGTERM, SIGINT} (queue_from ''q'' ''sql_queue_cmd_template''))"
    and "th_run (new_thread {SIGTERM, SIGINT} (queue_from ''q'' ''sql_queue_cmd_template'')) = None"
    by (simp_all add: new_thread_def)
  then show ?thesis
    using stop_all_runners_tells [OF fits_example refl, of SIGINT example_manager] by blast
qed

section \<open>The names of the queues\<close>

text \<open>
  \<^verbatim>\<open>get_cmd_class_names\<close> never returns an empty list: with no queue in the table it throws,
  as it does without a connection, and nothing catches it.  So the exit code 66 that \<^verbatim>\<open>main\<close> has
  for an empty list is never used.
\<close>

theorem class_names_not_empty:
  assumes "get_cmd_class_names attempts qresult mg = Returns (names, mg')"
  shows "names \<noteq> [] \<and> length names = ntuples qresult \<and>
    (\<forall>i<ntuples qresult. column qresult i (fnumbers qresult) ''cmd_class'' = Inr (names ! i))"
proof -
  have names: "class_names qresult [0..<ntuples qresult] = Inr names" and "ntuples qresult \<noteq> 0"
    using assms by (auto simp: get_cmd_class_names_def bind_outcome_Returns_iff split: if_splits sum.splits)
  have "class_names qresult is = Inr vs \<Longrightarrow> length vs = length is \<and>
      (\<forall>j<length is. column qresult (is ! j) (fnumbers qresult) ''cmd_class'' = Inr (vs ! j))" for "is" vs
  proof (induction "is" arbitrary: vs)
    case (Cons i "is")
    then obtain v vs' where "column qresult i (fnumbers qresult) ''cmd_class'' = Inr v"
      "class_names qresult is = Inr vs'" "vs = v # vs'"
      by (auto simp: bind_exn_Inr_iff map_exn_Inr_iff)
    with Cons.IH show ?case by (auto simp: nth_Cons split: nat.split)
  qed simp
  from this [OF names] \<open>ntuples qresult \<noteq> 0\<close> show ?thesis by auto
qed

theorem class_names_not_empty_witness:
  "\<exists>mg'. get_cmd_class_names [ok_attempt] (text_result PGRES_TUPLES_OK [''cmd_class''] [[Some ''a''], [Some ''b'']])
      example_manager = Returns ([''a'', ''b''], mg') \<and> [''a'', ''b''] \<noteq> []"
proof -
  let ?res = "text_result PGRES_TUPLES_OK [''cmd_class''] [[Some ''a''], [Some ''b'']]"
  have "\<exists>mg'. get_cmd_class_names [ok_attempt] ?res example_manager = Returns ([''a'', ''b''], mg')"
    by (simp add: get_cmd_class_names_def maintain_connection_def example_manager_def text_result_def ntuples_def
        column_def fnumbers_def getvalue_cell cell_exists_def c_string_def upt_conv_Cons)
  then show ?thesis using class_names_not_empty by blast
qed

end
