(* ===== verification/Logger.thy ===== *)
theory Logger
  imports Utils Fds CmdQueueMeta
begin

text \<open>
  \<^verbatim>\<open>Logger\<close> (\<^verbatim>\<open>logger.cpp\<close>, \<^verbatim>\<open>logger.h\<close>): any thread appends lines to a queue and posts a
  semaphore; a writer thread takes them out one by one.  The calls of the other threads and the
  steps of the writer are the events of a state machine.  What \<^verbatim>\<open>vsnprintf\<close> makes of a format
  with the arguments of a call is an input of the call, as is the printed time.
\<close>

section \<open>State\<close>

record log_line =
  ll_line :: string
  ll_alsoToStdOut :: bool

text \<open>The writer is before the condition of its loop, waits for the semaphore, or has left.\<close>

datatype writer = At_check | At_wait | Left

text \<open>One line of output, and whether it reached the log file and the standard output.\<close>

record written =
  wr_text :: string
  wr_file :: bool
  wr_std :: bool

record logger =
  lg_logPath :: string
  lg_curLogLevel :: log_level
  lg_lines :: "log_line list"
  lg_linesPending :: nat
  lg_writer :: writer
  lg_running :: bool
  lg_file :: "string option"
  lg_alsoLogToStd :: bool
  lg_reload :: bool
  lg_logTimes :: bool
  lg_graceCounter :: nat
  lg_output :: "written list"

definition logger_init :: logger where
  "logger_init = \<lparr>lg_logPath = [], lg_curLogLevel = LOG_NOTICE, lg_lines = [], lg_linesPending = 0,
     lg_writer = At_check, lg_running = True, lg_file = None, lg_alsoLogToStd = True, lg_reload = False,
     lg_logTimes = True, lg_graceCounter = 0, lg_output = []\<rparr>"

section \<open>Logging\<close>

abbreviation escape :: char where "escape \<equiv> CHR 0x1B"

text \<open>The format that \<^verbatim>\<open>log\<close> composes around its own; \<open>now\<close> is the printed time.\<close>

definition log_format :: "cmd_queue option \<Rightarrow> bool \<Rightarrow> string \<Rightarrow> log_level \<Rightarrow> string \<Rightarrow> string" where
  "log_format cq logTimes now level str =
     (case cq of None \<Rightarrow> [] | Some q \<Rightarrow> [escape] @ cq_ansi_fg q) @
     (if logTimes then ''['' @ now @ ''] '' else []) @
     (case cq of None \<Rightarrow> [] | Some q \<Rightarrow> ''['' @ cq_cmd_class_identity q @ ''] '') @
     ''['' @ getLogLevelString level @ ''] '' @ c_string str @
     (case cq of None \<Rightarrow> [] | Some q \<Rightarrow> [escape] @ ''[0m'')"

text \<open>
  The composed string is the format of \<^verbatim>\<open>vsnprintf\<close>, whose first call measures the result for
  the buffer of the second; the line ends at the first \<^verbatim>\<open>NUL\<close>.
\<close>

definition log ::
    "cmd_queue option \<Rightarrow> string \<Rightarrow> (string \<Rightarrow> string) \<Rightarrow> log_level \<Rightarrow> string \<Rightarrow> logger \<Rightarrow> logger" where
  "log cq now vsnprintf level str lg =
     (if \<not> level_is_logged (lg_curLogLevel lg) level then lg
      else
        (let buf = c_string (vsnprintf (c_string (log_format cq (lg_logTimes lg) now level str))) in
         lg\<lparr>lg_lines := lg_lines lg @ [\<lparr>ll_line = buf, ll_alsoToStdOut = lg_alsoLogToStd lg\<rparr>],
            lg_linesPending := Suc (lg_linesPending lg)\<rparr>))"

text \<open>A stream logs its text, as a format without arguments, when it is destroyed.\<close>

definition StreamToLog :: "cmd_queue option \<Rightarrow> string \<Rightarrow> (string \<Rightarrow> string) \<Rightarrow> log_level \<Rightarrow> string \<Rightarrow> logger \<Rightarrow> logger" where
  "StreamToLog cq now vsnprintf level s lg = log cq now vsnprintf level (c_string s) lg"

section \<open>Settings\<close>

definition queueReOpen :: "logger \<Rightarrow> logger" where
  "queueReOpen lg = lg\<lparr>lg_reload := True, lg_linesPending := Suc (lg_linesPending lg)\<rparr>"

definition quoted :: "string \<Rightarrow> string" where
  "quoted s = [CHR 0x27] @ s @ [CHR 0x27]"

definition noLongerLogToStd :: "cmd_queue option \<Rightarrow> string \<Rightarrow> (string \<Rightarrow> string) \<Rightarrow> logger \<Rightarrow> logger" where
  "noLongerLogToStd cq now vsnprintf lg =
     (if lg_logPath lg \<noteq> []
      then log cq now vsnprintf LOG_INFO (''Switching logging from stdout to logfile '' @ quoted ''%s'') lg else lg)
       \<lparr>lg_alsoLogToStd := False\<rparr>"

definition setLogPath :: "string \<Rightarrow> logger \<Rightarrow> logger" where
  "setLogPath path lg = lg\<lparr>lg_logPath := path\<rparr>"

definition setLogLevel :: "log_level \<Rightarrow> logger \<Rightarrow> logger" where
  "setLogLevel level lg = lg\<lparr>lg_curLogLevel := level\<rparr>"

text \<open>\<^verbatim>\<open>quit\<close> up to the \<^verbatim>\<open>join()\<close>, which returns when the writer has left.\<close>

definition quit :: "logger \<Rightarrow> logger" where
  "quit lg = lg\<lparr>lg_running := False, lg_linesPending := Suc (lg_linesPending lg)\<rparr>"

section \<open>The writer\<close>

text \<open>\<^verbatim>\<open>std::getline\<close> until the stream is exhausted\<close>

fun getlines_from :: "string \<Rightarrow> string \<Rightarrow> string list" where
  "getlines_from real_line [] = (if real_line = [] then [] else [real_line])"
| "getlines_from real_line (c # cs) =
     (if c = newline then real_line # getlines_from [] cs else getlines_from (real_line @ [c]) cs)"

definition getlines :: "string \<Rightarrow> string list" where
  "getlines s = getlines_from [] s"

text \<open>
  What the operating system answers when the writer wakes up: to \<^verbatim>\<open>fopen()\<close>, and which of the
  real lines cannot be written to the file.
\<close>

record wake_answers =
  wk_fopen :: "errno option"
  wk_now :: string
  wk_vsnprintf :: "string \<Rightarrow> string"
  wk_fails :: "nat \<Rightarrow> bool"

definition reopen_error :: string where
  "reopen_error = ''(Re)opening log file '' @ quoted ''%s'' @ '' error: %s. Logging to stdout.''"

definition reOpen :: "wake_answers \<Rightarrow> logger \<Rightarrow> logger" where
  "reOpen a lg =
     (let lg1 = lg\<lparr>lg_reload := False, lg_file := None\<rparr> in
      if lg_logPath lg1 = [] then lg1
      else
        (case wk_fopen a of
           None \<Rightarrow> lg1\<lparr>lg_file := Some (lg_logPath lg1)\<rparr>
         | Some e \<Rightarrow> log None (wk_now a) (wk_vsnprintf a) LOG_ERROR reopen_error lg1))"

fun write_real_lines :: "(nat \<Rightarrow> bool) \<Rightarrow> nat \<Rightarrow> log_line \<Rightarrow> string list \<Rightarrow> logger \<Rightarrow> logger" where
  "write_real_lines fails i line [] lg = lg"
| "write_real_lines fails i line (real_line # ls) lg =
     (let has_file = lg_file lg \<noteq> None;
          failed = has_file \<and> fails i;
          w = \<lparr>wr_text = c_string real_line, wr_file = has_file \<and> \<not> failed,
               wr_std = \<not> has_file \<or> ll_alsoToStdOut line\<rparr> in
      write_real_lines fails (Suc i) line ls
        (lg\<lparr>lg_alsoLogToStd := lg_alsoLogToStd lg \<or> failed, lg_output := lg_output lg @ [w]\<rparr>))"

text \<open>The condition of the loop\<close>

definition writer_checks :: "logger \<Rightarrow> logger" where
  "writer_checks lg =
     (if lg_writer lg \<noteq> At_check then lg
      else if lg_running lg then lg\<lparr>lg_writer := At_wait\<rparr>
      else if lg_lines lg \<noteq> []
      then lg\<lparr>lg_graceCounter := Suc (lg_graceCounter lg),
              lg_writer := (if lg_graceCounter lg < 1000 then At_wait else Left)\<rparr>
      else lg\<lparr>lg_writer := Left\<rparr>)"

text \<open>Its body, once the semaphore can be taken\<close>

definition writer_wakes :: "wake_answers \<Rightarrow> logger \<Rightarrow> logger" where
  "writer_wakes a lg =
     (if lg_writer lg \<noteq> At_wait \<or> lg_linesPending lg = 0 then lg
      else
        (let lg1 = lg\<lparr>lg_linesPending := lg_linesPending lg - 1, lg_writer := At_check\<rparr>;
             lg2 = (if lg_reload lg1 then reOpen a lg1 else lg1) in
         case lg_lines lg2 of
           [] \<Rightarrow> lg2
         | line # ls \<Rightarrow> write_real_lines (wk_fails a) 0 line (getlines (ll_line line)) (lg2\<lparr>lg_lines := ls\<rparr>)))"

section \<open>The machine\<close>

datatype log_event =
    Log "cmd_queue option" string "string \<Rightarrow> string" log_level string
  | Reopens
  | No_longer_std "cmd_queue option" string "string \<Rightarrow> string"
  | Sets_path string
  | Sets_level log_level
  | Quits
  | Checks
  | Wakes wake_answers

fun logger_step :: "log_event \<Rightarrow> logger \<Rightarrow> logger" where
  "logger_step (Log cq now vs level str) lg = log cq now vs level str lg"
| "logger_step Reopens lg = queueReOpen lg"
| "logger_step (No_longer_std cq now vs) lg = noLongerLogToStd cq now vs lg"
| "logger_step (Sets_path path) lg = setLogPath path lg"
| "logger_step (Sets_level level) lg = setLogLevel level lg"
| "logger_step Quits lg = quit lg"
| "logger_step Checks lg = writer_checks lg"
| "logger_step (Wakes a) lg = writer_wakes a lg"

definition logger_run :: "log_event list \<Rightarrow> logger \<Rightarrow> logger" where
  "logger_run es lg = fold logger_step es lg"

end
