(* ===== verification/LoggerProps.thy ===== *)
theory LoggerProps
  imports Logger
begin

text \<open>
  What the logger keeps to: it writes the lines it was given in their order and each of them once,
  its semaphore never falls behind its queue, and after \<^verbatim>\<open>quit\<close> its writer leaves.
\<close>

section \<open>The contract of an event\<close>

text \<open>
  An invariant of the logger is one that the calls, the check and the wake-up keep; it then holds
  along every run.
\<close>

locale logger_invariant =
  fixes I :: "logger \<Rightarrow> bool"
  assumes log: "I lg \<Longrightarrow> I (log cq now vs level str lg)"
    and std: "I lg \<Longrightarrow> I (lg\<lparr>lg_alsoLogToStd := b\<rparr>)"
    and path: "I lg \<Longrightarrow> I (setLogPath p lg)"
    and level: "I lg \<Longrightarrow> I (setLogLevel l lg)"
    and reopen: "I lg \<Longrightarrow> I (queueReOpen lg)"
    and quit: "I lg \<Longrightarrow> I (quit lg)"
    and check: "I lg \<Longrightarrow> I (writer_checks lg)"
    and wake: "I lg \<Longrightarrow> I (writer_wakes a lg)"
begin

lemma step: "I lg \<Longrightarrow> I (logger_step e lg)"
  by (cases e) (auto simp: noLongerLogToStd_def intro: log std path level reopen quit check wake)

lemma run: "I lg \<Longrightarrow> I (logger_run es lg)"
  by (induction es arbitrary: lg) (auto simp: logger_run_def intro: step)

end

section \<open>Writing one line\<close>

lemma write_real_lines_frame [simp]:
  "lg_lines (write_real_lines fails i line ls lg) = lg_lines lg"
  "lg_linesPending (write_real_lines fails i line ls lg) = lg_linesPending lg"
  "lg_writer (write_real_lines fails i line ls lg) = lg_writer lg"
  "lg_running (write_real_lines fails i line ls lg) = lg_running lg"
  "lg_reload (write_real_lines fails i line ls lg) = lg_reload lg"
  "lg_graceCounter (write_real_lines fails i line ls lg) = lg_graceCounter lg"
  "lg_file (write_real_lines fails i line ls lg) = lg_file lg"
  by (induction ls arbitrary: i lg) (simp_all add: Let_def)

lemma write_real_lines_output:
  "lg_output (write_real_lines fails i line ls lg) = lg_output lg @
     map (\<lambda>(j, l). \<lparr>wr_text = c_string l, wr_file = lg_file lg \<noteq> None \<and> \<not> fails j,
       wr_std = lg_file lg = None \<or> ll_alsoToStdOut line\<rparr>) (enumerate i ls)"
proof (induction ls arbitrary: i lg)
  case (Cons l ls)
  then show ?case by (cases "lg_file lg") (simp_all add: Let_def)
qed simp

lemma write_real_lines_also:
  "lg_alsoLogToStd (write_real_lines fails i line ls lg) \<longleftrightarrow>
     lg_alsoLogToStd lg \<or> lg_file lg \<noteq> None \<and> (\<exists>j<length ls. fails (i + j))"
proof (induction ls arbitrary: i lg)
  case (Cons l ls)
  then show ?case by (cases "lg_file lg") (auto simp: Let_def less_Suc_eq_0_disj)
qed simp

section \<open>First in, first out\<close>

text \<open>The line that one call of \<^verbatim>\<open>log\<close> appends, if any.\<close>

definition log_lines ::
    "cmd_queue option \<Rightarrow> string \<Rightarrow> (string \<Rightarrow> string) \<Rightarrow> log_level \<Rightarrow> string \<Rightarrow> logger \<Rightarrow> log_line list" where
  "log_lines cq now vs level str lg =
     (if level_is_logged (lg_curLogLevel lg) level
      then [\<lparr>ll_line = c_string (vs (c_string (log_format cq (lg_logTimes lg) now level str))),
             ll_alsoToStdOut = lg_alsoLogToStd lg\<rparr>]
      else [])"

lemma lg_lines_log: "lg_lines (log cq now vs level str lg) = lg_lines lg @ log_lines cq now vs level str lg"
  by (simp add: log_def log_lines_def Let_def)

lemma log_frame [simp]:
  "lg_writer (log cq now vs level str lg) = lg_writer lg"
  "lg_running (log cq now vs level str lg) = lg_running lg"
  "lg_reload (log cq now vs level str lg) = lg_reload lg"
  "lg_graceCounter (log cq now vs level str lg) = lg_graceCounter lg"
  "lg_output (log cq now vs level str lg) = lg_output lg"
  "lg_file (log cq now vs level str lg) = lg_file lg"
  by (simp_all add: log_def Let_def)

definition reopen_lines :: "wake_answers \<Rightarrow> logger \<Rightarrow> log_line list" where
  "reopen_lines a lg =
     (if lg_reload lg \<and> lg_logPath lg \<noteq> [] \<and> wk_fopen a \<noteq> None
      then log_lines None (wk_now a) (wk_vsnprintf a) LOG_ERROR reopen_error lg else [])"

text \<open>The lines that an event appends, and those that a sequence of events does.\<close>

fun pushed :: "log_event \<Rightarrow> logger \<Rightarrow> log_line list" where
  "pushed (Log cq now vs level str) lg = log_lines cq now vs level str lg"
| "pushed (No_longer_std cq now vs) lg =
     (if lg_logPath lg \<noteq> []
      then log_lines cq now vs LOG_INFO (''Switching logging from stdout to logfile '' @ quoted ''%s'') lg else [])"
| "pushed (Wakes a) lg =
     (if lg_writer lg = At_wait \<and> lg_linesPending lg \<noteq> 0 then reopen_lines a lg else [])"
| "pushed _ lg = []"

fun accepted :: "log_event list \<Rightarrow> logger \<Rightarrow> log_line list" where
  "accepted [] lg = []"
| "accepted (e # es) lg = pushed e lg @ accepted es (logger_step e lg)"

definition texts :: "log_line list \<Rightarrow> string list" where
  "texts ls = concat (map (\<lambda>l. map c_string (getlines (ll_line l))) ls)"

lemma texts_simps [simp]: "texts [] = []" "texts (ls @ ls') = texts ls @ texts ls'"
  "texts (l # ls) = map c_string (getlines (ll_line l)) @ texts ls"
  by (simp_all add: texts_def)

lemma reOpen_frame [simp]:
  "lg_writer (reOpen a lg) = lg_writer lg"
  "lg_running (reOpen a lg) = lg_running lg"
  "\<not> lg_reload (reOpen a lg)"
  "lg_graceCounter (reOpen a lg) = lg_graceCounter lg"
  "lg_output (reOpen a lg) = lg_output lg"
  by (simp_all add: reOpen_def Let_def split: option.split)

lemma lg_lines_reOpen:
  "lg_reload lg \<Longrightarrow> lg_lines (reOpen a (lg\<lparr>lg_linesPending := n, lg_writer := w\<rparr>)) = lg_lines lg @ reopen_lines a lg"
  by (auto simp: reOpen_def reopen_lines_def lg_lines_log log_lines_def Let_def split: option.split)

text \<open>One event: some lines leave the queue at its front, and their texts are written.\<close>

lemma logger_step_fifo:
  "\<exists>handled. lg_lines lg @ pushed e lg = handled @ lg_lines (logger_step e lg) \<and>
    map wr_text (lg_output (logger_step e lg)) = map wr_text (lg_output lg) @ texts handled"
proof (cases "\<exists>a. e = Wakes a \<and> lg_writer lg = At_wait \<and> lg_linesPending lg \<noteq> 0")
  case False
  then have "lg_lines lg @ pushed e lg = lg_lines (logger_step e lg) \<and>
      lg_output (logger_step e lg) = lg_output lg"
    by (cases e) (auto simp: lg_lines_log noLongerLogToStd_def queueReOpen_def setLogPath_def setLogLevel_def
        quit_def writer_checks_def writer_wakes_def)
  then show ?thesis by (intro exI [of _ "[]"]) simp
next
  case True
  then obtain a where e: "e = Wakes a" and woken: "lg_writer lg = At_wait" "lg_linesPending lg \<noteq> 0" by blast
  let ?lg1 = "lg\<lparr>lg_linesPending := lg_linesPending lg - 1, lg_writer := At_check\<rparr>"
  let ?lg2 = "if lg_reload lg then reOpen a ?lg1 else ?lg1"
  have lines: "lg_lines ?lg2 = lg_lines lg @ pushed e lg" and outp: "lg_output ?lg2 = lg_output lg"
    using woken by (auto simp: e lg_lines_reOpen reopen_lines_def)
  show ?thesis
  proof (cases "lg_lines ?lg2")
    case Nil
    then have "logger_step e lg = ?lg2"
      using woken by (auto simp: e writer_wakes_def Let_def)
    with Nil lines outp show ?thesis by (intro exI [of _ "[]"]) simp
  next
    case (Cons l ls)
    then have "logger_step e lg =
        write_real_lines (wk_fails a) 0 l (getlines (ll_line l)) (?lg2\<lparr>lg_lines := ls\<rparr>)"
      using woken by (auto simp: e writer_wakes_def Let_def)
    moreover have "map wr_text (map (\<lambda>(j, l). \<lparr>wr_text = c_string l, wr_file = f j, wr_std = b\<rparr>) (enumerate i xs)) =
        map c_string xs" for f b i xs
      by (induction xs arbitrary: i) auto
    ultimately show ?thesis
      using Cons lines outp
      by (intro exI [of _ "[l]"]) (simp add: write_real_lines_output del: map_map)
  qed
qed

lemma logger_run_Cons [simp]: "logger_run (e # es) lg = logger_run es (logger_step e lg)"
  by (simp add: logger_run_def)

lemma logger_run_Nil [simp]: "logger_run [] lg = lg"
  by (simp add: logger_run_def)

lemma logger_run_fifo:
  "\<exists>handled. lg_lines lg @ accepted es lg = handled @ lg_lines (logger_run es lg) \<and>
    map wr_text (lg_output (logger_run es lg)) = map wr_text (lg_output lg) @ texts handled"
proof (induction es arbitrary: lg)
  case Nil
  then show ?case by (intro exI [of _ "[]"]) simp
next
  case (Cons e es)
  obtain h1 where h1: "lg_lines lg @ pushed e lg = h1 @ lg_lines (logger_step e lg)"
    "map wr_text (lg_output (logger_step e lg)) = map wr_text (lg_output lg) @ texts h1"
    using logger_step_fifo by blast
  obtain h2 where h2: "lg_lines (logger_step e lg) @ accepted es (logger_step e lg) =
      h2 @ lg_lines (logger_run es (logger_step e lg))"
    "map wr_text (lg_output (logger_run es (logger_step e lg))) =
      map wr_text (lg_output (logger_step e lg)) @ texts h2"
    using Cons.IH by blast
  have "lg_lines lg @ accepted (e # es) lg = (h1 @ h2) @ lg_lines (logger_run (e # es) lg)"
    using h1(1) h2(1) by (metis accepted.simps(2) append.assoc logger_run_Cons)
  then show ?case using h1(2) h2(2) by (intro exI [of _ "h1 @ h2"]) simp
qed


section \<open>Where a line goes\<close>

text \<open>
  With a log file open, a line of text goes to the file, and to the standard output too when
  the logger still did so at the time of the call.  A line that cannot be written to the file
  turns that on again, but only for the calls that follow: the line itself, when it was not meant
  for the standard output, is lost.
\<close>

theorem failed_line_is_lost:
  assumes "lg_writer lg = At_wait" and "lg_linesPending lg \<noteq> 0" and "\<not> lg_reload lg"
    and "lg_lines lg = line # ls" and "lg_file lg = Some path" and "getlines (ll_line line) = rls"
  shows "lg_output (writer_wakes a lg) = lg_output lg @
      map (\<lambda>(j, l). \<lparr>wr_text = c_string l, wr_file = \<not> wk_fails a j, wr_std = ll_alsoToStdOut line\<rparr>) (enumerate 0 rls) \<and>
    (lg_alsoLogToStd (writer_wakes a lg) \<longleftrightarrow> lg_alsoLogToStd lg \<or> (\<exists>j<length rls. wk_fails a j)) \<and>
    lg_lines (writer_wakes a lg) = ls"
  using assms
  by (simp add: writer_wakes_def Let_def write_real_lines_output write_real_lines_also)

definition file_logger :: logger where
  "file_logger = logger_init\<lparr>lg_file := Some ''log'', lg_alsoLogToStd := False, lg_writer := At_wait,
     lg_linesPending := 1, lg_lines := [\<lparr>ll_line = ''lost'', ll_alsoToStdOut = False\<rparr>]\<rparr>"

definition failing_wake :: wake_answers where
  "failing_wake = \<lparr>wk_fopen = None, wk_now = [], wk_vsnprintf = id, wk_fails = (\<lambda>_. True)\<rparr>"

theorem failed_line_is_lost_witness:
  "lg_output (writer_wakes failing_wake file_logger) = [\<lparr>wr_text = ''lost'', wr_file = False, wr_std = False\<rparr>] \<and>
    lg_alsoLogToStd (writer_wakes failing_wake file_logger)"
  using failed_line_is_lost [of file_logger "\<lparr>ll_line = ''lost'', ll_alsoToStdOut = False\<rparr>" "[]" "''log''"
      "[''lost'']" failing_wake]
  by (simp add: file_logger_def logger_init_def failing_wake_def getlines_def c_string_def)

section \<open>The semaphore\<close>

definition sem_ok :: "logger \<Rightarrow> bool" where
  "sem_ok lg \<longleftrightarrow> length (lg_lines lg) \<le> lg_linesPending lg \<and>
     (\<not> lg_running lg \<longrightarrow> lg_writer lg = At_wait \<longrightarrow> 0 < lg_linesPending lg) \<and>
     (lg_running lg \<longrightarrow> lg_graceCounter lg = 0)"

lemma sem_ok_log: "sem_ok lg \<Longrightarrow> sem_ok (log cq now vs level str lg)"
  by (auto simp: sem_ok_def log_def Let_def)

lemma reOpen_pending:
  "length (lg_lines lg) \<le> Suc (lg_linesPending lg) \<Longrightarrow>
    length (lg_lines (reOpen a lg)) \<le> Suc (lg_linesPending (reOpen a lg))"
  by (auto simp: reOpen_def log_def Let_def split: option.split)

interpretation semaphore: logger_invariant sem_ok
proof
  fix lg a
  assume ok: "sem_ok lg"
  show "sem_ok (writer_wakes a lg)"
  proof (cases "lg_writer lg = At_wait \<and> lg_linesPending lg \<noteq> 0")
    case False
    with ok show ?thesis by (auto simp: writer_wakes_def)
  next
    case True
    let ?lg1 = "lg\<lparr>lg_linesPending := lg_linesPending lg - 1, lg_writer := At_check\<rparr>"
    define lg2 where "lg2 = (if lg_reload lg then reOpen a ?lg1 else ?lg1)"
    have "length (lg_lines lg2) \<le> Suc (lg_linesPending lg2)" "lg_writer lg2 = At_check"
      "lg_running lg2 \<longrightarrow> lg_graceCounter lg2 = 0"
      using ok True reOpen_pending [of ?lg1 a] by (auto simp: sem_ok_def lg2_def)
    moreover have "writer_wakes a lg = (case lg_lines lg2 of [] \<Rightarrow> lg2
        | line # ls \<Rightarrow> write_real_lines (wk_fails a) 0 line (getlines (ll_line line)) (lg2\<lparr>lg_lines := ls\<rparr>))"
      using True by (cases "lg_reload lg") (simp_all add: writer_wakes_def Let_def lg2_def split: list.split)
    ultimately show ?thesis by (auto simp: sem_ok_def split: list.split)
  qed
next
  fix lg
  assume "sem_ok lg"
  then show "sem_ok (writer_checks lg)" by (cases "lg_lines lg") (auto simp: sem_ok_def writer_checks_def)
qed (auto simp: sem_ok_log, auto simp: sem_ok_def setLogPath_def setLogLevel_def queueReOpen_def quit_def)

section \<open>The end of the writer\<close>

text \<open>Rounds of the writer's loop after \<^verbatim>\<open>quit\<close>, with nobody else calling.\<close>

definition writer_round :: "wake_answers \<Rightarrow> logger \<Rightarrow> logger" where
  "writer_round a lg = writer_wakes a (writer_checks lg)"

lemma sem_ok_round: "sem_ok lg \<Longrightarrow> sem_ok (writer_round a lg)"
  by (simp add: writer_round_def semaphore.check semaphore.wake)

lemma round_frame:
  "\<not> lg_reload lg \<Longrightarrow> \<not> lg_reload (writer_round a lg) \<and> lg_running (writer_round a lg) = lg_running lg"
  by (auto simp: writer_round_def writer_checks_def writer_wakes_def Let_def split: list.split)

lemma round_waiting:
  assumes "sem_ok lg" and "\<not> lg_running lg" and "\<not> lg_reload lg" and "lg_writer lg = At_wait"
  shows "lg_writer (writer_round a lg) = At_check \<and> lg_lines (writer_round a lg) = tl (lg_lines lg) \<and>
    lg_graceCounter (writer_round a lg) = lg_graceCounter lg"
  using assms by (auto simp: writer_round_def writer_checks_def writer_wakes_def Let_def sem_ok_def split: list.split)

lemma round_checking:
  assumes "sem_ok lg" and "\<not> lg_running lg" and "\<not> lg_reload lg" and "lg_writer lg = At_check"
  shows "(if lg_lines lg \<noteq> [] \<and> lg_graceCounter lg < 1000
    then lg_writer (writer_round a lg) = At_check \<and> lg_lines (writer_round a lg) = tl (lg_lines lg) \<and>
      lg_graceCounter (writer_round a lg) = Suc (lg_graceCounter lg)
    else lg_writer (writer_round a lg) = Left \<and> lg_lines (writer_round a lg) = lg_lines lg)"
  using assms by (auto simp: writer_round_def writer_checks_def writer_wakes_def Let_def sem_ok_def split: list.split)

lemma round_left: "lg_writer lg = Left \<Longrightarrow> writer_round a lg = lg"
  by (simp add: writer_round_def writer_checks_def writer_wakes_def)

lemma rounds_left: "lg_writer lg = Left \<Longrightarrow> fold writer_round as lg = lg"
  by (induction "as") (simp_all add: round_left)

lemma rounds_checking:
  assumes "sem_ok lg" and "\<not> lg_running lg" and "\<not> lg_reload lg" and "lg_writer lg = At_check"
    and "lg_graceCounter lg \<le> 1000" and "1000 - lg_graceCounter lg < length as"
  shows "lg_writer (fold writer_round as lg) = Left \<and>
    lg_lines (fold writer_round as lg) = drop (1000 - lg_graceCounter lg) (lg_lines lg)"
  using assms
proof (induction "as" arbitrary: lg)
  case (Cons a as)
  let ?lg = "writer_round a lg"
  note round = round_checking [OF Cons.prems(1-4), of a]
  show ?case
  proof (cases "lg_lines lg \<noteq> [] \<and> lg_graceCounter lg < 1000")
    case True
    with round have next_round: "lg_writer ?lg = At_check" "lg_lines ?lg = tl (lg_lines lg)"
      "lg_graceCounter ?lg = Suc (lg_graceCounter lg)" by simp_all
    have "lg_writer (fold writer_round as ?lg) = Left \<and>
        lg_lines (fold writer_round as ?lg) = drop (1000 - lg_graceCounter ?lg) (lg_lines ?lg)"
      using Cons.prems True next_round round_frame [OF Cons.prems(3), of a] sem_ok_round
      by (intro Cons.IH) auto
    moreover have "drop (1000 - Suc (lg_graceCounter lg)) (tl (lg_lines lg)) =
        drop (1000 - lg_graceCounter lg) (lg_lines lg)"
      using True by (cases "lg_lines lg") (auto simp: Suc_diff_le [symmetric] drop_Cons')
    ultimately show ?thesis by (simp add: next_round)
  next
    case False
    with round have "lg_writer ?lg = Left" "lg_lines ?lg = lg_lines lg" by auto
    with False Cons.prems(5) show ?thesis by (auto simp: rounds_left)
  qed
qed simp

lemma sem_ok_init: "sem_ok logger_init"
  by (simp add: sem_ok_def logger_init_def)

lemma writer_leaves:
  assumes "lg = logger_run es logger_init" and "lg_running lg" and "\<not> lg_reload lg"
    and "lg_writer lg \<noteq> Left" and "1002 \<le> length as"
  shows "lg_writer (fold writer_round as (quit lg)) = Left \<and>
    lg_lines (fold writer_round as (quit lg)) =
      drop (if lg_writer lg = At_wait then 1001 else 1000) (lg_lines lg)"
proof -
  have ok: "sem_ok lg" unfolding assms(1) by (rule semaphore.run [OF sem_ok_init])
  have q: "sem_ok (quit lg)" "\<not> lg_running (quit lg)" "\<not> lg_reload (quit lg)" "lg_graceCounter (quit lg) = 0"
    "lg_writer (quit lg) = lg_writer lg" "lg_lines (quit lg) = lg_lines lg"
    using semaphore.quit [OF ok] ok assms(2,3) by (simp_all add: quit_def sem_ok_def)
  show ?thesis
  proof (cases "lg_writer lg")
    case At_check
    with rounds_checking [OF q(1-3), of as] q assms(5) show ?thesis by simp
  next
    case At_wait
    obtain a as' where as: "as = a # as'" using assms(5) by (cases "as") auto
    let ?lg = "writer_round a (quit lg)"
    have first: "lg_writer ?lg = At_check" "lg_lines ?lg = tl (lg_lines lg)" "lg_graceCounter ?lg = 0"
      using round_waiting [OF q(1-3), of a] q At_wait by simp_all
    have "lg_writer (fold writer_round as' ?lg) = Left \<and> lg_lines (fold writer_round as' ?lg) = drop 1000 (tl (lg_lines lg))"
      using rounds_checking [of ?lg as'] first round_frame [OF q(3), of a] sem_ok_round [OF q(1)] q(2) assms(5) as
      by simp
    with At_wait as show ?thesis by (cases "lg_lines lg") simp_all
  qed (use assms(4) in simp)
qed



end
