(* ===== verification/DaemonMain.thy ===== *)
theory DaemonMain
  imports Daemon Logger
begin

text \<open>
  \<^verbatim>\<open>main\<close> of \<^verbatim>\<open>pg_cmd_queue_daemon.cpp\<close> up to the point where the daemon runs: its environment
  variables, its arguments, and the mode that lists the names of the queues.
\<close>

record settings =
  st_log_level :: log_level
  st_log_times :: bool
  st_explicit_cmd_classes :: "string list"
  st_conn_str :: string
  st_emit_sigusr1_when_ready :: bool
  st_list_mode :: bool

definition settings_init :: settings where
  "settings_init = \<lparr>st_log_level = LOG_INFO, st_log_times = True, st_explicit_cmd_classes = [],
     st_conn_str = [], st_emit_sigusr1_when_ready = False, st_list_mode = False\<rparr>"

text \<open>
  How this part of \<^verbatim>\<open>main\<close> ends: by \<^verbatim>\<open>exit\<close>, by an exception that nothing catches (with its
  message), or by going on with the settings.
\<close>

datatype parse_end = Exits int | Uncaught string | Settled settings

definition bold :: "string \<Rightarrow> string" where
  "bold s = [escape] @ ''[1m'' @ s @ [escape] @ ''[22m''"

section \<open>Environment\<close>

text \<open>
  The block throws a \<^verbatim>\<open>CmdLineParseError\<close>, and catches \<^verbatim>\<open>CmdEnvParseError\<close> only.
\<close>

definition env_log_level :: "(string \<Rightarrow> string option) \<Rightarrow> string" where
  "env_log_level getenv = (case getenv ''PG_CMDQD_LOG_LEVEL'' of Some v \<Rightarrow> normalize_log_level v | None \<Rightarrow> [])"

definition env_log_times :: "(string \<Rightarrow> string option) \<Rightarrow> settings \<Rightarrow> settings" where
  "env_log_times getenv st =
     (let v = (case getenv ''PG_CMDQD_LOG_TIMES'' of Some v \<Rightarrow> v | None \<Rightarrow> []) in
      if v = ''true'' \<or> v = ''TRUE'' \<or> v = ''yes'' \<or> v = ''YES'' then st\<lparr>st_log_times := True\<rparr> else st)"

definition parse_environment :: "(string \<Rightarrow> string option) \<Rightarrow> settings \<Rightarrow> parse_end" where
  "parse_environment getenv st =
     (if env_log_level getenv = [] then Settled (env_log_times getenv st)
      else
        (case map_of StringToLogLevel (env_log_level getenv) of
           None \<Rightarrow> Uncaught (''Unrecognized log level: '' @ env_log_level getenv)
         | Some level \<Rightarrow> Settled (env_log_times getenv (st\<lparr>st_log_level := level\<rparr>))))"

section \<open>Arguments\<close>

text \<open>
  The message of a \<^verbatim>\<open>CmdLineParseError\<close>, or the rest of the arguments and the settings after
  one.  The last argument is taken for the connection string, but \<^verbatim>\<open>argv[1]\<close> is what is
  appended (\<open>first\<close>).
\<close>

datatype arg_result = Bad_arg string | Wants_help | Goes_on "string list" settings

definition parse_arg :: "string \<Rightarrow> string \<Rightarrow> string list \<Rightarrow> settings \<Rightarrow> arg_result" where
  "parse_arg first arg rest st =
     (if arg = ''--help'' \<or> arg = ''-h'' then Wants_help
      else if arg = ''--log-level'' then
        (case rest of
           [] \<Rightarrow> Bad_arg (''Missing '' @ bold ''<log_level>'' @ '' argument to '' @ bold ''--log-level'' @ '' option.'')
         | l # rest' \<Rightarrow>
             (case map_of StringToLogLevel (normalize_log_level l) of
                None \<Rightarrow> Bad_arg (''Unrecognized log level: '' @ normalize_log_level l)
              | Some level \<Rightarrow> Goes_on rest' (st\<lparr>st_log_level := level\<rparr>)))
      else if arg = ''--cmd-queue'' then
        (case rest of
           [] \<Rightarrow> Bad_arg (''Missing '' @ bold ''<cmd_class>'' @ '' argument to '' @ bold ''--cmd-queue'' @ '' option.'')
         | q # rest' \<Rightarrow>
             Goes_on rest' (st\<lparr>st_explicit_cmd_classes := st_explicit_cmd_classes st @ [q]\<rparr>))
      else if arg = ''--emit-sigusr1-when-ready'' then Goes_on rest (st\<lparr>st_emit_sigusr1_when_ready := True\<rparr>)
      else if arg = ''--list-queue-names'' then Goes_on rest (st\<lparr>st_list_mode := True\<rparr>)
      else if arg = ''--log-times'' then Goes_on rest (st\<lparr>st_log_times := True\<rparr>)
      else if arg = ''--no-log-times'' then Goes_on rest (st\<lparr>st_log_times := False\<rparr>)
      else if rest = [] then Goes_on rest (st\<lparr>st_conn_str := st_conn_str st @ first\<rparr>)
      else Bad_arg (''Unrecognized argument/option: '' @ arg))"

lemma parse_arg_shorter: "parse_arg first arg rest st = Goes_on rest' st' \<Longrightarrow> length rest' \<le> length rest"
  by (auto simp: parse_arg_def split: if_splits list.splits option.splits)

text \<open>The loop; a parse error ends the program with exit code 2.\<close>

function parse_args :: "string \<Rightarrow> string list \<Rightarrow> settings \<Rightarrow> parse_end" where
  "parse_args first [] st = Settled st"
| "parse_args first (arg # rest) st =
     (case parse_arg first arg rest st of
        Bad_arg msg \<Rightarrow> Exits 2
      | Wants_help \<Rightarrow> Exits 0
      | Goes_on rest' st' \<Rightarrow> parse_args first rest' st')"
  by pat_completeness auto
termination by (relation "measure (\<lambda>(first, args, st). length args)") (auto simp: less_Suc_eq_le dest: parse_arg_shorter)

definition parse_command_line :: "(string \<Rightarrow> string option) \<Rightarrow> string list \<Rightarrow> parse_end" where
  "parse_command_line getenv argv =
     (case parse_environment getenv settings_init of
        Settled st \<Rightarrow> parse_args (argv ! 1) (tl argv) st
      | e \<Rightarrow> e)"

section \<open>The two modes\<close>

text \<open>\<^verbatim>\<open>return queues.empty() ? 66 : 0;\<close>\<close>

definition list_exit_code :: "string list \<Rightarrow> int" where
  "list_exit_code queues = (if queues = [] then 66 else 0)"

definition list_queues :: "attempt list \<Rightarrow> pg_result \<Rightarrow> settings \<Rightarrow> signal set \<Rightarrow> (string list \<times> int) outcome" where
  "list_queues attempts qresult st sigmask =
     bind_outcome
       (get_cmd_class_names attempts qresult
          (make_instance (st_emit_sigusr1_when_ready st) (st_explicit_cmd_classes st) sigmask))
       (\<lambda>(queues, mg). Returns (queues, list_exit_code queues))"

definition start_daemon :: "settings \<Rightarrow> signal set \<Rightarrow> daemon" where
  "start_daemon st sigmask = daemon_init (st_emit_sigusr1_when_ready st) (st_explicit_cmd_classes st) sigmask"

section \<open>What the arguments come to\<close>

text \<open>The options as a user means them, and as they are written.\<close>

datatype cmd_option =
    Opt_log_level bool log_level
  | Opt_cmd_queue string
  | Opt_emit
  | Opt_list
  | Opt_log_times bool

fun option_text :: "cmd_option \<Rightarrow> string list" where
  "option_text (Opt_log_level prefixed l) =
     [''--log-level'', (if prefixed then ''LOG_'' else []) @ getLogLevelString l]"
| "option_text (Opt_cmd_queue q) = [''--cmd-queue'', q]"
| "option_text Opt_emit = [''--emit-sigusr1-when-ready'']"
| "option_text Opt_list = [''--list-queue-names'']"
| "option_text (Opt_log_times b) = [if b then ''--log-times'' else ''--no-log-times'']"

fun apply_option :: "cmd_option \<Rightarrow> settings \<Rightarrow> settings" where
  "apply_option (Opt_log_level prefixed l) st = st\<lparr>st_log_level := l\<rparr>"
| "apply_option (Opt_cmd_queue q) st = st\<lparr>st_explicit_cmd_classes := st_explicit_cmd_classes st @ [q]\<rparr>"
| "apply_option Opt_emit st = st\<lparr>st_emit_sigusr1_when_ready := True\<rparr>"
| "apply_option Opt_list st = st\<lparr>st_list_mode := True\<rparr>"
| "apply_option (Opt_log_times b) st = st\<lparr>st_log_times := b\<rparr>"

definition plain_arg :: "string \<Rightarrow> bool" where
  "plain_arg s \<longleftrightarrow> s \<notin> {''--help'', ''-h'', ''--log-level'', ''--cmd-queue'', ''--emit-sigusr1-when-ready'',
     ''--list-queue-names'', ''--log-times'', ''--no-log-times''}"

lemma normalize_prefixed:
  "normalize_log_level ((if prefixed then ''LOG_'' else []) @ getLogLevelString l) = getLogLevelString l"
  by (cases prefixed) (simp_all only: if_True if_False append_Nil normalize_level_names)

lemma parse_args_option: "parse_args first (option_text opt @ args) st = parse_args first args (apply_option opt st)"
proof (cases opt)
  case (Opt_log_level prefixed l)
  have "parse_args first (''--log-level'' # t # args) st = parse_args first args (st\<lparr>st_log_level := l\<rparr>)"
    if "normalize_log_level t = getLogLevelString l" for t
    using that by (simp add: parse_arg_def level_names)
  from this [OF normalize_prefixed] Opt_log_level show ?thesis by (simp only: option_text.simps append.simps apply_option.simps)
qed (simp_all add: parse_arg_def)

lemma parse_args_options:
  "parse_args first (concat (map option_text opts) @ args) st = parse_args first args (fold apply_option opts st)"
  by (induction opts arbitrary: st) (simp_all add: parse_args_option)

lemma apply_options_conn_str: "st_conn_str (fold apply_option opts st) = st_conn_str st"
proof (induction opts arbitrary: st)
  case (Cons opt opts)
  then show ?case by (cases opt) simp_all
qed simp

text \<open>
  C22. Round trip of the command line: the options are taken as they were written, in their order,
  but the connection string at the end is not: what is used in its place is the first argument,
  so that it is right only when no option precedes it.
\<close>

theorem command_line_is_read:
  assumes "plain_arg conn" and "argv = prog # concat (map option_text opts) @ [conn]"
    and "getenv ''PG_CMDQD_LOG_LEVEL'' = None"
  shows "parse_command_line getenv argv =
      Settled ((fold apply_option opts (env_log_times getenv settings_init))
        \<lparr>st_conn_str := hd (concat (map option_text opts) @ [conn])\<rparr>)"
proof -
  let ?st = "env_log_times getenv settings_init" and ?args = "concat (map option_text opts)"
  have first: "argv ! 1 = hd (?args @ [conn])" by (simp add: assms(2) hd_conv_nth)
  have "parse_environment getenv settings_init = Settled ?st"
    using assms(3) by (simp add: parse_environment_def env_log_level_def)
  moreover have "parse_args (argv ! 1) (?args @ [conn]) ?st =
      parse_args (argv ! 1) [conn] (fold apply_option opts ?st)"
    by (rule parse_args_options)
  moreover have "parse_arg (argv ! 1) conn [] st = Goes_on [] (st\<lparr>st_conn_str := st_conn_str st @ argv ! 1\<rparr>)" for st
    using assms(1) by (simp add: parse_arg_def plain_arg_def)
  moreover have "st_conn_str ?st = []" by (simp add: env_log_times_def settings_init_def Let_def)
  ultimately show ?thesis
    by (simp add: parse_command_line_def assms(2) apply_options_conn_str first [unfolded assms(2), simplified])
qed

theorem command_line_is_read_witness:
  "\<exists>st. parse_command_line (\<lambda>_. None) [''pg_cmdqd'', ''--log-level'', ''LOG_DEBUG5'', ''--cmd-queue'', ''a'', ''dbname=x''] =
    Settled st \<and> st_conn_str st = ''--log-level'' \<and> st_log_level st = LOG_DEBUG5 \<and> st_explicit_cmd_classes st = [''a'']"
  using command_line_is_read [of "''dbname=x''" _ "''pg_cmdqd''" "[Opt_log_level True LOG_DEBUG5, Opt_cmd_queue ''a'']" "\<lambda>_. None", OF _ refl]
  by (simp add: plain_arg_def env_log_times_def settings_init_def)

text \<open>
  An unrecognised log level makes the program print its usage and exit with code 2 when it is
  an argument, but end with an exception that nothing catches when it is in the environment.
\<close>

theorem unrecognised_log_level:
  assumes "map_of StringToLogLevel (normalize_log_level v) = None" and "normalize_log_level v \<noteq> []"
  shows "(getenv ''PG_CMDQD_LOG_LEVEL'' = Some v \<longrightarrow>
      parse_command_line getenv argv = Uncaught (''Unrecognized log level: '' @ normalize_log_level v)) \<and>
    parse_args first (concat (map option_text opts) @ [''--log-level'', v] @ args) st = Exits 2"
  using assms
  by (auto simp: parse_command_line_def parse_environment_def env_log_level_def parse_args_options parse_arg_def)

theorem unrecognised_log_level_witness:
  "parse_command_line (\<lambda>_. Some ''LOUD'') [''pg_cmdqd'', ''dbname=x''] = Uncaught ''Unrecognized log level: LOUD'' \<and>
    parse_args ''--log-level'' [''--log-level'', ''LOUD'', ''dbname=x''] settings_init = Exits 2"
  using unrecognised_log_level [of "''LOUD''" "\<lambda>_. Some ''LOUD''" "[''pg_cmdqd'', ''dbname=x'']" "''--log-level''" "[]"
      "[''dbname=x'']" settings_init]
  by (simp add: normalize_log_level_def StringToLogLevel_def)

end
