(* ===== verification/WithCmdqd.thy ===== *)
theory WithCmdqd
  imports SqlCmd NixRun
begin

text \<open>
  \<^verbatim>\<open>with_cmdqd.cpp\<close>: a program that starts the daemon, waits until the daemon says that it is
  ready, runs a command such as \<^verbatim>\<open>psql\<close>, stops the daemon and exits as the command did.  The
  signals that arrive, and what \<^verbatim>\<open>fork()\<close> and \<^verbatim>\<open>waitpid()\<close> answer, are its inputs.
\<close>

definition CMDQD_SIGUSR1_TIMEOUT_S :: nat where "CMDQD_SIGUSR1_TIMEOUT_S = 2"
definition EXIT_CMDQD_BIN_UNSPECIFIED :: int where "EXIT_CMDQD_BIN_UNSPECIFIED = 4"
definition EXIT_CMDQD_FORK_ERROR :: int where "EXIT_CMDQD_FORK_ERROR = 5"
definition EXIT_CMDQD_SIGUSR1_TIMEOUT :: int where "EXIT_CMDQD_SIGUSR1_TIMEOUT = 6"
definition EXIT_CMDQD_FAILURE :: int where "EXIT_CMDQD_FAILURE = 7"
definition EXIT_PSQL_FORK_ERROR :: int where "EXIT_PSQL_FORK_ERROR = 15"
definition EXIT_PSQL_WEIRD_WSTATUS :: int where "EXIT_PSQL_WEIRD_WSTATUS = 18"
definition EXIT_PSQL_D_OPT_ARG_MISSING :: int where "EXIT_PSQL_D_OPT_ARG_MISSING = 19"

lemmas exit_code_defs = EXIT_CMDQD_BIN_UNSPECIFIED_def EXIT_CMDQD_FORK_ERROR_def
  EXIT_CMDQD_SIGUSR1_TIMEOUT_def EXIT_CMDQD_FAILURE_def EXIT_PSQL_FORK_ERROR_def
  EXIT_PSQL_WEIRD_WSTATUS_def EXIT_PSQL_D_OPT_ARG_MISSING_def

section \<open>State\<close>

text \<open>The globals, and what the program does to the daemon: the signals it sends and whether it
  has reaped it.\<close>

record wrapper =
  wp_cmdqd_pid :: int
  wp_psql_pid :: int
  wp_cmdqd_is_ready :: bool
  wp_kills :: "(int \<times> signal) list"
  wp_reaped :: "int list"

definition wrapper_init :: wrapper where
  "wrapper_init = \<lparr>wp_cmdqd_pid = -1, wp_psql_pid = -1, wp_cmdqd_is_ready = False, wp_kills = [], wp_reaped = []\<rparr>"

text \<open>
  The program goes on, exits with a code, or a child replaces itself by another program, with the
  \<^verbatim>\<open>PGDATABASE\<close> of its environment and the file that its standard output goes to.
\<close>

datatype 'a progress =
    Continues 'a
  | Exit_with int wrapper
  | Execs string "string list" "string option" "string option"

section \<open>Leaving\<close>

text \<open>
  \<^verbatim>\<open>while (waitpid(...) < 0 and errno == EINTR);\<close> leaves the status unset after another error
  (\<open>None\<close>).
\<close>

fun wait_loop :: "wait_result list \<Rightarrow> wait_status option outcome" where
  "wait_loop [] = Waits"
| "wait_loop (Wait_error e # as) = (if e = EINTR then wait_loop as else Returns None)"
| "wait_loop (Not_yet # as) = Returns None"
| "wait_loop (Reaped s # as) = Returns (Some s)"

definition clean_exit :: "wait_result list \<Rightarrow> int \<Rightarrow> wrapper \<Rightarrow> 'a progress outcome" where
  "clean_exit waits exit_code st =
     (if wp_cmdqd_pid st > 0 then
        (let st1 = st\<lparr>wp_kills := wp_kills st @ [(wp_cmdqd_pid st, SIGTERM)]\<rparr> in
         bind_outcome (wait_loop waits) (\<lambda>wstatus.
           case wstatus of
             None \<Rightarrow> Undefined
           | Some s \<Rightarrow>
               (let st2 = st1\<lparr>wp_reaped := wp_reaped st1 @ [wp_cmdqd_pid st1], wp_cmdqd_pid := -1\<rparr> in
                case s of
                  Signaled sig \<Rightarrow> Returns (Exit_with EXIT_CMDQD_FAILURE st2)
                | Neither \<Rightarrow> Dies Assert_failed
                | Exited code \<Rightarrow>
                    (if code \<noteq> 0 then Returns (Exit_with EXIT_CMDQD_FAILURE st2)
                     else Returns (Exit_with exit_code st2)))))
      else Returns (Exit_with exit_code st))"

definition handle_signal :: "wait_result list \<Rightarrow> signal \<Rightarrow> wrapper \<Rightarrow> wrapper progress outcome" where
  "handle_signal waits sig_num st =
     (if sig_num = SIGUSR1 \<and> wp_cmdqd_pid st > 0 then Returns (Continues (st\<lparr>wp_cmdqd_is_ready := True\<rparr>))
      else if sig_num = SIGCHLD then Returns (Continues st)
      else clean_exit waits (128 + int sig_num) st)"

fun bind_progress :: "'a progress outcome \<Rightarrow> ('a \<Rightarrow> 'b progress outcome) \<Rightarrow> 'b progress outcome" where
  "bind_progress (Returns (Continues x)) f = f x"
| "bind_progress (Returns (Exit_with c st)) f = Returns (Exit_with c st)"
| "bind_progress (Returns (Execs p as db out)) f = Returns (Execs p as db out)"
| "bind_progress Waits f = Waits"
| "bind_progress (Dies x) f = Dies x"
| "bind_progress Undefined f = Undefined"

text \<open>The signals that arrive before a point of the program, one after the other.\<close>

fun handle_signals :: "wait_result list \<Rightarrow> signal list \<Rightarrow> wrapper \<Rightarrow> wrapper progress outcome" where
  "handle_signals waits [] st = Returns (Continues st)"
| "handle_signals waits (s # ss) st = bind_progress (handle_signal waits s st) (handle_signals waits ss)"

section \<open>Arguments\<close>

text \<open>Only \<^verbatim>\<open>-d\<close> is looked at, for the database of the daemon; all arguments go to the command.\<close>

fun database_arg :: "string list \<Rightarrow> string option \<Rightarrow> int + string option" where
  "database_arg [] db = Inr db"
| "database_arg (arg # args) db =
     (if arg = ''-d''
      then (case args of [] \<Rightarrow> Inl EXIT_PSQL_D_OPT_ARG_MISSING | d # args' \<Rightarrow> database_arg args' (Some d))
      else database_arg args db)"

definition cmdqd_argv :: "string \<Rightarrow> string list" where
  "cmdqd_argv cmdqd_path =
     [cmdqd_path, ''--emit-sigusr1-when-ready'', ''--log-level'', ''LOG_DEBUG5'', ''--no-log-times'']"

section \<open>The program\<close>

text \<open>
  \<open>wa_early\<close> are the signals that have arrived, since the daemon was forked, when \<^verbatim>\<open>sleep()\<close> is
  over: after two seconds, or as soon as a handler has run.  The signals while the command is
  waited for come between the answers of \<^verbatim>\<open>waitpid()\<close>.  Not modelled: a signal between
  \<^verbatim>\<open>fork()\<close> and the assignment of its result to \<^verbatim>\<open>cmdqd_pid\<close>, and one during the
  \<^verbatim>\<open>waitpid()\<close> of \<open>clean_exit\<close>.
\<close>

datatype fork_answer = Fork_fails | Child | Parent int

datatype psql_wait = Gets signal | Answers wait_result

record wrapper_answers =
  wa_fork_cmdqd :: fork_answer
  wa_open :: "errno option"
  wa_early :: "signal list"
  wa_fork_psql :: fork_answer
  wa_waits :: "psql_wait list"
  wa_cmdqd_waits :: "wait_result list"

fun wait_for_psql :: "wait_result list \<Rightarrow> psql_wait list \<Rightarrow> wrapper \<Rightarrow> (wait_status option \<times> wrapper) progress outcome" where
  "wait_for_psql cw [] st = Waits"
| "wait_for_psql cw (Gets s # ws) st = bind_progress (handle_signal cw s st) (wait_for_psql cw ws)"
| "wait_for_psql cw (Answers (Wait_error e) # ws) st =
     (if e = EINTR then wait_for_psql cw ws st else Returns (Continues (None, st)))"
| "wait_for_psql cw (Answers Not_yet # ws) st = Returns (Continues (None, st))"
| "wait_for_psql cw (Answers (Reaped s) # ws) st = Returns (Continues (Some s, st))"

definition psql_exit :: "wait_result list \<Rightarrow> wait_status option \<times> wrapper \<Rightarrow> unit progress outcome" where
  "psql_exit cw r =
     (case r of
        (None, st) \<Rightarrow> Undefined
      | (Some s, st) \<Rightarrow>
          (let st1 = st\<lparr>wp_psql_pid := -1\<rparr> in
           case s of
             Exited code \<Rightarrow> clean_exit cw code st1
           | Signaled sig \<Rightarrow> clean_exit cw (128 + sig) st1
           | Neither \<Rightarrow> clean_exit cw EXIT_PSQL_WEIRD_WSTATUS st1))"

definition run_psql :: "string list \<Rightarrow> string option \<Rightarrow> wrapper_answers \<Rightarrow> wrapper \<Rightarrow> unit progress outcome" where
  "run_psql args db a st =
     (case wa_fork_psql a of
        Fork_fails \<Rightarrow> Returns (Exit_with EXIT_PSQL_FORK_ERROR st)
      | Child \<Rightarrow> (case args of [] \<Rightarrow> Undefined | p # ps \<Rightarrow> Returns (Execs p args db None))
      | Parent pid \<Rightarrow>
          bind_progress (wait_for_psql (wa_cmdqd_waits a) (wa_waits a) (st\<lparr>wp_psql_pid := pid\<rparr>))
            (psql_exit (wa_cmdqd_waits a)))"

definition await_ready :: "string list \<Rightarrow> string option \<Rightarrow> wrapper_answers \<Rightarrow> wrapper \<Rightarrow> unit progress outcome" where
  "await_ready args db a st =
     bind_progress (handle_signals (wa_cmdqd_waits a) (wa_early a) st) (\<lambda>st1.
       if \<not> wp_cmdqd_is_ready st1 then clean_exit (wa_cmdqd_waits a) EXIT_CMDQD_SIGUSR1_TIMEOUT st1
       else run_psql args db a st1)"

text \<open>The child that becomes the daemon; a log file that cannot be opened makes \<^verbatim>\<open>FdGuard\<close> throw.\<close>

definition exec_cmdqd :: "string \<Rightarrow> string option \<Rightarrow> string option \<Rightarrow> errno option \<Rightarrow> unit progress outcome" where
  "exec_cmdqd cmdqd_path db log_file open_error =
     (case (log_file, open_error) of
        (Some f, Some e) \<Rightarrow> Dies (Exn (Runtime_error f))
      | _ \<Rightarrow> Returns (Execs cmdqd_path (cmdqd_argv cmdqd_path) db log_file))"

definition with_cmdqd :: "(string \<Rightarrow> string option) \<Rightarrow> string list \<Rightarrow> wrapper_answers \<Rightarrow> unit progress outcome" where
  "with_cmdqd getenv args a =
     (case getenv ''PG_CMDQD_BIN'' of
        None \<Rightarrow> Returns (Exit_with EXIT_CMDQD_BIN_UNSPECIFIED wrapper_init)
      | Some cmdqd_path \<Rightarrow>
          (case database_arg args (getenv ''PGDATABASE'') of
             Inl code \<Rightarrow> Returns (Exit_with code wrapper_init)
           | Inr db \<Rightarrow>
               (case wa_fork_cmdqd a of
                  Fork_fails \<Rightarrow> Returns (Exit_with EXIT_CMDQD_FORK_ERROR wrapper_init)
                | Child \<Rightarrow> exec_cmdqd cmdqd_path db (getenv ''PG_CMDQD_LOG_FILE'') (wa_open a)
                | Parent pid \<Rightarrow> await_ready args db a (wrapper_init\<lparr>wp_cmdqd_pid := pid\<rparr>))))"

section \<open>The daemon does not outlive the program\<close>

text \<open>The daemon still runs, untouched; it has been stopped and reaped.\<close>

definition daemon_up :: "int \<Rightarrow> wrapper \<Rightarrow> bool" where
  "daemon_up pid st \<longleftrightarrow> wp_cmdqd_pid st = pid \<and> wp_kills st = [] \<and> wp_reaped st = []"

definition daemon_down :: "int \<Rightarrow> wrapper \<Rightarrow> bool" where
  "daemon_down pid st \<longleftrightarrow> wp_kills st = [(pid, SIGTERM)] \<and> wp_reaped st = [pid]"

text \<open>\<open>progress_to P E r\<close>: what continues satisfies \<open>P\<close>, what exits \<open>E\<close>.\<close>

definition progress_to :: "('a \<Rightarrow> bool) \<Rightarrow> (int \<Rightarrow> wrapper \<Rightarrow> bool) \<Rightarrow> 'a progress outcome \<Rightarrow> bool" where
  "progress_to P E r =
     (case r of Returns (Continues x) \<Rightarrow> P x | Returns (Exit_with c st) \<Rightarrow> E c st | _ \<Rightarrow> True)"

lemma progress_to_simps [simp]:
  "progress_to P E (Returns (Continues x)) = P x"
  "progress_to P E (Returns (Exit_with c st)) = E c st"
  "progress_to P E (Returns (Execs p as db out))"
  "progress_to P E Waits" "progress_to P E (Dies f)" "progress_to P E Undefined"
  by (simp_all add: progress_to_def)

lemma progress_to_bind:
  "progress_to P E r \<Longrightarrow> (\<And>x. P x \<Longrightarrow> progress_to Q E (f x)) \<Longrightarrow> progress_to Q E (bind_progress r f)"
  by (cases "(r, f)" rule: bind_progress.cases) auto

lemma progress_to_mono:
  "progress_to P E r \<Longrightarrow> (\<And>c st. E c st \<Longrightarrow> E' c st) \<Longrightarrow> progress_to P E' r"
  by (auto simp: progress_to_def split: outcome.splits progress.splits)

lemma clean_exit_down:
  "0 < pid \<Longrightarrow> daemon_up pid st \<Longrightarrow> progress_to P (\<lambda>c. daemon_down pid) (clean_exit waits code st)"
  by (cases "wait_loop waits")
    (auto simp: clean_exit_def daemon_up_def daemon_down_def Let_def split: option.split wait_status.split)

lemma handle_signal_down:
  "0 < pid \<Longrightarrow> daemon_up pid st \<Longrightarrow> progress_to (daemon_up pid) (\<lambda>c. daemon_down pid) (handle_signal waits s st)"
  by (auto simp: handle_signal_def intro: clean_exit_down) (auto simp: daemon_up_def)

lemma handle_signals_down:
  "0 < pid \<Longrightarrow> daemon_up pid st \<Longrightarrow> progress_to (daemon_up pid) (\<lambda>c. daemon_down pid) (handle_signals waits ss st)"
  by (induction ss arbitrary: st) (auto intro: progress_to_bind handle_signal_down)

lemma wait_for_psql_down:
  "0 < pid \<Longrightarrow> daemon_up pid st \<Longrightarrow>
    progress_to (\<lambda>(s, st'). daemon_up pid st') (\<lambda>c. daemon_down pid) (wait_for_psql cw ws st)"
  by (induction cw ws st rule: wait_for_psql.induct) (auto intro: progress_to_bind handle_signal_down)

lemma psql_exit_down:
  "0 < pid \<Longrightarrow> daemon_up pid (snd r) \<Longrightarrow> progress_to P (\<lambda>c. daemon_down pid) (psql_exit cw r)"
  by (auto simp: psql_exit_def Let_def daemon_up_def split: option.split wait_status.split prod.split
      intro!: clean_exit_down [unfolded daemon_up_def])

definition ends_well :: "int \<Rightarrow> fork_answer \<Rightarrow> int \<Rightarrow> wrapper \<Rightarrow> bool" where
  "ends_well pid psql_fork c st \<longleftrightarrow> daemon_down pid st \<or>
     psql_fork = Fork_fails \<and> c = EXIT_PSQL_FORK_ERROR \<and> daemon_up pid st"

lemma run_psql_ends_well:
  assumes "0 < pid" and "daemon_up pid st"
  shows "progress_to P (ends_well pid (wa_fork_psql a)) (run_psql args db a st)"
proof (cases "wa_fork_psql a")
  case (Parent ppid)
  have "daemon_up pid (st\<lparr>wp_psql_pid := ppid\<rparr>)" using assms(2) by (simp add: daemon_up_def)
  then have "progress_to P (\<lambda>c. daemon_down pid) (run_psql args db a st)"
    using assms(1) Parent
    by (auto simp: run_psql_def intro!: progress_to_bind [OF wait_for_psql_down] psql_exit_down)
  then show ?thesis by (rule progress_to_mono) (simp add: ends_well_def)
qed (use assms in \<open>auto simp: run_psql_def ends_well_def split: list.split\<close>)

lemma await_ready_ends_well:
  assumes "0 < pid" and "daemon_up pid st"
  shows "progress_to P (ends_well pid (wa_fork_psql a)) (await_ready args db a st)"
proof -
  have well: "\<And>c st. daemon_down pid st \<Longrightarrow> ends_well pid (wa_fork_psql a) c st" by (simp add: ends_well_def)
  note signals = progress_to_mono [OF handle_signals_down [OF assms(1)] well]
    progress_to_mono [OF clean_exit_down [OF assms(1)] well]
  show ?thesis
    unfolding await_ready_def using assms
    by (intro progress_to_bind [where P = "daemon_up pid"])
      (auto intro: signals run_psql_ends_well split: option.split)
qed

text \<open>
  C23. However \<^verbatim>\<open>with_cmdqd\<close> exits once it has started the daemon, it has sent the daemon one
  \<open>SIGTERM\<close> and has reaped it, with one exception: when the command cannot be forked, it exits
  with code 15 and leaves the daemon running.
\<close>

theorem daemon_does_not_outlive:
  assumes "wa_fork_cmdqd a = Parent pid" and "0 < pid" and "with_cmdqd getenv args a = Returns (Exit_with code st)"
    and "getenv ''PG_CMDQD_BIN'' = Some path" and "database_arg args (getenv ''PGDATABASE'') = Inr db"
  shows "wp_kills st = [(pid, SIGTERM)] \<and> wp_reaped st = [pid] \<or>
    wa_fork_psql a = Fork_fails \<and> code = 15 \<and> wp_cmdqd_pid st = pid \<and> wp_kills st = [] \<and> wp_reaped st = []"
proof -
  have up: "daemon_up pid (wrapper_init\<lparr>wp_cmdqd_pid := pid\<rparr>)" by (simp add: daemon_up_def wrapper_init_def)
  have "await_ready args db a (wrapper_init\<lparr>wp_cmdqd_pid := pid\<rparr>) = Returns (Exit_with code st)"
    using assms by (simp add: with_cmdqd_def)
  with await_ready_ends_well [OF assms(2) up, of "\<lambda>_. True" a args db]
  show ?thesis by (auto simp: ends_well_def daemon_down_def daemon_up_def exit_code_defs)
qed

definition example_wrapper :: wrapper_answers where
  "example_wrapper = \<lparr>wa_fork_cmdqd = Parent 100, wa_open = None, wa_early = [SIGUSR1],
     wa_fork_psql = Parent 101, wa_waits = [Gets SIGCHLD, Answers (Wait_error EINTR), Answers (Reaped (Exited 3))],
     wa_cmdqd_waits = [Reaped (Exited 0)]\<rparr>"

definition example_getenv :: "string \<Rightarrow> string option" where
  "example_getenv = [''PG_CMDQD_BIN'' \<mapsto> ''pg_cmdqd'']"

section \<open>The exit code\<close>

abbreviation harmless :: "signal set" where
  "harmless \<equiv> {SIGUSR1, SIGCHLD}"

lemma handle_harmless:
  "0 < wp_cmdqd_pid st \<Longrightarrow> s \<in> harmless \<Longrightarrow>
    handle_signal cw s st = Returns (Continues (st\<lparr>wp_cmdqd_is_ready := wp_cmdqd_is_ready st \<or> s = SIGUSR1\<rparr>))"
  by (auto simp: handle_signal_def signal_defs)

lemma handle_all_harmless:
  "0 < wp_cmdqd_pid st \<Longrightarrow> set ss \<subseteq> harmless \<Longrightarrow>
    handle_signals cw ss st = Returns (Continues (st\<lparr>wp_cmdqd_is_ready := wp_cmdqd_is_ready st \<or> SIGUSR1 \<in> set ss\<rparr>))"
proof (induction ss arbitrary: st)
  case (Cons s ss)
  then have "handle_signal cw s st = Returns (Continues (st\<lparr>wp_cmdqd_is_ready := wp_cmdqd_is_ready st \<or> s = SIGUSR1\<rparr>))"
    by (intro handle_harmless) auto
  with Cons show ?case by (simp add: disj_assoc eq_commute [of SIGUSR1])
qed simp

lemma wait_interrupted: "wait_loop (replicate n (Wait_error EINTR) @ [Reaped t]) = Returns (Some t)"
  by (induction n) simp_all

lemma clean_exit_code:
  assumes "0 < wp_cmdqd_pid st" and "t \<noteq> Neither"
  shows "\<exists>st'. clean_exit (replicate n (Wait_error EINTR) @ [Reaped t]) code st =
    Returns (Exit_with (if t = Exited 0 then code else EXIT_CMDQD_FAILURE) st')"
  using assms by (cases t) (auto simp: clean_exit_def wait_interrupted Let_def)

definition uneventful :: "psql_wait \<Rightarrow> bool" where
  "uneventful w \<longleftrightarrow> w = Answers (Wait_error EINTR) \<or> (\<exists>s\<in>harmless. w = Gets s)"

lemma wait_for_psql_uneventful:
  "0 < wp_cmdqd_pid st \<Longrightarrow> \<forall>w\<in>set ws. uneventful w \<Longrightarrow>
    \<exists>st'. wait_for_psql cw (ws @ [Answers (Reaped s)]) st = Returns (Continues (Some s, st')) \<and>
      wp_cmdqd_pid st' = wp_cmdqd_pid st"
proof (induction ws arbitrary: st)
  case (Cons w ws)
  from Cons.prems(2) consider "w = Answers (Wait_error EINTR)" | g where "w = Gets g" "g \<in> harmless"
    by (auto simp: uneventful_def)
  then show ?case
  proof cases
    case 1
    with Cons show ?thesis by simp
  next
    case 2
    with Cons.IH [of "st\<lparr>wp_cmdqd_is_ready := wp_cmdqd_is_ready st \<or> g = SIGUSR1\<rparr>"] Cons.prems show ?thesis
      by (simp add: handle_harmless [OF Cons.prems(1) 2(2)])
  qed
qed simp

definition command_exit_code :: "wait_status \<Rightarrow> int" where
  "command_exit_code s = (case s of Exited c \<Rightarrow> c | Signaled g \<Rightarrow> 128 + g | Neither \<Rightarrow> 18)"

text \<open>
  C24. The exit code, when no signal but the readiness of the daemon and the ends of the children
  comes in: 7 when the daemon failed, 6 when it was not ready in time (or another signal cut the
  wait short), and otherwise that of the command, with 128 added to the number of a signal that
  ended it.
\<close>

theorem with_cmdqd_exit_code:
  assumes "wa_fork_cmdqd a = Parent pid" and "0 < pid" and "wa_fork_psql a = Parent ppid"
    and "getenv ''PG_CMDQD_BIN'' = Some path" and "database_arg args (getenv ''PGDATABASE'') = Inr db"
    and "set (wa_early a) \<subseteq> harmless"
    and "wa_waits a = ws @ [Answers (Reaped s)]" and "\<forall>w\<in>set ws. uneventful w"
    and "wa_cmdqd_waits a = replicate n (Wait_error EINTR) @ [Reaped t]" and "t \<noteq> Neither"
  shows "\<exists>st. with_cmdqd getenv args a = Returns (Exit_with
    (if t \<noteq> Exited 0 then 7
     else if SIGUSR1 \<notin> set (wa_early a) then 6
     else command_exit_code s) st)"
proof -
  let ?cw = "wa_cmdqd_waits a" and ?ready = "SIGUSR1 \<in> set (wa_early a)"
  let ?st = "wrapper_init\<lparr>wp_cmdqd_pid := pid, wp_cmdqd_is_ready := ?ready\<rparr>"
  have early: "handle_signals ?cw (wa_early a) (wrapper_init\<lparr>wp_cmdqd_pid := pid\<rparr>) =
      Returns (Continues (wrapper_init\<lparr>wp_cmdqd_pid := pid, wp_cmdqd_is_ready := SIGUSR1 \<in> set (wa_early a)\<rparr>))"
    using assms(2,6) by (subst handle_all_harmless) (auto simp: wrapper_init_def)
  have exit: "\<exists>st'. clean_exit ?cw code st = Returns (Exit_with (if t = Exited 0 then code else 7) st')"
    if "wp_cmdqd_pid st = pid" for code st
    using clean_exit_code [of st t n code] assms(2,10) that unfolding assms(9) EXIT_CMDQD_FAILURE_def by blast
  have run: "\<exists>st'. run_psql args db a ?st = Returns (Exit_with (if t = Exited 0 then command_exit_code s else 7) st')"
  proof -
    obtain st' where "wait_for_psql ?cw (wa_waits a) (?st\<lparr>wp_psql_pid := ppid\<rparr>) = Returns (Continues (Some s, st'))"
      "wp_cmdqd_pid st' = pid"
      using wait_for_psql_uneventful [of "?st\<lparr>wp_psql_pid := ppid\<rparr>" ws ?cw s] assms(2,7,8) by auto
    moreover have "psql_exit ?cw (Some s, st') = clean_exit ?cw (command_exit_code s) (st'\<lparr>wp_psql_pid := -1\<rparr>)"
      by (cases s) (simp_all add: psql_exit_def command_exit_code_def exit_code_defs)
    ultimately show ?thesis
      using exit [of "st'\<lparr>wp_psql_pid := -1\<rparr>" "command_exit_code s"] by (simp add: run_psql_def assms(3))
  qed
  have "with_cmdqd getenv args a = (if \<not> ?ready then clean_exit ?cw 6 ?st else run_psql args db a ?st)"
    using assms(1,4,5) early by (simp add: with_cmdqd_def await_ready_def exit_code_defs wrapper_init_def)
  then show ?thesis using exit [of ?st 6] run by auto
qed

theorem daemon_does_not_outlive_witness:
  "\<exists>st. with_cmdqd example_getenv [''psql'', ''-d'', ''x''] example_wrapper = Returns (Exit_with 3 st) \<and>
    wp_kills st = [(100, SIGTERM)] \<and> wp_reaped st = [100]"
proof -
  have ex: "\<exists>st. with_cmdqd example_getenv [''psql'', ''-d'', ''x''] example_wrapper = Returns (Exit_with 3 st)"
    by (simp add: with_cmdqd_def example_getenv_def example_wrapper_def await_ready_def run_psql_def handle_signal_def
        psql_exit_def clean_exit_def wrapper_init_def Let_def signal_defs)
  have "wa_fork_cmdqd example_wrapper = Parent 100" "wa_fork_psql example_wrapper \<noteq> Fork_fails"
    "example_getenv ''PG_CMDQD_BIN'' = Some ''pg_cmdqd''"
    "database_arg [''psql'', ''-d'', ''x''] (example_getenv ''PGDATABASE'') = Inr (Some ''x'')"
    by (simp_all add: example_wrapper_def example_getenv_def)
  with ex daemon_does_not_outlive [where a = example_wrapper and pid = 100] show ?thesis by fastforce
qed

theorem with_cmdqd_exit_code_witness:
  "\<exists>st. with_cmdqd example_getenv [''psql'', ''-d'', ''x''] example_wrapper = Returns (Exit_with 3 st)"
proof -
  have "\<exists>st. with_cmdqd example_getenv [''psql'', ''-d'', ''x''] example_wrapper = Returns (Exit_with
    (if Exited 0 \<noteq> Exited 0 then 7
     else if SIGUSR1 \<notin> set (wa_early example_wrapper) then 6
     else command_exit_code (Exited 3)) st)"
    by (rule with_cmdqd_exit_code [where n = 0 and t = "Exited 0" and pid = 100 and ppid = 101
          and ws = "[Gets SIGCHLD, Answers (Wait_error EINTR)]" and path = "''pg_cmdqd''" and db = "Some ''x''"])
      (auto simp: example_wrapper_def example_getenv_def uneventful_def)
  then show ?thesis by (simp add: example_wrapper_def command_exit_code_def)
qed

end
