(* ===== verification/NixQueueTool.thy ===== *)
theory NixQueueTool
  imports RunnerProps Logger
begin

text \<open>
  \<^verbatim>\<open>pg_nix_queue_cmd.cpp\<close>: a tool that runs one command as the daemon would and exits as the
  command did; and \<^verbatim>\<open>NixQueueCmd::update_stmt\<close>, which it prints.
\<close>

section \<open>The text of the UPDATE\<close>

text \<open>
  What libpq's escape functions return for the connection are parameters.  The identity of the
  queue and \<open>cmd_id\<close> are not escaped.
\<close>

definition text_lines :: "string list \<Rightarrow> string" where
  "text_lines ls = concat (map (\<lambda>l. newline # l) ls) @ [newline]"

definition update_stmt :: "(string \<Rightarrow> string) \<Rightarrow> (string \<Rightarrow> string) \<Rightarrow> nix_cmd \<Rightarrow> string" where
  "update_stmt escapeByteaConn escapeLiteral c =
     (let m = nx_meta c; num = (\<lambda>i. case i of None \<Rightarrow> ''NULL'' | Some n \<Rightarrow> show_int n) in
      text_lines
       [''UPDATE'',
        ''    '' @ c_string (md_cmd_class_identity m),
        ''SET'',
        ''    cmd_runtime = tstzrange(to_timestamp('' @ show_f (md_cmd_runtime_start m) @ ''), to_timestamp('' @
          show_f (md_cmd_runtime_end m) @ ''))'',
        ''    ,cmd_exit_code = '' @ num (nx_cmd_exit_code c),
        ''    ,cmd_term_sig = '' @ num (nx_cmd_term_sig c),
        ''    ,cmd_stdout = '' @ quoted (c_string (escapeByteaConn (nx_cmd_stdout c))),
        ''    ,cmd_stderr = '' @ quoted (c_string (escapeByteaConn (nx_cmd_stderr c))),
        ''WHERE'',
        ''    cmd_id = '' @ quoted (c_string (md_cmd_id m)),
        ''    AND cmd_subid IS NOT DISTINCT from '' @
          (case md_cmd_subid m of None \<Rightarrow> ''NULL'' | Some s \<Rightarrow> c_string (escapeLiteral s))])"

section \<open>Arguments\<close>

record tool_args =
  ta_output_update :: bool
  ta_exec_update :: bool
  ta_cmd_class :: string
  ta_cmd_id :: string
  ta_cmd_subid :: "string option"
  ta_identified :: nat
  ta_cmd_argv :: "string list"

definition tool_args_init :: tool_args where
  "tool_args_init = \<lparr>ta_output_update = False, ta_exec_update = False, ta_cmd_class = [], ta_cmd_id = [],
     ta_cmd_subid = None, ta_identified = 0, ta_cmd_argv = []\<rparr>"

text \<open>How the tool ends; a parse error exits with 222.\<close>

datatype tool_end = Tool_exits int | Tool_raises int | Tool_throws string | Tool_waits | Tool_undefined

text \<open>One of the (at most three) fields that identify the command.\<close>

definition identify :: "string \<Rightarrow> tool_args \<Rightarrow> tool_args option" where
  "identify arg ta =
     (let n = Suc (ta_identified ta); ta1 = ta\<lparr>ta_identified := n\<rparr> in
      if n = 1 then Some (ta1\<lparr>ta_cmd_class := arg\<rparr>)
      else if n = 2 then Some (ta1\<lparr>ta_cmd_id := arg\<rparr>)
      else if n = 3 then Some (ta1\<lparr>ta_cmd_subid := Some arg\<rparr>)
      else None)"

fun tool_args_loop :: "string list \<Rightarrow> tool_args \<Rightarrow> int + tool_args" where
  "tool_args_loop [] ta = Inr ta"
| "tool_args_loop (arg # args) ta =
     (if arg = ''--help'' then Inl 0
      else if arg = ''--output-update'' then tool_args_loop args (ta\<lparr>ta_output_update := True\<rparr>)
      else if arg = ''--exec-update'' then tool_args_loop args (ta\<lparr>ta_exec_update := True\<rparr>)
      else if take 2 arg \<noteq> ''--'' then
        (case identify arg ta of None \<Rightarrow> Inl 222 | Some ta' \<Rightarrow> tool_args_loop args ta')
      else if arg = ''--'' then Inr (ta\<lparr>ta_cmd_argv := ta_cmd_argv ta @ args\<rparr>)
      else Inl 222)"

definition parse_tool_args :: "string list \<Rightarrow> int + tool_args" where
  "parse_tool_args args =
     (case tool_args_loop args tool_args_init of
        Inl code \<Rightarrow> Inl code
      | Inr ta \<Rightarrow> if ta_identified ta < 2 then Inl 222 else if ta_cmd_argv ta = [] then Inl 222 else Inr ta)"

section \<open>The run\<close>

text \<open>
  The environment of the command is empty and the timeout 0; \<open>stdin\<close> is what a standard input
  that is not a terminal holds.  \<open>value()\<close> throws on an empty optional.
\<close>

record tool_answers =
  tl_stdin :: "string option"
  tl_start_clock :: int
  tl_run :: nix_env
  tl_end_clock :: int
  tl_escapeByteaConn :: "string \<Rightarrow> string"
  tl_escapeLiteral :: "string \<Rightarrow> string"

definition tool_cmd :: "tool_args \<Rightarrow> string option \<Rightarrow> nix_cmd" where
  "tool_cmd ta stdin_text = nix_cmd_of_args (ta_cmd_class ta) (ta_cmd_class ta) (ta_cmd_id ta) (ta_cmd_subid ta)
     (ta_cmd_argv ta) [] (case stdin_text of None \<Rightarrow> [] | Some s \<Rightarrow> s)"

definition tool_exit :: "nix_cmd \<Rightarrow> tool_end" where
  "tool_exit c =
     (case nx_cmd_exit_code c of
        Some code \<Rightarrow> Tool_exits code
      | None \<Rightarrow>
          (case nx_cmd_term_sig c of Some sig \<Rightarrow> Tool_raises sig | None \<Rightarrow> Tool_throws ''bad optional access''))"

text \<open>How the tool ends, and what it prints on its standard output.\<close>

definition nix_queue_tool :: "string list \<Rightarrow> tool_answers \<Rightarrow> tool_end \<times> string" where
  "nix_queue_tool args a =
     (case parse_tool_args args of
        Inl code \<Rightarrow> (Tool_exits code, [])
      | Inr ta \<Rightarrow>
          (let c0 = tool_cmd ta (tl_stdin a);
               c1 = c0\<lparr>nx_meta := stamp_start_time (tl_start_clock a) (nx_meta c0)\<rparr> in
           case nix_run (tl_run a) 0 c1 of
             Returns c2 \<Rightarrow>
               (let c3 = c2\<lparr>nx_meta := stamp_end_time (tl_end_clock a) (nx_meta c2)\<rparr>;
                    printed = (if ta_output_update ta
                      then update_stmt (tl_escapeByteaConn a) (tl_escapeLiteral a) c3 else []) in
                if ta_exec_update ta then (Tool_throws ''--exec-update not yet implemented.'', printed)
                else (tool_exit c3, printed))
           | Waits \<Rightarrow> (Tool_waits, [])
           | Dies f \<Rightarrow> (Tool_throws ''run_cmd'', [])
           | Undefined \<Rightarrow> (Tool_undefined, [])))"

section \<open>What it keeps to\<close>

lemma identify_fields:
  "identify c1 tool_args_init = Some (tool_args_init\<lparr>ta_identified := 1, ta_cmd_class := c1\<rparr>)"
  "ta_identified ta = 1 \<Longrightarrow> identify c2 ta = Some (ta\<lparr>ta_identified := 2, ta_cmd_id := c2\<rparr>)"
  "ta_identified ta = 2 \<Longrightarrow> identify c3 ta = Some (ta\<lparr>ta_identified := 3, ta_cmd_subid := Some c3\<rparr>)"
  by (simp_all add: identify_def tool_args_init_def numeral_3_eq_3)

definition plain_field :: "string \<Rightarrow> bool" where
  "plain_field s \<longleftrightarrow> take 2 s \<noteq> ''--''"

lemma plain_field_loop: "plain_field arg \<Longrightarrow> tool_args_loop (arg # args) ta =
    (case identify arg ta of None \<Rightarrow> Inl 222 | Some ta' \<Rightarrow> tool_args_loop args ta')"
  by (auto simp: plain_field_def)

definition tool_command_line :: "string \<Rightarrow> string \<Rightarrow> string option \<Rightarrow> string list \<Rightarrow> string list" where
  "tool_command_line cls cid subid argv =
     [cls, cid] @ (case subid of None \<Rightarrow> [] | Some s \<Rightarrow> [s]) @ [''--''] @ argv"

lemma parse_tool_command_line:
  assumes "plain_field cls" and "plain_field cid" and "\<And>s. subid = Some s \<Longrightarrow> plain_field s" and "argv \<noteq> []"
  shows "\<exists>ta. parse_tool_args (tool_command_line cls cid subid argv) = Inr ta \<and>
    ta_cmd_class ta = cls \<and> ta_cmd_id ta = cid \<and> ta_cmd_subid ta = subid \<and> ta_cmd_argv ta = argv \<and>
    \<not> ta_output_update ta \<and> \<not> ta_exec_update ta"
  using assms
  by (cases subid)
    (simp_all add: tool_command_line_def parse_tool_args_def plain_field_loop identify_fields
      del: tool_args_loop.simps(2), simp_all add: tool_args_init_def)

text \<open>
  C37. Called with the fields of a command and its arguments, the tool runs exactly that command
  and, once the run returns, exits with the command's exit code or raises the signal that ended
  it; the access to the optional signal never throws.
\<close>

theorem tool_exits_as_command:
  assumes "plain_field cls" and "plain_field cid" and "\<And>s. subid = Some s \<Longrightarrow> plain_field s" and "argv \<noteq> []"
    and "c = nix_cmd_of_args cls cls cid subid argv [] (case tl_stdin a of None \<Rightarrow> [] | Some s \<Rightarrow> s)"
    and "nix_run (tl_run a) 0 (c\<lparr>nx_meta := stamp_start_time (tl_start_clock a) (nx_meta c)\<rparr>) = Returns c'"
  shows "nix_queue_tool (tool_command_line cls cid subid argv) a =
    ((case nx_cmd_exit_code c' of Some code \<Rightarrow> Tool_exits code
      | None \<Rightarrow> Tool_raises (the (nx_cmd_term_sig c'))), [])
    \<and> (nx_cmd_exit_code c' = None \<longrightarrow> nx_cmd_term_sig c' \<noteq> None)"
proof -
  obtain ta where ta: "parse_tool_args (tool_command_line cls cid subid argv) = Inr ta"
    "ta_cmd_class ta = cls" "ta_cmd_id ta = cid" "ta_cmd_subid ta = subid" "ta_cmd_argv ta = argv"
    "\<not> ta_output_update ta" "\<not> ta_exec_update ta"
    using parse_tool_command_line [OF assms(1-4)] by blast
  have c: "tool_cmd ta (tl_stdin a) = c" by (simp add: tool_cmd_def ta assms(5))
  have "nx_cmd_exit_code c' \<noteq> None \<or> nx_cmd_term_sig c' \<noteq> None"
    using nix_run_Returns [OF assms(6)]
    by (auto simp: assms(5) nix_cmd_of_args_def nix_cmd_blank_def dest!: run_cmd_outcome)
  with c assms(6) ta show ?thesis
    by (auto simp: nix_queue_tool_def Let_def tool_exit_def split: option.split)
qed

definition example_tool_answers :: tool_answers where
  "example_tool_answers = \<lparr>tl_stdin = None, tl_start_clock = 0, tl_run = forkless_env, tl_end_clock = 1,
     tl_escapeByteaConn = id, tl_escapeLiteral = id\<rparr>"

theorem tool_exits_as_command_witness:
  "\<exists>c' :: nix_cmd. nix_queue_tool [''q'', ''1'', ''--'', ''cat''] example_tool_answers =
    ((case nx_cmd_exit_code c' of Some code \<Rightarrow> Tool_exits code
      | None \<Rightarrow> Tool_raises (the (nx_cmd_term_sig c'))), [])"
proof -
  let ?c = "nix_cmd_of_args ''q'' ''q'' ''1'' None [''cat''] [] []"
  obtain c' where run: "nix_run (tl_run example_tool_answers) 0
      (?c\<lparr>nx_meta := stamp_start_time (tl_start_clock example_tool_answers) (nx_meta ?c)\<rparr>) = Returns c'"
    using nix_run_forkless by (auto simp: example_tool_answers_def)
  have "nix_queue_tool (tool_command_line ''q'' ''1'' None [''cat'']) example_tool_answers =
    ((case nx_cmd_exit_code c' of Some code \<Rightarrow> Tool_exits code
      | None \<Rightarrow> Tool_raises (the (nx_cmd_term_sig c'))), []) \<and> (nx_cmd_exit_code c' = None \<longrightarrow> nx_cmd_term_sig c' \<noteq> None)"
    by (rule tool_exits_as_command [OF _ _ _ _ _ run]) (simp_all add: plain_field_def example_tool_answers_def)
  then show ?thesis by - (rule exI [of _ c'], simp add: tool_command_line_def)
qed

end
