(* ===== verification/NixTest.thy ===== *)
theory NixTest
  imports NixQueueTool
begin

text \<open>
  \<^verbatim>\<open>nixtestcmd.cpp\<close>: the program that the queue commands of the SQL tests execute.  It does what
  its arguments say, one after the other: print, echo, close, sleep, ignore a signal, exit.
\<close>

definition USAGE :: string where
  "USAGE = text_lines
     [''nixtestcmd'',
      ''    {'',
      ''        --stderr-line <content> |'',
      ''        --stdout-line <content> |'',
      ''        --echo-stdin |'',
      ''        --echo-env-var <var_name> |'',
      ''        --echo-env-var-if-exists <var_name> |'',
      ''        --sleep-ms <msec> |'',
      ''        --ignore-sigterm |'',
      ''        --ignore-sigint |'',
      ''        --exit-code-on-sigterm <exit_code> |'',
      ''        --close-stdin |'',
      ''        --close-stdout |'',
      ''        --close-stderr |'',
      ''    }'',
      ''    [--exit-code <exit_code> | --exit-signal <signal_no>]'']"

section \<open>The state of the process\<close>

text \<open>
  \<open>nt_reads\<close> is what the attempts to read the standard input until its end yield; it does not
  block, so one that comes too early yields nothing.  \<open>nt_cout_ok\<close> is \<^verbatim>\<open>std::cout.good()\<close>.
  What is written is counted when it is passed to \<^verbatim>\<open>write\<close>, and every operation flushes.
\<close>

datatype test_action = By_default | Ignored | Exits_on_sigterm

record test_cmd =
  nt_stdout :: string
  nt_stderr :: string
  nt_cout_ok :: bool
  nt_stdin_open :: bool
  nt_stdout_open :: bool
  nt_reads :: "string list"
  nt_actions :: "signal \<Rightarrow> test_action"
  nt_exit_code_on_sigterm :: int
  nt_slept_msec :: int

definition test_cmd_init :: "string list \<Rightarrow> test_cmd" where
  "test_cmd_init reads = \<lparr>nt_stdout = [], nt_stderr = [], nt_cout_ok = True, nt_stdin_open = True,
     nt_stdout_open = True, nt_reads = reads, nt_actions = (\<lambda>_. By_default),
     nt_exit_code_on_sigterm = 0, nt_slept_msec = 0\<rparr>"

text \<open>The environment, and the signals whose default action ends the process.\<close>

record test_env =
  te_getenv :: "string \<Rightarrow> string option"
  te_kills :: "signal \<Rightarrow> bool"

datatype test_end = Test_exits int | Test_killed signal

text \<open>\<^verbatim>\<open>exit\<close>, of whose argument the parent sees eight bits.\<close>

definition exits :: "int \<Rightarrow> test_end" where
  "exits code = Test_exits (code mod 256)"

definition print_cout :: "string \<Rightarrow> test_cmd \<Rightarrow> test_cmd" where
  "print_cout s st = (if nt_cout_ok st \<and> nt_stdout_open st then st\<lparr>nt_stdout := nt_stdout st @ s\<rparr>
     else st\<lparr>nt_cout_ok := False\<rparr>)"

definition print_cerr :: "string \<Rightarrow> test_cmd \<Rightarrow> test_cmd" where
  "print_cerr s st = st\<lparr>nt_stderr := nt_stderr st @ s\<rparr>"

text \<open>\<^verbatim>\<open>std::cout << std::cin.rdbuf()\<close> fails when it has nothing to insert.\<close>

definition echo_stdin :: "test_cmd \<Rightarrow> test_cmd" where
  "echo_stdin st =
     (let s = (if nt_stdin_open st then (case nt_reads st of [] \<Rightarrow> [] | r # _ \<Rightarrow> r) else []);
          st' = (if nt_stdin_open st then st\<lparr>nt_reads := tl (nt_reads st)\<rparr> else st) in
      if nt_cout_ok st then (if s = [] then st'\<lparr>nt_cout_ok := False\<rparr> else print_cout s st') else st)"

section \<open>Signals\<close>

definition deliver :: "test_env \<Rightarrow> signal \<Rightarrow> test_cmd \<Rightarrow> test_end option" where
  "deliver te sig st =
     (case nt_actions st sig of
        Ignored \<Rightarrow> None
      | Exits_on_sigterm \<Rightarrow> Some (exits (nt_exit_code_on_sigterm st))
      | By_default \<Rightarrow> if te_kills te sig then Some (Test_killed sig) else None)"

fun deliver_all :: "test_env \<Rightarrow> signal list \<Rightarrow> test_cmd \<Rightarrow> test_end option" where
  "deliver_all te [] st = None"
| "deliver_all te (sig # sigs) st =
     (case deliver te sig st of Some e \<Rightarrow> Some e | None \<Rightarrow> deliver_all te sigs st)"

definition set_action :: "signal \<Rightarrow> test_action \<Rightarrow> test_cmd \<Rightarrow> test_cmd" where
  "set_action sig act st = st\<lparr>nt_actions := (nt_actions st)(sig := act)\<rparr>"

section \<open>Arguments\<close>

type_synonym test_result = "test_end \<times> test_cmd"

text \<open>A \<^verbatim>\<open>CmdLineParseError\<close> is caught in \<^verbatim>\<open>main\<close>; an exception of \<^verbatim>\<open>std::stoi\<close> is not.\<close>

definition parse_error :: "string \<Rightarrow> test_cmd \<Rightarrow> test_result" where
  "parse_error msg st = (exits 254, print_cerr (msg @ USAGE) st)"

definition with_stoi :: "string \<Rightarrow> (int \<Rightarrow> test_result + test_cmd) \<Rightarrow> test_cmd \<Rightarrow> test_result + test_cmd" where
  "with_stoi v f st = (case stoi v of Inl _ \<Rightarrow> Inl (Test_killed SIGABRT, st) | Inr n \<Rightarrow> f n)"

definition takes_value :: "string \<Rightarrow> bool" where
  "takes_value arg \<longleftrightarrow> arg \<in> set [''--exit-code'', ''--exit-signal'', ''--stdout-line'', ''--stderr-line'',
     ''--echo-env-var'', ''--echo-env-var-if-exists'', ''--sleep-ms'', ''--exit-code-on-sigterm'']"

definition missing_value :: "string \<Rightarrow> string" where
  "missing_value arg =
     (if arg = ''--exit-code'' \<or> arg = ''--exit-signal'' then ''Missing argument to '' @ arg @ '' option''
      else ''Missing argument to: '' @ arg)"

text \<open>
  An argument that takes the next one as its value; \<open>Inl\<close> is the end of the process.  \<^verbatim>\<open>raise\<close> of
  a negative number fails, which is not checked.
\<close>

definition value_option :: "test_env \<Rightarrow> string \<Rightarrow> string \<Rightarrow> test_cmd \<Rightarrow> test_result + test_cmd" where
  "value_option te arg v st =
     (if arg = ''--exit-code'' then with_stoi v (\<lambda>n. Inl (exits n, st)) st
      else if arg = ''--exit-signal'' then
        with_stoi v (\<lambda>n. if n < 0 then Inr st
          else (case deliver te (nat n) st of Some e \<Rightarrow> Inl (e, st) | None \<Rightarrow> Inr st)) st
      else if arg = ''--stdout-line'' then Inr (print_cout (v @ [newline]) st)
      else if arg = ''--stderr-line'' then Inr (print_cerr (v @ [newline]) st)
      else if arg = ''--echo-env-var'' then
        (case te_getenv te v of
           None \<Rightarrow> Inl (exits 253, print_cerr (''Environment variable `'' @ v @ ''` not set.'' @ [newline]) st)
         | Some s \<Rightarrow> Inr (print_cout (s @ [newline]) st))
      else if arg = ''--echo-env-var-if-exists'' then
        (case te_getenv te v of None \<Rightarrow> Inr st | Some s \<Rightarrow> Inr (print_cout (s @ [newline]) st))
      else if arg = ''--sleep-ms'' then
        with_stoi v (\<lambda>n. Inr (st\<lparr>nt_slept_msec := nt_slept_msec st + max 0 n\<rparr>)) st
      else with_stoi v (\<lambda>n. Inr (set_action SIGTERM Exits_on_sigterm (st\<lparr>nt_exit_code_on_sigterm := n\<rparr>))) st)"

definition flag_option :: "string \<Rightarrow> test_cmd \<Rightarrow> test_result + test_cmd" where
  "flag_option arg st =
     (if arg = ''--help'' \<or> arg = ''-h'' then Inl (exits 0, print_cout USAGE st)
      else if arg = ''--close-stdin'' then Inr (st\<lparr>nt_stdin_open := False\<rparr>)
      else if arg = ''--close-stdout'' then Inr (st\<lparr>nt_stdout_open := False\<rparr>)
      else if arg = ''--close-stderr'' then Inr (st\<lparr>nt_stdout_open := False\<rparr>)
      else if arg = ''--echo-stdin'' then Inr (echo_stdin st)
      else if arg = ''--ignore-sigterm'' then Inr (set_action SIGTERM Ignored st)
      else if arg = ''--ignore-sigint'' then Inr (set_action SIGINT Ignored st)
      else Inl (parse_error (''Unrecognized argument: '' @ [CHR 0x27] @ arg @ [CHR 0x27]) st))"

text \<open>
  \<^verbatim>\<open>main\<close>: the head of \<open>sigss\<close> are the signals that arrive before the argument is looked at,
  since the one before it was.
\<close>

fun test_loop :: "test_env \<Rightarrow> signal list list \<Rightarrow> string list \<Rightarrow> test_cmd \<Rightarrow> test_result" where
  "test_loop te sigss [] st =
     (case deliver_all te (concat (take 1 sigss)) st of Some e \<Rightarrow> (e, st) | None \<Rightarrow> (exits 0, st))"
| "test_loop te sigss (arg # rest) st =
     (case deliver_all te (concat (take 1 sigss)) st of
        Some e \<Rightarrow> (e, st)
      | None \<Rightarrow>
          (if takes_value arg then
             (case rest of
                [] \<Rightarrow> parse_error (missing_value arg) st
              | v # rest' \<Rightarrow>
                  (case value_option te arg v st of
                     Inl r \<Rightarrow> r
                   | Inr st' \<Rightarrow> test_loop te (drop 1 sigss) rest' st'))
           else
             (case flag_option arg st of
                Inl r \<Rightarrow> r
              | Inr st' \<Rightarrow> test_loop te (drop 1 sigss) rest st')))"

definition nixtestcmd :: "test_env \<Rightarrow> signal list list \<Rightarrow> string list \<Rightarrow> string list \<Rightarrow> test_result" where
  "nixtestcmd te sigss reads args = test_loop te sigss args (test_cmd_init reads)"

section \<open>Printing\<close>

text \<open>The arguments that print the given lines, each on the standard error or output.\<close>

definition print_args :: "(bool \<times> string) list \<Rightarrow> string list" where
  "print_args ls = concat (map (\<lambda>(err, l). [if err then ''--stderr-line'' else ''--stdout-line'', l]) ls)"

definition lines_of :: "bool \<Rightarrow> (bool \<times> string) list \<Rightarrow> string" where
  "lines_of err ls = concat (map (\<lambda>(e, l). if e = err then l @ [newline] else []) ls)"

lemma print_args_simps [simp]:
  "print_args [] = []" "lines_of err [] = []"
  "print_args ((e, l) # ls) = (if e then ''--stderr-line'' else ''--stdout-line'') # l # print_args ls"
  "lines_of err ((e, l) # ls) = (if e = err then l @ [newline] else []) @ lines_of err ls"
  by (simp_all add: print_args_def lines_of_def)

text \<open>What a closed standard output leaves of the lines: nothing.\<close>

definition prints :: "(bool \<times> string) list \<Rightarrow> test_cmd \<Rightarrow> test_cmd" where
  "prints ls st = st\<lparr>nt_stderr := nt_stderr st @ lines_of True ls,
     nt_stdout := (if nt_cout_ok st \<and> nt_stdout_open st then nt_stdout st @ lines_of False ls else nt_stdout st),
     nt_cout_ok := nt_cout_ok st \<and> (nt_stdout_open st \<or> (\<forall>(e, l)\<in>set ls. e))\<rparr>"

lemma test_loop_line:
  "test_loop te [] ((if e then ''--stderr-line'' else ''--stdout-line'') # l # args) st =
    test_loop te [] args (if e then print_cerr (l @ [newline]) st else print_cout (l @ [newline]) st)"
  by (simp add: takes_value_def value_option_def)

lemma test_loop_prints: "test_loop te [] (print_args ls @ args) st = test_loop te [] args (prints ls st)"
proof (induction ls arbitrary: st)
  case Nil
  show ?case by (simp add: prints_def)
next
  case (Cons el ls)
  obtain e l where el: "el = (e, l)" by (cases el)
  have "prints ls (if e then print_cerr (l @ [newline]) st else print_cout (l @ [newline]) st) = prints (el # ls) st"
    by (auto simp: el prints_def print_cerr_def print_cout_def)
  with Cons.IH show ?case by (simp add: el test_loop_line del: test_loop.simps)
qed

text \<open>
  Lines that are printed before an exit code arrive in their order, each on its own stream, and
  the code modulo 256 is what the parent sees.
\<close>

lemma nixtestcmd_prints:
  assumes "- (2 ^ 31) \<le> code" and "code < 2 ^ 31"
  shows "nixtestcmd te [] reads (print_args ls @ [''--exit-code'', show_int code]) =
    (Test_exits (code mod 256),
     (test_cmd_init reads)\<lparr>nt_stdout := lines_of False ls, nt_stderr := lines_of True ls\<rparr>)"
  using stoi_show_int [OF assms]
  by (simp add: nixtestcmd_def test_loop_prints takes_value_def value_option_def with_stoi_def exits_def
      prints_def test_cmd_init_def)

section \<open>The timeout tests\<close>

text \<open>
  The arguments of the tests \<^verbatim>\<open>cmd-exceeds-timeout-...\<close>: a line, what to do on \<^verbatim>\<open>SIGTERM\<close>, a sleep
  during which signals arrive.  A \<^verbatim>\<open>SIGTERM\<close> ends the process, by itself or by the handler, unless
  it is ignored; then the following \<^verbatim>\<open>SIGKILL\<close> does.
\<close>

definition sleeper_args :: "string list \<Rightarrow> string list" where
  "sleeper_args on_sigterm = [''--stdout-line'', ''Line 1.''] @ on_sigterm @ [''--sleep-ms'', ''10000'', ''--exit-code'', ''0'']"

definition timeout_signals :: "nat \<Rightarrow> signal list list" where
  "timeout_signals n = replicate n [] @ [[SIGTERM, SIGKILL]]"

lemma sleeper_ends:
  assumes "te_kills te SIGTERM" and "te_kills te SIGKILL"
  shows "fst (nixtestcmd te (timeout_signals 2) [] (sleeper_args [])) = Test_killed SIGTERM"
    and "fst (nixtestcmd te (timeout_signals 3) [] (sleeper_args [''--exit-code-on-sigterm'', ''15''])) = Test_exits 15"
    and "fst (nixtestcmd te (timeout_signals 3) [] (sleeper_args [''--ignore-sigterm''])) = Test_killed SIGKILL"
  using assms
  by (simp_all add: nixtestcmd_def sleeper_args_def timeout_signals_def takes_value_def value_option_def
      flag_option_def with_stoi_def test_cmd_init_def print_cout_def deliver_def set_action_def exits_def
      stoi_def split_sign_def is_space_char_def is_digit_char_def digits_value_def digit_value_def c_string_def
      eval_nat_numeral signal_defs)

section \<open>What silences the standard output\<close>

text \<open>
  \<^verbatim>\<open>--close-stderr\<close> closes the standard output, and echoing an empty standard input makes
  \<^verbatim>\<open>std::cout\<close> fail: of the lines that follow, only those for the standard error are printed.
\<close>

lemma close_stderr_closes_stdout:
  "\<exists>st. nixtestcmd te [] reads (''--close-stderr'' # print_args ls @ [''--exit-code'', show_int 0]) = (Test_exits 0, st) \<and>
    nt_stdout st = [] \<and> nt_stderr st = lines_of True ls"
  using stoi_show_int [of 0]
  by (simp add: nixtestcmd_def flag_option_def test_loop_prints takes_value_def value_option_def with_stoi_def
      exits_def prints_def test_cmd_init_def)

lemma empty_stdin_silences:
  "\<exists>st. nixtestcmd te [] [] (''--echo-stdin'' # print_args ls @ [''--exit-code'', show_int 0]) = (Test_exits 0, st) \<and>
    nt_stdout st = [] \<and> nt_stderr st = lines_of True ls"
  using stoi_show_int [of 0]
  by (simp add: nixtestcmd_def flag_option_def echo_stdin_def test_loop_prints takes_value_def value_option_def
      with_stoi_def exits_def prints_def test_cmd_init_def)

end
