(* ===== verification/StderrProps.thy ===== *)
theory StderrProps
  imports NixCmd
begin

text \<open>
  The standard error of a command is logged twice: line by line while it arrives, and, when the
  command has failed, once more as a whole.  This theory compares the two logs.
\<close>

text \<open>
  The standard error arrives in chunks, each of which is appended and flushed; the lines logged
  and the command afterwards.
\<close>

fun stream_stderr :: "string list \<Rightarrow> nix_cmd \<Rightarrow> fault + string list \<times> nix_cmd" where
  "stream_stderr [] c = Inr ([], c)"
| "stream_stderr (ch # chs) c =
     (case flush_stderr False (c\<lparr>nx_cmd_stderr := nx_cmd_stderr c @ ch\<rparr>) of
        Inl f \<Rightarrow> Inl f
      | Inr (ls, c') \<Rightarrow>
          (case stream_stderr chs c' of Inl f \<Rightarrow> Inl f | Inr (ls', c'') \<Rightarrow> Inr (ls @ ls', c'')))"

lemma stream_stderr_eq:
  "nx_flush_stderr_pos c = length (nx_cmd_stderr c) \<Longrightarrow>
    stream_stderr chs c = Inr (concat (map complete_lines chs),
      c\<lparr>nx_cmd_stderr := nx_cmd_stderr c @ concat chs,
        nx_flush_stderr_pos := length (nx_cmd_stderr c @ concat chs)\<rparr>)"
proof (induction chs arbitrary: c)
  case (Cons ch chs)
  let ?c1 = "c\<lparr>nx_cmd_stderr := nx_cmd_stderr c @ ch\<rparr>"
  have flushed: "flush_stderr False ?c1 = Inr (complete_lines ch, ?c1\<lparr>nx_flush_stderr_pos := length (nx_cmd_stderr c @ ch)\<rparr>)"
    by (subst flush_stderr_eq) (simp_all add: Cons.prems)
  show ?case by (simp add: flushed Cons.IH)
qed simp

lemma unfinished_append: "unfinished_line xs = [] \<Longrightarrow> unfinished_line (xs @ ys) = unfinished_line ys"
  by (simp add: unfinished_line_def flush_chars_append split_beta Let_def)

lemma complete_chunks:
  "\<forall>ch\<in>set chs. unfinished_line ch = [] \<Longrightarrow>
    concat (map complete_lines chs) = complete_lines (concat chs) \<and> unfinished_line (concat chs) = []"
  by (induction chs)
    (auto simp: complete_lines_append unfinished_append, simp_all add: complete_lines_def unfinished_line_def)

text \<open>
  C38. Equivalence of the log that is written while the standard error arrives with the one that
  is written of the whole after a failure: they are the same when every chunk that was read ends
  with the end of a line.  In any case the former consists of the lines that are complete within
  one chunk: of a line that arrives in two pieces only the end is logged, and a last line without
  an end not at all.
\<close>

theorem stderr_logs_agree:
  assumes "nx_cmd_stderr c = []" and "nx_flush_stderr_pos c = 0"
  shows "\<exists>c' logged whole.
    stream_stderr chunks c = Inr (logged, c') \<and> logged = concat (map complete_lines chunks) \<and>
    nx_cmd_stderr c' = concat chunks \<and> flush_stderr True c' = Inr ([], c') \<and>
    flush_stderr True (c'\<lparr>nx_flush_stderr_pos := 0\<rparr>) = Inr (whole, c') \<and>
    whole = complete_lines (concat chunks) @
      (if unfinished_line (concat chunks) = [] then [] else [unfinished_line (concat chunks)]) \<and>
    ((\<forall>ch\<in>set chunks. unfinished_line ch = []) \<longrightarrow> logged = whole)"
proof -
  let ?c' = "c\<lparr>nx_cmd_stderr := concat chunks, nx_flush_stderr_pos := length (concat chunks)\<rparr>"
  have "stream_stderr chunks c = Inr (concat (map complete_lines chunks), ?c')"
    using assms by (simp add: stream_stderr_eq)
  moreover have "flush_stderr True ?c' = Inr ([], ?c')"
    by (subst flush_stderr_eq) (simp_all add: complete_lines_def unfinished_line_def)
  moreover have "flush_stderr True (?c'\<lparr>nx_flush_stderr_pos := 0\<rparr>) = Inr (complete_lines (concat chunks) @
      (if unfinished_line (concat chunks) = [] then [] else [unfinished_line (concat chunks)]), ?c')"
    by (subst flush_stderr_eq) simp_all
  ultimately show ?thesis
    using complete_chunks [of chunks] by (intro exI [of _ ?c'] exI conjI) auto
qed

theorem stderr_logs_agree_witness:
  "\<exists>c'. stream_stderr [''ab'', [CHR ''c'', newline]] (nix_cmd_blank cmd_meta_blank) = Inr ([''c''], c') \<and>
    (\<exists>c''. flush_stderr True (c'\<lparr>nx_flush_stderr_pos := 0\<rparr>) = Inr ([''abc''], c''))"
proof -
  have blank: "nx_cmd_stderr (nix_cmd_blank cmd_meta_blank) = []" "nx_flush_stderr_pos (nix_cmd_blank cmd_meta_blank) = 0"
    by (simp_all add: nix_cmd_blank_def)
  show ?thesis
    using stderr_logs_agree [OF blank, of "[''ab'', [CHR ''c'', newline]]"]
    by (auto simp: complete_lines_def unfinished_line_def is_line_end_def)
qed

end
