(* ===== verification/PqCalls.thy ===== *)
theory PqCalls
  imports PqRaii RunnerProps
begin

text \<open>
  The functions of the namespace \<^verbatim>\<open>PQ\<close> that stand between the daemon and libpq: what a statement
  passes to it, the accessors by name, notifications, and the escape functions with the C++ strings
  that they write into.
\<close>

section \<open>Statements\<close>

text \<open>
  What libpq is called with; a text ends at its first \<^verbatim>\<open>NUL\<close>.  A value is a pointer, \<open>None\<close> the
  null pointer, and of an array only the first \<^verbatim>\<open>nParams\<close> elements are read.
\<close>

datatype libpq_call =
    PQexec string
  | PQprepare string string nat
  | PQexecParams string nat "string option list" "int list" "int list"
  | PQexecPrepared string nat "string option list" "int list" "int list"
  | PQdescribePrepared string

text \<open>The number of parameters, as the places that call say it; 0 is the default.\<close>

fun nParams :: "sql_call \<Rightarrow> nat" where
  "nParams (Exec command) = 0"
| "nParams (Exec_params command values) = (if command = ''CmdQueue::SELECT_STMT'' then 1 else 2)"
| "nParams (Exec_prepared stmtName values lengths formats) =
     (if stmtName = ''select_notify_cmd'' then 2 else if stmtName = ''update_cmd'' then length values else 0)"
| "nParams (Describe_prepared stmtName) = 0"

definition exec :: "string \<Rightarrow> libpq_call" where
  "exec command = PQexec (c_string command)"

definition execParams :: "string \<Rightarrow> nat \<Rightarrow> string option list \<Rightarrow> int list \<Rightarrow> int list \<Rightarrow> libpq_call" where
  "execParams command n paramValues paramLengths paramFormats =
     PQexecParams (c_string command) n (raw_values paramValues) paramLengths paramFormats"

text \<open>Nothing in the sources calls it: the server prepares the statements of a session.\<close>

definition prepare :: "string \<Rightarrow> string \<Rightarrow> nat \<Rightarrow> libpq_call" where
  "prepare stmtName query n = PQprepare (c_string stmtName) (c_string query) n"

definition execPrepared :: "string \<Rightarrow> nat \<Rightarrow> string option list \<Rightarrow> int list \<Rightarrow> int list \<Rightarrow> libpq_call" where
  "execPrepared stmtName n paramValues paramLengths paramFormats =
     PQexecPrepared (c_string stmtName) n (raw_values paramValues) paramLengths paramFormats"

definition describePrepared :: "string \<Rightarrow> libpq_call" where
  "describePrepared stmtName = PQdescribePrepared (c_string stmtName)"

fun libpq_call_of :: "sql_call \<Rightarrow> libpq_call" where
  "libpq_call_of (Exec command) = exec command"
| "libpq_call_of (Exec_params command values) =
     execParams command (nParams (Exec_params command values)) values [] []"
| "libpq_call_of (Exec_prepared stmtName values lengths formats) =
     execPrepared stmtName (nParams (Exec_prepared stmtName values lengths formats)) values lengths formats"
| "libpq_call_of (Describe_prepared stmtName) = describePrepared stmtName"

text \<open>Whether libpq finds the elements it reads; a null pointer for a whole array is allowed.\<close>

fun reads_within :: "libpq_call \<Rightarrow> bool" where
  "reads_within (PQexec command) = True"
| "reads_within (PQprepare stmtName query n) = True"
| "reads_within (PQexecParams command n values lengths formats) =
     (n \<le> length values \<and> (\<forall>i\<in>{..<n}. array_at lengths i \<noteq> None \<and> array_at formats i \<noteq> None))"
| "reads_within (PQexecPrepared stmtName n values lengths formats) =
     (n \<le> length values \<and> (\<forall>i\<in>{..<n}. array_at lengths i \<noteq> None \<and> array_at formats i \<noteq> None))"
| "reads_within (PQdescribePrepared stmtName) = True"

text \<open>Whether it reads all that was given\<close>

fun reads_all :: "libpq_call \<Rightarrow> bool" where
  "reads_all (PQexecParams command n values lengths formats) = (n = length values)"
| "reads_all (PQexecPrepared stmtName n values lengths formats) = (n = length values)"
| "reads_all lc = True"

definition call_ok :: "sql_call \<Rightarrow> bool" where
  "call_ok c \<longleftrightarrow> reads_within (libpq_call_of c) \<and> reads_all (libpq_call_of c)"

lemma call_ok_simps [simp]:
  "call_ok (Exec command)"
  "call_ok (Describe_prepared stmtName)"
  "call_ok (Exec_params command values) \<longleftrightarrow> nParams (Exec_params command values) = length values"
  by (auto simp: call_ok_def exec_def describePrepared_def execParams_def raw_values_def array_at_def)

lemma call_ok_prepared:
  assumes "nParams (Exec_prepared stmtName values lengths formats) = length values"
    and "lengths = [] \<or> length lengths = length values" and "formats = [] \<or> length formats = length values"
  shows "call_ok (Exec_prepared stmtName values lengths formats)"
  using assms by (auto simp: call_ok_def execPrepared_def raw_values_def array_at_def simp del: nParams.simps)

lemma select_call_ok: "select_call rn = Some c \<Longrightarrow> call_ok c"
  by (auto simp: select_call_def intro: call_ok_prepared split: option.splits if_splits)

definition calls_ok :: "runner \<Rightarrow> bool" where
  "calls_ok rn \<longleftrightarrow> (\<forall>c\<in>set (rn_calls rn). call_ok c)"

lemma calls_ok_call [simp]: "calls_ok (call c rn) \<longleftrightarrow> call_ok c \<and> calls_ok rn"
  by (auto simp: calls_ok_def call_def)

lemma calls_ok_cong: "rn_calls rn' = rn_calls rn \<Longrightarrow> calls_ok rn' = calls_ok rn"
  by (simp add: calls_ok_def)

lemma calls_ok_connect: "connect_step cmdqd_env a rn = Returns rn' \<Longrightarrow> calls_ok rn \<Longrightarrow> calls_ok rn'"
  by (auto simp: connect_step_def bind_outcome_Returns_iff Let_def session_start_call_def exit_runner_def
      calls_ok_def call_def split: if_splits)

lemma calls_ok_wait: "wait_step asserts a rn = Returns rn' \<Longrightarrow> calls_ok rn \<Longrightarrow> calls_ok rn'"
  by (auto simp: wait_step_def Let_def on_notify_def on_kill_pipe_def exit_runner_def calls_ok_def
      split: option.splits sum.splits if_splits kill_read.splits)

lemma calls_ok_end_transaction: "calls_ok rn \<Longrightarrow> calls_ok (end_transaction a rn)"
  by (auto simp: end_transaction_def calls_ok_def call_def)

lemma calls_ok_no_cmd: "no_cmd a rn = Returns rn' \<Longrightarrow> calls_ok rn \<Longrightarrow> calls_ok rn'"
  by (auto simp: no_cmd_def Let_def calls_ok_def call_def split: if_splits sum.splits)

text \<open>With the contract of the commands, the \<^verbatim>\<open>UPDATE\<close> is such a call too.\<close>

context queue_cmd begin

lemma calls_ok_update: "calls_ok rn \<Longrightarrow> calls_ok (update_cmd ops a c rn)"
  using lengths [of c] formats [of c]
  by (auto simp: update_cmd_def Let_def intro: call_ok_prepared)

lemma calls_ok_serve: "serve_cmd ops a rn = Returns rn' \<Longrightarrow> calls_ok rn \<Longrightarrow> calls_ok rn'"
  by (auto simp: serve_cmd_def bind_outcome_Returns_iff intro: calls_ok_update)

lemma calls_ok_handle:
  assumes "handle_select asserts ops a rn = Returns rn'" and "calls_ok rn"
  shows "calls_ok rn'"
proof (cases "res_status (sl_select a) \<noteq> PGRES_TUPLES_OK")
  case True
  with assms show ?thesis by (simp add: handle_select_def)
next
  case ok: False
  show ?thesis
  proof (cases "ntuples (sl_select a) = 1")
    case True
    with ok assms(1) have "serve_cmd ops a rn = Returns rn'" by (simp add: handle_select_def)
    then show ?thesis using assms(2) by (rule calls_ok_serve)
  next
    case False
    with ok assms(1) have "no_cmd a rn = Returns rn'" by (simp add: handle_select_def split: if_splits)
    then show ?thesis using assms(2) by (rule calls_ok_no_cmd)
  qed
qed

lemma calls_ok_select:
  assumes "select_step asserts ops a rn = Returns rn'" and "calls_ok rn"
  shows "calls_ok rn'"
proof (cases "\<not> rn_keep_running rn \<or> rn_go_back_to_reconnect_loop rn")
  case True
  with assms show ?thesis by (auto simp: select_step_def calls_ok_def)
next
  case False
  with assms(1) obtain c rn2 where c: "select_call (call (Exec ''BEGIN TRANSACTION'') rn) = Some c"
    and rn2: "handle_select asserts ops a (call c (call (Exec ''BEGIN TRANSACTION'') rn)) = Returns rn2"
    and rn': "rn' = end_transaction a rn2"
    by (auto simp: select_step_def Let_def bind_outcome_Returns_iff split: option.splits)
  have "calls_ok rn2" using calls_ok_handle [OF rn2] select_call_ok [OF c] assms(2) by simp
  then show ?thesis unfolding rn' by (rule calls_ok_end_transaction)
qed

lemma calls_ok_reaches: "runner_reaches asserts cmdqd_env ops q rn \<Longrightarrow> calls_ok rn"
proof (induction rule: runner_reaches.induct)
  case start
  show ?case by (simp add: calls_ok_def runner_init_def)
next
  case (step rn rn')
  then show ?case by (auto elim!: runner_stepE intro: calls_ok_connect calls_ok_select calls_ok_wait)
qed

end

text \<open>
  C8. Every statement that a runner of either kind passes to libpq, in any state that it can
  reach, has as many parameters as it says, neither more nor fewer than were given, and no array
  of values, lengths or formats is read beyond its end.
\<close>

theorem runner_statements:
  shows "(runner_reaches asserts cmdqd_env (nix_ops asserts) q rn \<longrightarrow>
      (\<forall>c\<in>set (rn_calls rn). reads_within (libpq_call_of c) \<and> reads_all (libpq_call_of c))) \<and>
    (runner_reaches asserts cmdqd_env sql_ops q rn \<longrightarrow>
      (\<forall>c\<in>set (rn_calls rn). reads_within (libpq_call_of c) \<and> reads_all (libpq_call_of c)))"
  unfolding call_ok_def [symmetric] calls_ok_def [symmetric]
  using nix_queue.calls_ok_reaches sql_queue.calls_ok_reaches by blast

theorem runner_statements_witness:
  "reads_within (libpq_call_of (session_start_call [] example_queue)) \<and>
    reads_all (libpq_call_of (session_start_call [] example_queue))"
proof -
  have "session_start_call [] example_queue \<in> set (rn_calls example_selecting)"
    by (simp add: example_selecting_def)
  then show ?thesis
    using runner_statements [of True "[]" example_queue example_selecting] example_selecting_reached by blast
qed

section \<open>Accessors\<close>

text \<open>\<^verbatim>\<open>PQ::from_text\<close> and \<^verbatim>\<open>PQ::as_text\<close> of a \<^verbatim>\<open>char *\<close>\<close>

definition from_text :: "string option \<Rightarrow> string option" where
  "from_text p = (case p of None \<Rightarrow> None | Some s \<Rightarrow> Some (c_string s))"

definition as_text :: "string option \<Rightarrow> string option" where
  "as_text p = (case p of None \<Rightarrow> None | Some s \<Rightarrow> Some (c_string s))"

definition fnames :: "pg_result \<Rightarrow> string list" where
  "fnames res = map c_string (res_fnames res)"

text \<open>
  By the name of a column; \<^verbatim>\<open>PQfnumber\<close>, which folds case unless the name is quoted, is a
  parameter, and an unknown name (-1) makes libpq return a null pointer and say that the cell is
  null.
\<close>

definition getvalue_by_name :: "(pg_result \<Rightarrow> string \<Rightarrow> nat option) \<Rightarrow> pg_result \<Rightarrow> nat \<Rightarrow> string \<Rightarrow> fault + string" where
  "getvalue_by_name PQfnumber res row name =
     (case PQfnumber res (c_string name) of None \<Rightarrow> string_of_ptr None | Some col \<Rightarrow> getvalue res row col)"

definition getnullable_by_name ::
    "(pg_result \<Rightarrow> string \<Rightarrow> nat option) \<Rightarrow> pg_result \<Rightarrow> nat \<Rightarrow> string \<Rightarrow> fault + string option" where
  "getnullable_by_name PQfnumber res row name =
     (case PQfnumber res (c_string name) of None \<Rightarrow> Inr None | Some col \<Rightarrow> getnullable res row col)"

text \<open>
  The two accessors differ on a column that does not exist: one throws, for the other it is null.
\<close>

lemma missing_column:
  assumes "PQfnumber res (c_string name) = None"
  shows "getvalue_by_name PQfnumber res row name = Inl (Exn (Logic_error ''construction from null''))"
    and "getnullable_by_name PQfnumber res row name = Inr None"
  using assms by (simp_all add: getvalue_by_name_def getnullable_by_name_def string_of_ptr_def)

text \<open>Of columns with the same name, \<^verbatim>\<open>fnumbers\<close> has the last one.\<close>

lemma fnumbers_duplicate:
  "fnumbers (res\<lparr>res_fnames := [n, n]\<rparr>) n = Some 1"
  by (simp add: fnumbers_def enumerate_eq_zip)

section \<open>Notifications\<close>

record pg_notify =
  no_relname :: string
  no_be_pid :: int
  no_extra :: string

text \<open>\<^verbatim>\<open>PQ::notifies\<close>: the wrapper is there even when libpq has no notification (\<open>None\<close>).\<close>

definition relname :: "pg_notify option \<Rightarrow> string outcome" where
  "relname d = (case d of None \<Rightarrow> Undefined | Some n \<Rightarrow> Returns (c_string (no_relname n)))"

definition be_pid :: "pg_notify option \<Rightarrow> int outcome" where
  "be_pid d = (case d of None \<Rightarrow> Undefined | Some n \<Rightarrow> Returns (no_be_pid n))"

definition extra :: "pg_notify option \<Rightarrow> string outcome" where
  "extra d = (case d of None \<Rightarrow> Undefined | Some n \<Rightarrow> Returns (c_string (no_extra n)))"

text \<open>
  The daemon asks for the payload only of a notification that is there: what a runner gets
  (\<open>wt_notify\<close>) is never undefined.
\<close>

definition notify_payload :: "pg_notify option \<Rightarrow> string option" where
  "notify_payload d = (case d of None \<Rightarrow> None | Some n \<Rightarrow> Some (c_string (no_extra n)))"

lemma notify_payload_extra: "notify_payload d = Some payload \<longleftrightarrow> extra d = Returns payload"
  by (simp add: notify_payload_def extra_def split: option.split)

section \<open>Escaping\<close>

text \<open>
  A \<^verbatim>\<open>std::string\<close> is a buffer, of which the first characters are its value.  \<^verbatim>\<open>reserve\<close> makes the
  buffer longer and \<^verbatim>\<open>data()\<close> is its address; writing there does not change the size, and
  writing past the buffer is undefined.  A new one has room for 15 characters and the final
  \<^verbatim>\<open>NUL\<close>, as in the GNU library.
\<close>

record cxx_string =
  cs_buffer :: string
  cs_size :: nat

definition new_string :: cxx_string where
  "new_string = \<lparr>cs_buffer = replicate 16 nul, cs_size = 0\<rparr>"

definition reserve :: "nat \<Rightarrow> cxx_string \<Rightarrow> cxx_string" where
  "reserve n s = s\<lparr>cs_buffer := cs_buffer s @ replicate (n + 1 - length (cs_buffer s)) nul\<rparr>"

definition write_data :: "string \<Rightarrow> cxx_string \<Rightarrow> cxx_string outcome" where
  "write_data text s =
     (if length text \<le> length (cs_buffer s)
      then Returns (s\<lparr>cs_buffer := text @ drop (length text) (cs_buffer s)\<rparr>) else Undefined)"

definition string_value :: "cxx_string \<Rightarrow> string" where
  "string_value s = take (cs_size s) (cs_buffer s)"

text \<open>What libpq makes of the text is a parameter; it writes that and a \<^verbatim>\<open>NUL\<close>.\<close>

definition escapeStringConn :: "(string \<Rightarrow> string) \<Rightarrow> string \<Rightarrow> string outcome" where
  "escapeStringConn PQescapeStringConn from =
     bind_outcome (write_data (PQescapeStringConn from @ [nul]) (reserve (length from * 2 + 1) new_string))
       (\<lambda>to. Returns (string_value to))"

definition escapeString :: "(string \<Rightarrow> string) \<Rightarrow> string \<Rightarrow> string outcome" where
  "escapeString PQescapeString from =
     bind_outcome (write_data (PQescapeString from @ [nul]) (reserve (length from * 2 + 1) new_string))
       (\<lambda>to. Returns (string_value to))"

text \<open>These two return a new text, or a null pointer for one that is not valid in the encoding.\<close>

definition escapeLiteral :: "(string \<Rightarrow> string option) \<Rightarrow> string \<Rightarrow> fault + string" where
  "escapeLiteral PQescapeLiteral str = map_exn c_string (string_of_ptr (PQescapeLiteral str))"

definition escapeByteaConn :: "(string \<Rightarrow> string option) \<Rightarrow> string \<Rightarrow> fault + string" where
  "escapeByteaConn PQescapeByteaConn from = map_exn c_string (string_of_ptr (PQescapeByteaConn from))"

text \<open>
  libpq promises at most two characters for each; so the writing is within the buffer, but the
  result is the empty text, whatever was to be escaped.
\<close>

lemma escape_to_buffer_empty:
  assumes "length text \<le> 2 * n"
  shows "\<exists>to. write_data (text @ [nul]) (reserve (n * 2 + 1) new_string) = Returns to \<and> string_value to = []"
  using assms by (simp add: write_data_def reserve_def new_string_def string_value_def)

lemma escapes_to_nothing:
  assumes "length (escaped from) \<le> 2 * length from"
  shows "escapeStringConn escaped from = Returns []" and "escapeString escaped from = Returns []"
  using escape_to_buffer_empty [OF assms] by (auto simp: escapeStringConn_def escapeString_def)

end
