(* ===== verification/StopDelivery.thy ===== *)
theory StopDelivery
  imports DaemonStop ManagerProps
begin

text \<open>
  From \<^verbatim>\<open>stop_all_runners\<close> to the end of \<^verbatim>\<open>join_all_threads\<close>: the signal number that the main thread
  writes into the kill pipe of a runner is what the runner reads from it, and it stops the runner
  wherever it is.  A runner that was told once, on a connection that holds, with no notification
  that calls it away from \<^verbatim>\<open>poll()\<close> and no interruption of \<^verbatim>\<open>poll()\<close>, leaves its loops.
\<close>

section \<open>What a runner sees of its pipe\<close>

text \<open>The four bytes of an \<^verbatim>\<open>int\<close>.\<close>

definition signal_bytes :: "signal \<Rightarrow> string" where
  "signal_bytes s = map (\<lambda>i. char_of (s div 256 ^ i mod 256)) [0..<4]"

text \<open>
  \<^verbatim>\<open>poll()\<close> reports the pipe exactly when it holds something, and \<^verbatim>\<open>read()\<close> takes one number after
  the other until it is empty.
\<close>

definition pipe_answers :: "signal list \<Rightarrow> wait_answers \<Rightarrow> bool" where
  "pipe_answers pipe w \<longleftrightarrow>
     (case wt_poll w of Inl e \<Rightarrow> True | Inr (conn_ready, kill_ready) \<Rightarrow> kill_ready = (pipe \<noteq> [])) \<and>
     wt_kill_reads w = map (\<lambda>s. Got (signal_bytes s)) pipe @ [Read_error EAGAIN]"

definition undisturbed :: "wait_answers \<Rightarrow> bool" where
  "undisturbed w \<longleftrightarrow> wt_notify w = None \<and> wt_poll w \<noteq> Inl EINTR \<and> wt_consume_input w"

text \<open>
  A number stays in \<open>th_kill_pipe\<close> when it has been read; but after that the runner polls no more,
  so that, as long as it does, what was written is what the pipe holds.
\<close>

inductive delivered_step ::
    "bool \<Rightarrow> (string \<times> string) list \<Rightarrow> ('c, 'e) cmd_ops \<Rightarrow> signal list \<Rightarrow> runner \<Rightarrow> runner \<Rightarrow> bool"
  for asserts cmdqd_env and ops :: "('c, 'e) cmd_ops" and pipe where
  connect: "rn_phase rn = Connecting \<Longrightarrow> connect_step cmdqd_env a rn = Returns rn'
    \<Longrightarrow> delivered_step asserts cmdqd_env ops pipe rn rn'"
| select: "rn_phase rn = Selecting \<Longrightarrow> select_step asserts ops b rn = Returns rn' \<Longrightarrow> \<not> sl_txn_unknown b
    \<Longrightarrow> delivered_step asserts cmdqd_env ops pipe rn rn'"
| wait: "rn_phase rn = Waiting \<Longrightarrow> wait_step asserts w rn = Returns rn' \<Longrightarrow> pipe_answers pipe w \<Longrightarrow> undisturbed w
    \<Longrightarrow> delivered_step asserts cmdqd_env ops pipe rn rn'"

inductive_cases delivered_stepE: "delivered_step asserts cmdqd_env ops pipe rn rn'"

lemma delivered_runner_step:
  "delivered_step asserts cmdqd_env ops pipe rn rn' \<Longrightarrow> runner_step asserts cmdqd_env ops rn rn'"
  by (auto elim!: delivered_stepE intro: runner_step.intros)

inductive delivered_thread_step ::
    "bool \<Rightarrow> (string \<times> string) list \<Rightarrow> kind \<Rightarrow> thread \<Rightarrow> thread \<Rightarrow> bool"
  for asserts cmdqd_env where
  nix: "th_run th = Some rn \<Longrightarrow> delivered_step asserts cmdqd_env (nix_ops asserts) (th_kill_pipe th) rn rn'
    \<Longrightarrow> delivered_thread_step asserts cmdqd_env Nix th (th\<lparr>th_run := Some rn'\<rparr>)"
| sql: "th_run th = Some rn \<Longrightarrow> delivered_step asserts cmdqd_env sql_ops (th_kill_pipe th) rn rn'
    \<Longrightarrow> delivered_thread_step asserts cmdqd_env Sql th (th\<lparr>th_run := Some rn'\<rparr>)"

inductive_cases delivered_thread_stepE: "delivered_thread_step asserts cmdqd_env k th th'"

lemma delivered_is_thread_step:
  "delivered_thread_step asserts cmdqd_env k th th' \<Longrightarrow> thread_step asserts cmdqd_env k th th'"
  by (auto elim!: delivered_thread_stepE intro: thread_step.intros delivered_runner_step)

section \<open>A runner that was told once\<close>

definition selects :: "runner \<Rightarrow> bool" where
  "selects rn \<longleftrightarrow> rn_conn rn \<noteq> None \<and> cq_queue_reselect_randomized_every_nth (rn_cmd_queue rn) \<noteq> Some 0"

definition told_once :: "signal list \<Rightarrow> runner \<Rightarrow> bool" where
  "told_once pipe rn \<longleftrightarrow> rn_phase rn = Gone \<or> \<not> rn_keep_running rn \<or> length pipe = 1 \<and> selects rn"

text \<open>The steps that it has left at most.\<close>

definition delivery_rank :: "runner \<Rightarrow> nat" where
  "delivery_rank rn =
     (if \<not> rn_keep_running rn then loops_left (rn_phase rn)
      else (case rn_phase rn of
         Gone \<Rightarrow> 0
       | Waiting \<Rightarrow> 4
       | Selecting \<Rightarrow> if rn_go_back_to_reconnect_loop rn then 7 else 5
       | Connecting \<Rightarrow> 6))"

lemma delivery_rank_le: "delivery_rank rn \<le> 7"
  using loops_left_le [of "rn_phase rn"] by (auto simp: delivery_rank_def split: phase.split)

lemma delivery_rank_0:
  "delivery_rank rn = 0 \<longleftrightarrow> rn_phase rn = Gone"
  "0 < delivery_rank rn \<longleftrightarrow> rn_phase rn \<noteq> Gone"
  by (auto simp: delivery_rank_def loops_left_0 loops_left_pos split: phase.splits)

text \<open>What a step of each loop leaves as it is.\<close>

definition same_settings :: "runner \<Rightarrow> runner \<Rightarrow> bool" where
  "same_settings rn rn' \<longleftrightarrow> rn_cmd_queue rn' = rn_cmd_queue rn \<and> rn_keep_running rn' = rn_keep_running rn \<and>
     rn_go_back_to_reconnect_loop rn' = rn_go_back_to_reconnect_loop rn"

lemma update_cmd_frame: "same_settings rn (update_cmd ops a c rn) \<and> rn_phase (update_cmd ops a c rn) = rn_phase rn"
  by (simp add: update_cmd_def call_def same_settings_def Let_def)

lemma no_cmd_frame:
  "no_cmd a rn = Returns rn' \<Longrightarrow> same_settings rn rn' \<and> (rn_phase rn' = rn_phase rn \<or> rn_phase rn' = Gone)"
  by (auto simp: no_cmd_def call_def same_settings_def Let_def split: if_splits sum.splits)

lemma serve_cmd_frame: "serve_cmd ops a rn = Returns rn' \<Longrightarrow> same_settings rn rn' \<and> rn_phase rn' = rn_phase rn"
  by (auto simp: serve_cmd_def bind_outcome_Returns_iff update_cmd_frame)

lemma handle_select_frame:
  assumes "handle_select asserts ops a rn = Returns rn'"
  shows "same_settings rn rn' \<and> (rn_phase rn' = rn_phase rn \<or> rn_phase rn' = Gone)"
proof (cases "res_status (sl_select a) \<noteq> PGRES_TUPLES_OK")
  case True
  with assms show ?thesis by (simp add: handle_select_def same_settings_def)
next
  case False
  show ?thesis
  proof (cases "ntuples (sl_select a) = 1")
    case True
    with False assms have "serve_cmd ops a rn = Returns rn'" by (simp add: handle_select_def)
    from serve_cmd_frame [OF this] show ?thesis by simp
  next
    case more: False
    with False assms have "no_cmd a rn = Returns rn'" by (simp add: handle_select_def split: if_splits)
    then show ?thesis by (rule no_cmd_frame)
  qed
qed

lemma select_step_told:
  assumes "select_step asserts ops b rn = Returns rn'" and "rn_phase rn = Selecting" and "rn_keep_running rn"
    and "selects rn" and "\<not> sl_txn_unknown b"
  shows "told_once [s] rn' \<and> delivery_rank rn' < delivery_rank rn"
proof (cases "rn_go_back_to_reconnect_loop rn")
  case True
  then show ?thesis using assms by (auto simp: select_step_def told_once_def selects_def delivery_rank_def)
next
  case False
  then obtain c rn2 where handled: "handle_select asserts ops b (call c (call (Exec ''BEGIN TRANSACTION'') rn)) = Returns rn2"
    and rn': "rn' = end_transaction b rn2"
    using assms by (auto simp: select_step_def Let_def bind_outcome_Returns_iff split: option.splits)
  from handle_select_frame [OF handled] have "same_settings rn rn2" "rn_phase rn2 = Selecting \<or> rn_phase rn2 = Gone"
    using assms(2) by (auto simp: same_settings_def call_def)
  then show ?thesis
    using assms False
    by (auto simp: rn' end_transaction_def told_once_def selects_def delivery_rank_def same_settings_def call_def)
qed

lemma connect_step_told:
  assumes "connect_step cmdqd_env a rn = Returns rn'" and "rn_phase rn = Connecting" and "rn_keep_running rn"
    and "selects rn"
  shows "told_once [s] rn' \<and> delivery_rank rn' < delivery_rank rn"
  using assms
  by (auto simp: connect_step_def bind_outcome_Returns_iff exit_runner_def told_once_def selects_def call_def Let_def
      delivery_rank_def loops_left_0 split: if_splits)

lemma wait_step_told:
  assumes "wait_step asserts w rn = Returns rn'" and "rn_phase rn = Waiting" and "rn_keep_running rn"
    and "pipe_answers [s] w" and "undisturbed w"
  shows "told_once [s] rn' \<and> delivery_rank rn' < delivery_rank rn"
  using assms
  by (auto simp: wait_step_def undisturbed_def pipe_answers_def signal_bytes_def on_kill_pipe_def exit_runner_def
      told_once_def delivery_rank_def split: sum.splits if_splits)

lemma delivered_step_told:
  assumes "delivered_step asserts cmdqd_env ops pipe rn rn'" and "told_once pipe rn"
  shows "told_once pipe rn' \<and> delivery_rank rn' < delivery_rank rn"
proof (cases "rn_keep_running rn")
  case False
  with delivered_runner_step [OF assms(1)] have "\<not> rn_keep_running rn'"
    "loops_left (rn_phase rn) = Suc (loops_left (rn_phase rn'))" by (auto dest: stopping_step)
  with False show ?thesis by (simp add: told_once_def delivery_rank_def)
next
  case True
  have "rn_phase rn \<noteq> Gone" using assms(1) by (auto elim: delivered_stepE)
  with True assms(2) obtain s where pipe: "pipe = [s]" and "selects rn"
    by (auto simp: told_once_def length_Suc_conv)
  with assms(1) True connect_step_told select_step_told wait_step_told show ?thesis
    unfolding pipe by (blast elim: delivered_stepE)
qed

text \<open>In every phase there are answers on which the step returns.\<close>

definition failing_select :: "'e \<Rightarrow> 'e select_answers" where
  "failing_select e = \<lparr>sl_select = null_result, sl_start_clock = 0, sl_run = e, sl_end_clock = 0,
     sl_update = null_result, sl_remember_failed_update = null_result, sl_now = 0, sl_enter_round = null_result,
     sl_conn = CONNECTION_OK, sl_txn_unknown = False, sl_txn_in_error = True\<rparr>"

definition stopped_connect :: connect_answers where
  "stopped_connect = \<lparr>cn_attempts = [\<lparr>at_sig_recv = (\<lambda>_. True), at_status = CONNECTION_BAD\<rparr>],
     cn_session_start = null_result, cn_describe = null_result, cn_now = 0\<rparr>"

definition kill_answers :: "signal list \<Rightarrow> wait_answers" where
  "kill_answers pipe = \<lparr>wt_notify = None, wt_now = 0, wt_poll = Inr (False, pipe \<noteq> []), wt_consume_input = True,
     wt_kill_reads = map (\<lambda>s. Got (signal_bytes s)) pipe @ [Read_error EAGAIN]\<rparr>"

lemma connect_step_returns:
  assumes "rn_conn rn \<noteq> None \<or> \<not> rn_keep_running rn"
  shows "\<exists>rn'. connect_step cmdqd_env stopped_connect rn = Returns rn'"
proof (cases "rn_keep_running rn")
  case True
  with assms obtain conn where "rn_conn rn = Some conn" by auto
  with True show ?thesis
    by (cases conn) (simp_all add: connect_step_def stopped_connect_def maintain_connection_def stop_signals_def
        null_result_def signal_defs)
qed (simp add: connect_step_def)

lemma select_call_Some:
  "cq_queue_reselect_randomized_every_nth (rn_cmd_queue rn) \<noteq> Some 0 \<Longrightarrow> select_call rn \<noteq> None"
  by (cases "rn_notify_cmd rn"; cases "cq_queue_reselect_randomized_every_nth (rn_cmd_queue rn)")
    (auto simp: select_call_def split: prod.split)

lemma select_step_returns:
  assumes "cq_queue_reselect_randomized_every_nth (rn_cmd_queue rn) \<noteq> Some 0 \<or> \<not> rn_keep_running rn"
  shows "\<exists>rn'. select_step asserts ops (failing_select e) rn = Returns rn'"
proof (cases "\<not> rn_keep_running rn \<or> rn_go_back_to_reconnect_loop rn")
  case False
  with assms have "select_call (call (Exec ''BEGIN TRANSACTION'') rn) \<noteq> None"
    by (intro select_call_Some) (simp add: call_def)
  with False show ?thesis
    by (auto simp: select_step_def Let_def handle_select_def failing_select_def null_result_def)
qed (auto simp: select_step_def)

lemma wait_step_returns:
  assumes "length pipe = 1 \<or> \<not> rn_keep_running rn"
  shows "\<exists>rn'. wait_step asserts (kill_answers pipe) rn = Returns rn'"
proof (cases "rn_keep_running rn")
  case True
  with assms obtain s where "pipe = [s]" by (auto simp: length_Suc_conv)
  with True show ?thesis
    by (simp add: wait_step_def kill_answers_def on_kill_pipe_def signal_bytes_def)
qed (simp add: wait_step_def)

lemma delivered_progress:
  assumes "told_once pipe rn" and "rn_phase rn \<noteq> Gone"
  shows "\<exists>rn'. delivered_step asserts cmdqd_env ops pipe rn rn'"
proof (cases "rn_phase rn")
  case Connecting
  obtain rn' where "connect_step cmdqd_env stopped_connect rn = Returns rn'"
    using connect_step_returns [of rn cmdqd_env] assms by (auto simp: told_once_def selects_def)
  then show ?thesis using delivered_step.connect [OF Connecting] by blast
next
  case Selecting
  obtain rn' where "select_step asserts ops (failing_select e) rn = Returns rn'"
    using select_step_returns [of rn asserts ops e] assms by (auto simp: told_once_def selects_def)
  moreover have "\<not> sl_txn_unknown (failing_select e)" by (simp add: failing_select_def)
  ultimately show ?thesis using delivered_step.select [OF Selecting] by blast
next
  case Waiting
  obtain rn' where "wait_step asserts (kill_answers pipe) rn = Returns rn'"
    using wait_step_returns [of pipe rn asserts] assms by (auto simp: told_once_def)
  moreover have "pipe_answers pipe (kill_answers pipe)" "undisturbed (kill_answers pipe)"
    by (simp_all add: pipe_answers_def undisturbed_def kill_answers_def)
  ultimately show ?thesis using delivered_step.wait [OF Waiting] by blast
qed (use assms in simp)

text \<open>
  Being undisturbed is needed: \<^verbatim>\<open>poll()\<close> comes after \<^verbatim>\<open>PQnotifies()\<close>, so a runner that finds a
  notification every time serves its commands and never looks at its pipe.
\<close>

lemma notified_before_kill:
  "wt_notify w = Some payload \<Longrightarrow> wait_step asserts w rn = Returns rn' \<Longrightarrow> rn_keep_running rn' = rn_keep_running rn"
  by (auto simp: wait_step_def on_notify_def Let_def split: if_splits sum.splits option.splits)

section \<open>All threads\<close>

definition told_thread :: "thread \<Rightarrow> bool" where
  "told_thread th \<longleftrightarrow> (case th_run th of None \<Rightarrow> False | Some rn \<Rightarrow> told_once (th_kill_pipe th) rn)"

definition thread_rank :: "thread \<Rightarrow> nat" where
  "thread_rank th = (case th_run th of None \<Rightarrow> 0 | Some rn \<Rightarrow> delivery_rank rn)"

lemma thread_rank_le: "thread_rank th \<le> 7"
  by (simp add: thread_rank_def delivery_rank_le split: option.split)

lemma told_thread_step:
  assumes "delivered_thread_step asserts cmdqd_env k th th'" and "told_thread th"
  shows "told_thread th' \<and> thread_rank th' < thread_rank th"
  using assms
  by (auto simp: told_thread_def thread_rank_def elim!: delivered_thread_stepE dest: delivered_step_told)

lemma told_thread_progress:
  assumes "told_thread th" and "thread_rank th \<noteq> 0"
  shows "\<exists>th'. delivered_thread_step asserts cmdqd_env k th th'"
proof -
  obtain rn where rn: "th_run th = Some rn" "told_once (th_kill_pipe th) rn" "rn_phase rn \<noteq> Gone"
    using assms by (auto simp: told_thread_def thread_rank_def delivery_rank_0 split: option.splits)
  show ?thesis
    using delivered_progress [OF rn(2,3), of asserts cmdqd_env "nix_ops asserts"]
      delivered_progress [OF rn(2,3), of asserts cmdqd_env sql_ops] rn(1)
    by (cases k) (blast intro: delivered_thread_step.intros)+
qed

interpretation told_threads:
  ending_threads "\<lambda>_. told_thread" thread_rank "delivered_thread_step asserts cmdqd_env" for asserts cmdqd_env
proof unfold_locales
  fix th
  assume "told_thread th" and "thread_rank th = 0"
  then show "thread_ended th"
    by (auto simp: told_thread_def thread_rank_def thread_ended_def delivery_rank_0 split: option.splits)
qed (use told_thread_step told_thread_progress in blast)+

text \<open>A runner that a signal will reach, or that needs none.\<close>

definition reachable_by_kill :: "thread \<Rightarrow> bool" where
  "reachable_by_kill th \<longleftrightarrow>
     (case th_run th of
        None \<Rightarrow> False
      | Some rn \<Rightarrow> rn_phase rn = Gone \<or> \<not> rn_keep_running rn \<or> rn_running rn \<and> th_kill_pipe th = [] \<and> selects rn)"

lemma told_reachable: "reachable_by_kill th \<Longrightarrow> told_thread (told s th)"
  by (auto simp: reachable_by_kill_def told_thread_def told_once_def told_def thread_running_def split: option.splits)

lemma keys_tell_all: "keys (tell_all s mg) = keys mg"
  by (simp add: keys_def tell_all_def case_prod_beta comp_def)

lemma joining_daemon_steps:
  assumes "(joining (delivered_thread_step asserts cmdqd_env) ^^ n) mg mg'"
  shows "(daemon_step asserts what cmdqd_env)\<^sup>*\<^sup>* \<lparr>dm_phase = Before_joining, dm_manager = mg\<rparr>
    \<lparr>dm_phase = Before_joining, dm_manager = mg'\<rparr>"
  using assms
proof (induction n arbitrary: mg')
  case (Suc n)
  from Suc.prems obtain mg1 where first: "(joining (delivered_thread_step asserts cmdqd_env) ^^ n) mg mg1"
    and last: "joining (delivered_thread_step asserts cmdqd_env) mg1 mg'" by auto
  from last have "daemon_step asserts what cmdqd_env \<lparr>dm_phase = Before_joining, dm_manager = mg1\<rparr>
      \<lparr>dm_phase = Before_joining, dm_manager = mg'\<rparr>"
    by (auto elim!: joiningE intro!: daemon_step.thread dest: delivered_is_thread_step)
  with Suc.IH [OF first] show ?case by (rule rtranclp.rtrancl_into_rtrancl)
qed simp

text \<open>
  C12. A stop signal brings the whole daemon to its end: from the state in which \<^verbatim>\<open>main\<close> enters
  \<^verbatim>\<open>stop_all_runners\<close>, with every runner thread started, connected and not yet told anything (or on
  its way out already), the runners read the number that was written to their pipes and take at
  most seven steps each, in any order; as long as they have not all ended one of them can go on;
  and when none can, \<^verbatim>\<open>join_all_threads\<close> returns and the daemon finishes.  The steps are those in which
  the connection holds, no notification is found and \<^verbatim>\<open>poll()\<close> is not interrupted; what the server
  answers, and how a command that is running at that time ends, is left open.
\<close>

theorem stop_signal_ends_daemon:
  assumes "dm_phase dm = Before_stopping" and "distinct (keys (dm_manager dm))" and "fits writes"
    and "\<And>c k th. served (dm_manager dm) c = Some (k, th) \<Longrightarrow> reachable_by_kill th"
    and "stop_all_runners sig_recv writes (dm_manager dm) = Returns mg"
    and "(joining (delivered_thread_step asserts cmdqd_env) ^^ n) mg mg'"
  shows "(daemon_step asserts what cmdqd_env)\<^sup>*\<^sup>* dm \<lparr>dm_phase = Before_joining, dm_manager = mg'\<rparr> \<and>
    n \<le> 7 * length (keys (dm_manager dm)) \<and>
    ((\<exists>mg''. joining (delivered_thread_step asserts cmdqd_env) mg' mg'') \<or>
     daemon_step asserts what cmdqd_env \<lparr>dm_phase = Before_joining, dm_manager = mg'\<rparr>
       \<lparr>dm_phase = Finished, dm_manager = mg'\<rparr>)"
proof -
  let ?s = "sig_num_received sig_recv [SIGQUIT, SIGTERM, SIGINT]"
  have mg: "mg = tell_all ?s (dm_manager dm)"
    using assms(5) by (simp add: stop_all_runners_def tell_all_def kill_all_told [OF assms(3)] Let_def
        del: sig_num_received.simps)
  have told: "all_threads (\<lambda>_. told_thread) mg"
    using assms(4) told_reachable by (auto simp: all_threads_def mg served_tell_all)
  have keys: "keys mg = keys (dm_manager dm)" by (simp only: mg keys_tell_all)
  note bounded = told_threads.joining_bounded [OF assms(6) told]
  have "total_rank thread_rank mg \<le> 7 * length (keys mg)" by (rule total_rank_le) (rule thread_rank_le)
  with bounded have "n \<le> 7 * length (keys mg)" by linarith
  then have n: "n \<le> 7 * length (keys (dm_manager dm))" by (simp only: keys)
  have "distinct (keys mg')" using bounded keys assms(2) by simp
  then have "(\<exists>mg''. joining (delivered_thread_step asserts cmdqd_env) mg' mg'') \<or> join_all_threads mg' = Returns mg'"
    using bounded by (intro told_threads.joining_progress) blast+
  moreover have "dm = \<lparr>dm_phase = Before_stopping, dm_manager = dm_manager dm\<rparr>" using assms(1) by (cases dm) simp
  then have "daemon_step asserts what cmdqd_env dm \<lparr>dm_phase = Before_joining, dm_manager = mg\<rparr>"
    using daemon_step.stop [OF assms(5), of asserts what cmdqd_env] by simp
  ultimately show ?thesis
    using n joining_daemon_steps [OF assms(6), of what] daemon_step.join [of mg' mg' asserts what cmdqd_env]
    by (blast intro: converse_rtranclp_into_rtranclp)
qed

definition waiting_runner :: runner where
  "waiting_runner = (runner_init example_queue_row)\<lparr>rn_phase := Waiting, rn_conn := Some CONNECTION_OK\<rparr>"

theorem stop_signal_ends_daemon_witness:
  "\<exists>mg'. (daemon_step True (\<lambda>_. []) [])\<^sup>*\<^sup>* (daemon_with Before_stopping (begun_thread waiting_runner))
      \<lparr>dm_phase = Before_joining, dm_manager = mg'\<rparr> \<and> join_all_threads mg' = Returns mg'"
proof -
  let ?dm = "daemon_with Before_stopping (begun_thread waiting_runner)"
  let ?mg = "tell_all SIGTERM (dm_manager ?dm)"
  have keys: "keys (dm_manager ?dm) = [''q'']"
    by (simp add: keys_def daemon_with_def set_thread_def example_manager_def make_instance_def)
  have served: "served (dm_manager ?dm) c = Some (k, th) \<Longrightarrow> reachable_by_kill th" for c k th
    by (auto simp: reachable_by_kill_def begun_thread_def new_thread_def waiting_runner_def runner_init_def selects_def
        example_queue_row_def queue_from_def split: if_splits)
  have phase: "dm_phase ?dm = Before_stopping" and dist: "distinct (keys (dm_manager ?dm))"
    by (simp add: daemon_with_def) (simp add: keys)
  have stop: "stop_all_runners (\<lambda>s. s = SIGTERM) (\<lambda>_. [Wrote 4, Wrote 0]) (dm_manager ?dm) = Returns ?mg"
    by (simp add: stop_all_runners_def tell_all_def kill_all_told [OF fits_example] signal_defs)
  have "all_threads (\<lambda>_. told_thread) ?mg"
    using served told_reachable by (auto simp: all_threads_def served_tell_all simp del: daemon_with_served)
  with told_threads.joining_ends [of ?mg True "[]"] obtain n mg' where
    path: "(joining (delivered_thread_step True []) ^^ n) ?mg mg'" and "join_all_threads mg' = Returns mg'"
    by (auto simp: keys_tell_all keys)
  moreover have "(daemon_step True (\<lambda>_. []) [])\<^sup>*\<^sup>* ?dm \<lparr>dm_phase = Before_joining, dm_manager = mg'\<rparr>"
    by (rule stop_signal_ends_daemon [OF phase dist fits_example _ stop path, THEN conjunct1]) (rule served)
  ultimately show ?thesis by blast
qed

end
