(* ===== verification/SignalPath.thy ===== *)
theory SignalPath
  imports StopDelivery
begin

text \<open>
  A stop signal on its way from the operating system to \<^verbatim>\<open>stop_all_runners\<close>: the handler that \<^verbatim>\<open>main\<close>
  installs, the pipe to the loop around \<^verbatim>\<open>poll()\<close>, and the end of that loop.
\<close>

section \<open>The handlers\<close>

text \<open>The signals that have \<^verbatim>\<open>signal_handler\<close> as their action; the others keep theirs.\<close>

definition install_signal_handlers :: "signal set \<Rightarrow> signal set" where
  "install_signal_handlers handled = insert SIGQUIT (insert SIGINT (insert SIGTERM handled))"

text \<open>\<^verbatim>\<open>get_instance\<close> is null before \<^verbatim>\<open>make_instance\<close>.\<close>

definition signal_handler :: "write_result list \<Rightarrow> signal \<Rightarrow> manager option \<Rightarrow> manager option outcome" where
  "signal_handler writes sig_num inst =
     (case inst of
        None \<Rightarrow> Returns None
      | Some mg \<Rightarrow> bind_outcome (receive_signal writes sig_num mg) (\<lambda>mg'. Returns (Some mg')))"

section \<open>The pipe of the main thread\<close>

text \<open>
  \<^verbatim>\<open>poll()\<close> reports the pipe exactly when it holds a number, and the first \<^verbatim>\<open>read()\<close> takes its four
  bytes; an \<^verbatim>\<open>EINTR\<close>, from the handler itself, comes before.
\<close>

definition main_pipe_answers :: "signal list \<Rightarrow> listen_turn \<Rightarrow> bool" where
  "main_pipe_answers pipe t \<longleftrightarrow>
     (case ln_poll t of
        Inl e \<Rightarrow> e = EINTR
      | Inr (conn_ready, kill_ready) \<Rightarrow> kill_ready = (pipe \<noteq> [])) \<and>
     (case pipe of [] \<Rightarrow> True | s # _ \<Rightarrow> take 1 (ln_kill_reads t) = [Got (signal_bytes s)])"

lemma read_signal_done: "4 \<le> n \<Longrightarrow> read_signal_loop as n"
  by (cases "(as, n)" rule: read_signal_loop.cases) simp_all

lemma read_signal_number: "take 1 reads = [Got (signal_bytes s)] \<Longrightarrow> read_signal_loop reads 0"
  by (cases reads) (simp_all add: signal_bytes_def Let_def read_signal_done)

lemma listen_step_signalled:
  assumes "listen_step asserts what t mg = Returns (left, mg')" and "main_pipe_answers pipe t" and "pipe \<noteq> []"
    and "mg_keep_running mg"
  shows "\<not> left \<and> (if ln_poll t = Inl EINTR then mg' = mg else \<not> mg_keep_running mg')"
proof (cases "ln_poll t")
  case (Inl e)
  with assms show ?thesis by (auto simp: listen_step_def main_pipe_answers_def)
next
  case (Inr p)
  then obtain conn_ready where p: "ln_poll t = Inr (conn_ready, True)"
    using assms(2,3) by (cases p) (auto simp: main_pipe_answers_def)
  have "read_signal_loop (ln_kill_reads t) 0"
    using assms(2,3) by (intro read_signal_number [of _ "hd pipe"]) (auto simp: main_pipe_answers_def split: list.splits)
  with p assms(1,4) show ?thesis
    by (auto simp: listen_step_def bind_outcome_Returns_iff)
qed

lemma receive_stop_signal:
  assumes "sig_num \<in> {SIGTERM, SIGINT, SIGQUIT}"
  shows "receive_signal [Wrote 4] sig_num mg =
    Returns (mg\<lparr>mg_sig_recv := (mg_sig_recv mg)(sig_num := True), mg_kill_pipe := mg_kill_pipe mg @ [sig_num]\<rparr>)"
  using assms by (auto simp: receive_signal_def Let_def)

text \<open>
  C11. A \<^verbatim>\<open>SIGTERM\<close>, \<^verbatim>\<open>SIGINT\<close> or \<^verbatim>\<open>SIGQUIT\<close> takes the main thread out of its loop: these three have a
  handler, which writes the number into the pipe; every turn of the loop that follows either was
  interrupted and changes nothing, or ends with \<^verbatim>\<open>_keep_running\<close> off, whatever notifications it
  served before; and the turn after it leaves the loop.  When \<^verbatim>\<open>poll()\<close> reports nothing but the
  pipe, the main thread is before \<^verbatim>\<open>stop_all_runners\<close> three steps after the signal, with the runners
  as they were.
\<close>

theorem stop_signal_leaves_listening:
  assumes "sig_num \<in> install_signal_handlers {}" and "mg_keep_running mg"
    and "signal_handler [Wrote 4] sig_num (Some mg) = Returns (Some mg1)"
  shows "daemon_step asserts what cmdqd_env \<lparr>dm_phase = Listening, dm_manager = mg\<rparr> \<lparr>dm_phase = Listening, dm_manager = mg1\<rparr> \<and>
    mg_sig_recv mg1 sig_num \<and> mg_kill_pipe mg1 \<noteq> [] \<and>
    (\<forall>t left mg2. main_pipe_answers (mg_kill_pipe mg1) t \<longrightarrow> listen_step asserts what t mg1 = Returns (left, mg2) \<longrightarrow>
       \<not> left \<and> (if ln_poll t = Inl EINTR then mg2 = mg1
         else \<forall>t'. listen_step asserts what t' mg2 = Returns (True, mg2))) \<and>
    (\<exists>mg2. (daemon_step asserts what cmdqd_env ^^ 3) \<lparr>dm_phase = Listening, dm_manager = mg\<rparr>
       \<lparr>dm_phase = Before_stopping, dm_manager = mg2\<rparr> \<and> served mg2 = served mg)"
proof -
  have stop: "sig_num \<in> {SIGTERM, SIGINT, SIGQUIT}" using assms(1) by (auto simp: install_signal_handlers_def)
  have mg1: "mg1 = mg\<lparr>mg_sig_recv := (mg_sig_recv mg)(sig_num := True), mg_kill_pipe := mg_kill_pipe mg @ [sig_num]\<rparr>"
    using assms(3) receive_stop_signal [OF stop, of mg] by (simp add: signal_handler_def)
  then have keep: "mg_keep_running mg1" and pipe: "mg_kill_pipe mg1 \<noteq> []" and recv: "mg_sig_recv mg1 sig_num"
    using assms(2) by simp_all
  have handled: "daemon_step asserts what cmdqd_env \<lparr>dm_phase = Listening, dm_manager = mg\<rparr>
      \<lparr>dm_phase = Listening, dm_manager = mg1\<rparr>"
    unfolding mg1 by (rule daemon_step.handler [OF _ receive_stop_signal [OF stop]]) simp
  have over: "listen_step asserts what t mg2 = Returns (True, mg2)" if "\<not> mg_keep_running mg2" for t mg2
    using that by (simp add: listen_step_def)
  let ?mg2 = "mg1\<lparr>mg_keep_running := False\<rparr>"
  let ?t = "\<lparr>ln_poll = Inr (False, True), ln_notifies = [], ln_kill_reads = [Got (signal_bytes sig_num)]\<rparr>"
  have "listen_step asserts what ?t mg1 = Returns (False, ?mg2)"
    using keep read_signal_number [of "[Got (signal_bytes sig_num)]" sig_num] by (simp add: listen_step_def)
  from daemon_step.listen [OF this] have read: "daemon_step asserts what cmdqd_env
      \<lparr>dm_phase = Listening, dm_manager = mg1\<rparr> \<lparr>dm_phase = Listening, dm_manager = ?mg2\<rparr>" by simp
  have "listen_step asserts what ?t ?mg2 = Returns (True, ?mg2)" by (rule over) simp
  from daemon_step.listen [OF this] have "daemon_step asserts what cmdqd_env
      \<lparr>dm_phase = Listening, dm_manager = ?mg2\<rparr> \<lparr>dm_phase = Before_stopping, dm_manager = ?mg2\<rparr>" by simp
  with handled read have "(daemon_step asserts what cmdqd_env ^^ 3) \<lparr>dm_phase = Listening, dm_manager = mg\<rparr>
      \<lparr>dm_phase = Before_stopping, dm_manager = ?mg2\<rparr>"
    unfolding numeral_3_eq_3 by (blast intro: relpowp_Suc_I2 relpowp_0_I)
  moreover have "served ?mg2 = served mg" by (intro served_cong) (simp_all add: mg1)
  moreover have "\<not> left \<and> (if ln_poll t = Inl EINTR then mg2 = mg1
      else \<forall>t'. listen_step asserts what t' mg2 = Returns (True, mg2))"
    if "main_pipe_answers (mg_kill_pipe mg1) t" "listen_step asserts what t mg1 = Returns (left, mg2)" for t left mg2
    using listen_step_signalled [OF that(2,1) pipe keep] over by simp
  ultimately show ?thesis using handled recv pipe by blast
qed

theorem stop_signal_leaves_listening_witness:
  "\<exists>mg2. (daemon_step True (\<lambda>_. []) [] ^^ 3) \<lparr>dm_phase = Listening, dm_manager = example_manager\<rparr>
    \<lparr>dm_phase = Before_stopping, dm_manager = mg2\<rparr> \<and> served mg2 = served example_manager"
proof -
  have stop: "SIGTERM \<in> install_signal_handlers {}" and keep: "mg_keep_running example_manager"
    by (simp_all add: install_signal_handlers_def example_manager_def make_instance_def)
  have sent: "signal_handler [Wrote 4] SIGTERM (Some example_manager) =
      Returns (Some (example_manager\<lparr>mg_sig_recv := (mg_sig_recv example_manager)(SIGTERM := True),
        mg_kill_pipe := mg_kill_pipe example_manager @ [SIGTERM]\<rparr>))"
    by (simp add: signal_handler_def receive_stop_signal)
  show ?thesis
    using stop_signal_leaves_listening [OF stop keep sent, of True "\<lambda>_. []" "[]"] by blast
qed

end
