(* ===== verification/LoggerEnd.thy ===== *)
theory LoggerEnd
  imports LoggerProps SqlCmd
begin

text \<open>
  Streams into the log, and the end of the logger: its destructor runs when the program exits, and
  waits for the writer.
\<close>

section \<open>Streams\<close>

text \<open>The temporary that \<^verbatim>\<open>logstream\<close> returns, which is logged when it is destroyed.\<close>

record log_stream =
  ls_level :: log_level
  ls_text :: string

definition logstream :: "log_level \<Rightarrow> log_stream" where
  "logstream level = \<lparr>ls_level = level, ls_text = []\<rparr>"

text \<open>\<^verbatim>\<open><<\<close> of a text\<close>

definition stream_put :: "string \<Rightarrow> log_stream \<Rightarrow> log_stream" where
  "stream_put s st = st\<lparr>ls_text := ls_text st @ s\<rparr>"

definition stream_end :: "cmd_queue option \<Rightarrow> string \<Rightarrow> (string \<Rightarrow> string) \<Rightarrow> log_stream \<Rightarrow> logger \<Rightarrow> logger" where
  "stream_end cq now vsnprintf st lg = StreamToLog cq now vsnprintf (ls_level st) (ls_text st) lg"

lemma stream_puts: "fold stream_put ss st = st\<lparr>ls_text := ls_text st @ concat ss\<rparr>"
  by (induction ss arbitrary: st) (simp_all add: stream_put_def)

text \<open>A chain of \<^verbatim>\<open><<\<close> logs the texts one after the other as a single line, up to a \<^verbatim>\<open>NUL\<close>.\<close>

lemma stream_logs_once:
  "stream_end cq now vsnprintf (fold stream_put ss (logstream level)) lg =
    log cq now vsnprintf level (c_string (concat ss)) lg"
  by (simp add: stream_puts stream_end_def logstream_def StreamToLog_def)

section \<open>The destructor\<close>

text \<open>
  \<^verbatim>\<open>~Logger\<close>; \<open>rounds\<close> are the turns of the writer while it is joined, which returns when the writer
  has left.
\<close>

definition destroy_logger :: "wake_answers list \<Rightarrow> logger \<Rightarrow> logger outcome" where
  "destroy_logger rounds lg =
     (if lg_running lg
      then (let lg1 = fold writer_round rounds (quit lg) in
            if lg_writer lg1 = Left then Returns (lg1\<lparr>lg_file := None\<rparr>) else Waits)
      else Returns (lg\<lparr>lg_file := None\<rparr>))"

text \<open>
  The end of the program never hangs in it: it returns with the file closed, and of the lines that
  were queued at most the first 1001 have been written.
\<close>

lemma destroy_logger_returns:
  assumes "lg = logger_run es logger_init" and "lg_running lg" and "\<not> lg_reload lg"
    and "lg_writer lg \<noteq> Left" and "1002 \<le> length rounds"
  shows "\<exists>lg'. destroy_logger rounds lg = Returns lg' \<and> lg_file lg' = None \<and>
    lg_lines lg' = drop (if lg_writer lg = At_wait then 1001 else 1000) (lg_lines lg)"
  using writer_leaves [OF assms] assms(2) by (simp add: destroy_logger_def Let_def)

text \<open>After an explicit \<^verbatim>\<open>quit\<close> it only closes the file.\<close>

lemma destroy_after_quit: "\<not> lg_running lg \<Longrightarrow> destroy_logger rounds lg = Returns (lg\<lparr>lg_file := None\<rparr>)"
  by (simp add: destroy_logger_def)

end
