(* ===== verification/Usage.thy ===== *)
theory Usage
  imports DaemonMain
begin

text \<open>
  \<^verbatim>\<open>pg_cmdqd_usage\<close> (\<^verbatim>\<open>pg_cmd_queue_daemon.cpp\<close>): the text that \<^verbatim>\<open>--help\<close> prints, with the log levels
  that \<^verbatim>\<open>--log-level\<close> accepts.  \<open>program\<close> is the base name of the program.
\<close>

definition link :: "string \<Rightarrow> string" where
  "link s = [escape] @ ''[4;34m'' @ s @ [escape] @ ''[24;0m''"

text \<open>The quotation marks, in UTF-8\<close>

abbreviation open_quote :: string where "open_quote \<equiv> [CHR 0xE2, CHR 0x80, CHR 0x9C]"
abbreviation close_quote :: string where "close_quote \<equiv> [CHR 0xE2, CHR 0x80, CHR 0x9D]"

definition print_lines :: "string list \<Rightarrow> string" where
  "print_lines ls = concat (map (\<lambda>l. l @ [newline]) ls)"

definition usage_head :: "string \<Rightarrow> string list" where
  "usage_head program =
     [''Usage:'',
      ''    '' @ bold program @ '' [ '' @ bold ''options'' @ '' ] '' @ bold ''<connection_string>'',
      ''    '' @ bold program @ '' '' @ bold ''--help'' @ '' | '' @ bold ''-h'',
      [],
      ''Options:'',
      ''    '' @ bold ''--log-level <log_level>'',
      ''    '' @ bold ''--log-times'' @ '' | '' @ bold ''--no-log-times'' @ ''      Include the time in log messages (the default), or not.'',
      ''    '' @ bold ''--cmd-queue <cmd_class>'' @ ''           Can be repeated for every queue you want to run.'',
      ''    '' @ bold ''--emit-sigusr1-when-ready'',
      ''    '' @ bold ''--list-queue-names'' @ ''                returns values you can give to --cmd-queue'',
      [],
      bold ''<connection_string>'',
      ''    Can be in keyword/value or in URI format, as per the libpq documentation:'',
      ''    '' @ link ''https://www.postgresql.org/docs/current/libpq-connect.html#LIBPQ-CONNSTRING'',
      [],
      ''    Thanks to libpq, most connection parameter values can also be set via'',
      ''    environment variables: '' @ link ''https://www.postgresql.org/docs/current/libpq-envars.html'',
      [],
      bold ''<log_level>'',
      ''    Each next/higher log level includes the previous/lower log levels:'']"

text \<open>A \<^verbatim>\<open>std::map\<close> is iterated in the order of its keys.\<close>

definition level_order :: "log_level list" where
  "level_order = sort (map snd StringToLogLevel)"

fun usage_levels :: "log_level list \<Rightarrow> string" where
  "usage_levels [] = []"
| "usage_levels [l] = bold (the (LogLevelToString l)) @ [newline]"
| "usage_levels (l # ls) = bold (the (LogLevelToString l)) @ '' | '' @ usage_levels ls"

definition usage_tail :: "string list" where
  "usage_tail =
     [[],
      ''    You are free to put a '' @ bold ''LOG_'' @ '' prefix in front of the message severity level.'',
      [],
      ''    Except for '' @ bold ''NONE'' @ '', these log levels are identical to Postgres'' @ [CHR 0x27] @ '' own '' @ open_quote @ ''Message Severity Levels'' @ close_quote @ '':'',
      ''    '' @ link ''https://www.postgresql.org/docs/current/runtime-config-logging.html#RUNTIME-CONFIG-LOGGING-WHEN'',
      [],
      ''    The default log level is '' @ bold ''INFO'' @ '' (unlike Postgres itself, where it is '' @ bold ''WARNING'' @ ''.'']"

definition pg_cmdqd_usage :: "string \<Rightarrow> string" where
  "pg_cmdqd_usage program =
     print_lines (usage_head program) @ ''    '' @ usage_levels level_order @ print_lines usage_tail"

section \<open>The levels it names\<close>

lemma level_order_eq:
  "level_order = [LOG_NONE, LOG_PANIC, LOG_FATAL, LOG_LOG, LOG_ERROR, LOG_WARNING, LOG_NOTICE, LOG_INFO,
     LOG_DEBUG1, LOG_DEBUG2, LOG_DEBUG3, LOG_DEBUG4, LOG_DEBUG5]"
  by code_simp

text \<open>
  What the text calls the next higher level lets through all that the one before it does, and the
  names printed are the ones that the option takes, with and without the prefix.
\<close>

lemma usage_levels_increase: "sorted_wrt (\<lambda>a b. \<forall>l. level_is_logged a l \<longrightarrow> level_is_logged b l) level_order"
proof (rule sorted_wrt_mono_rel)
  show "sorted_wrt (\<le>) level_order" by (simp add: level_order_def)
qed (auto simp: level_is_logged_def intro: order_trans)

lemma usage_levels_accepted:
  assumes "l \<in> set level_order"
  shows "map_of StringToLogLevel (normalize_log_level (the (LogLevelToString l))) = Some l"
    and "map_of StringToLogLevel (normalize_log_level (''LOG_'' @ the (LogLevelToString l))) = Some l"
  by (simp_all only: level_names option.sel normalize_level_names)

end
