(* ===== verification/Spec2Isabelle.thy ===== *)
theory Spec2Isabelle
  imports RowExec PqRaii QueueTypes DaemonStop SqlProps RunnerProps ManagerProps DaemonEnd LoggerProps DaemonMain
    WithCmdqd NixQueueTool NixTest StderrProps PqCalls SignalPath LoggerEnd Usage
begin

text \<open>
  Verification of \<^verbatim>\<open>pg_cmdqd\<close>, the daemon of pg_cmd_queue (directory \<^verbatim>\<open>src/pg_cmdqd\<close>).

  \<^bold>\<open>The program.\<close>  A table \<^verbatim>\<open>cmdqd.cmd_queue\<close> lists queues; each row of a queue is a command, either
  a program to execute (a nix command) or an SQL text.  The main thread of the daemon
  (\<^verbatim>\<open>pg_cmd_queue_daemon.cpp\<close>, \<^verbatim>\<open>cmdqueuerunnermanager.cpp\<close>) reads the list, starts one thread for
  every queue, refreshes the list when it is notified of a change, and on a signal stops and joins
  the threads.  A thread (\<^verbatim>\<open>cmdqueuerunner.h\<close>) selects commands one by one, runs them
  (\<^verbatim>\<open>nixqueuecmd.cpp\<close>, \<^verbatim>\<open>sqlqueuecmd.cpp\<close>) and writes the outcome back, all in one transaction.
  \<^verbatim>\<open>logger.cpp\<close> has a thread of its own; \<^verbatim>\<open>with_cmdqd.cpp\<close> and \<^verbatim>\<open>pg_nix_queue_cmd.cpp\<close> are
  programs beside the daemon.

  \<^bold>\<open>How it is modelled.\<close>  Objects are records with a prefix per class (\<open>rn_\<close> for
  \<^verbatim>\<open>CmdQueueRunner\<close>, \<open>mg_\<close> for \<^verbatim>\<open>CmdQueueRunnerManager\<close>, \<open>nx_\<close>, \<open>sq_\<close>, \<open>cq_\<close>, \<open>md_\<close>, \<open>lg_\<close>,
  \<open>wp_\<close>), and each member function is a function on them.  What comes from outside, the answers of
  PostgreSQL, of system calls and of clocks, is an argument; so a theorem about a function holds
  whatever is answered.  What a function does to the outside, the statements it sends, the signals
  and the bytes, is kept in the record.  An exception is \<open>Inl\<close> of a sum (\<open>fault\<close>), with a failed
  assertion as one of its values; \<open>outcome\<close> adds blocking forever (\<open>Waits\<close>) and undefined
  behaviour.  Loops are structural recursions on the answers that they consume; the one scanner
  whose position may jump (\<^verbatim>\<open>from_text_array\<close>) is a \<open>partial_function\<close>, which
  \<open>array_parser_total\<close> shows to return always.  Concurrency is interleaving: the runner is a step
  relation of three nested loops, and the daemon one of the main thread, all runner threads and
  signals.

  \<^bold>\<open>Foundations.\<close>  \<open>Prelude\<close> has the faults, the actions of a \<^verbatim>\<open>try\<close> block, C strings and the
  contracts of scanners and of text formats as locales.  \<open>CxxStd\<close> models \<^verbatim>\<open>stoi\<close>, \<^verbatim>\<open>stod\<close>,
  \<^verbatim>\<open>to_string\<close> and \<^verbatim>\<open>%f\<close>.  \<open>Utils\<close> holds \<^verbatim>\<open>utils.cpp\<close>, \<^verbatim>\<open>sigstate.cpp\<close> and the log levels
  of \<^verbatim>\<open>logger.h\<close>, with their order as an instance of \<open>linorder\<close>.

  \<^bold>\<open>Text formats and results\<close> (\<^verbatim>\<open>pq-raii/libpq-raii.hpp\<close>).  \<open>TextQuoting\<close>, \<open>TextArray\<close>,
  \<open>TextComposite\<close> and \<open>TextHstore\<close> are the printers and parsers, each parser with an interpretation
  of the scanner and format contracts; \<open>FormatProps\<close> says what they make of the text that their
  printer or PostgreSQL produces.  \<open>PqResult\<close> has the accessors of a result, \<open>PqRaii\<close> the ownership
  of results, the iteration over tuples and what the parameters of a statement become, and \<open>PqCalls\<close>
  what libpq is called with, which for the statements of a runner is shown to be within bounds, the
  accessors by name, notifications and the escape functions.

  \<^bold>\<open>Commands.\<close>  \<open>CmdQueueMeta\<close> builds \<^verbatim>\<open>CmdQueue\<close> and \<^verbatim>\<open>QueueCmdMetadata\<close> from a row, which
  \<open>QueueTypes\<close> shows to be well typed.  \<open>NixCmd\<close> is \<^verbatim>\<open>NixQueueCmd\<close> without \<^verbatim>\<open>run_cmd\<close>, which \<open>Fds\<close>
  (descriptors), \<open>Turns\<close> (what the system answers in one turn of the loop) and \<open>NixRun\<close> model, with
  the facts in \<open>NixRunFacts\<close> and the properties in \<open>NixRunProps\<close>: every child is reaped and its
  outcome recorded, no signal is sent after that, the standard input is sent in order and without
  a gap, the descriptors are closed, the timeout is enforced on silence.  \<open>StderrProps\<close> compares
  the two ways in which the standard error is logged; \<open>RowExec\<close> follows a row to the program that
  is executed.  \<open>SqlCmd\<close> and \<open>SqlProps\<close> are \<^verbatim>\<open>SqlQueueCmd\<close> with its savepoint protocol.
  \<open>QueueCmd\<close> is the interface of both kinds, a locale interpreted for each.

  \<^bold>\<open>Runners.\<close>  \<open>Connection\<close> is \<^verbatim>\<open>maintain_connection\<close> with its back-off.  \<open>Runner\<close> is the thread of
  a queue, phase by phase (\<open>connect_step\<close>, \<open>select_step\<close>, \<open>wait_step\<close>); \<open>RunnerProps\<close> shows that its
  calls follow the transaction protocol in every reachable state, that the row selected is the row
  updated, what a notification does, and how it stops.

  \<^bold>\<open>The daemon.\<close>  \<open>Manager\<close> is the main thread's object.  \<open>ManagerFacts\<close> has the abstraction to a
  registry of queues and the specification of a refresh.  \<open>Daemon\<close> is the whole as a step relation, with the
  contract of a thread as the locale \<open>thread_contract\<close>, interpreted in \<open>DaemonProps\<close>: one runner
  per queue, and a refresh that refines its specification.  \<open>DaemonEnd\<close> and \<open>ManagerProps\<close> show how
  runners end and what errors do.  \<open>ThreadEnd\<close> has the contract between \<^verbatim>\<open>join_all_threads\<close> and the
  threads (\<open>ending_threads\<close>), which is interpreted twice: in \<open>DaemonStop\<close> for runners that were told to
  stop, and in \<open>StopDelivery\<close> for runners that have yet to read the signal from their pipe.
  \<open>SignalPath\<close> follows the signal from its handler to \<^verbatim>\<open>stop_all_runners\<close>; together the two say that a
  stop signal ends the daemon.  \<open>DaemonMain\<close> is the environment and the command line, \<open>Usage\<close> the
  text of \<^verbatim>\<open>--help\<close>.

  \<^bold>\<open>Others.\<close>  \<open>Logger\<close> and \<open>LoggerProps\<close>: the queue of log lines refines a channel, and the writer
  leaves after \<^verbatim>\<open>quit\<close>; \<open>LoggerEnd\<close>: streams and the destructor.  \<open>WithCmdqd\<close> and \<open>NixQueueTool\<close>: the two programs beside the daemon.
  \<open>NixTest\<close>: \<^verbatim>\<open>nixtestcmd\<close>, the program that the commands of the SQL tests execute.

  \<^bold>\<open>Bounds.\<close>  A list of answers that is too short makes the outcome \<open>Waits\<close>, which stands for a
  call that never returns; theorems that promise a result say which answers are given.  Integers are
  mathematical where the code cannot leave their range before other limits are met, and are cut where it matters:
  the range of \<^verbatim>\<open>stoi\<close>, the lengths of parameters (\<open>int_of_size\<close>), the log levels as 32-bit words.
  Doubles are rationals without rounding.

  \<^bold>\<open>Not modelled.\<close>  libpq, PostgreSQL and the SQL extension, which are inputs; \<^verbatim>\<open>vsnprintf\<close>, of which
  only that it is a function of the format is used; the usage texts of \<^verbatim>\<open>with_cmdqd\<close> and \<^verbatim>\<open>pg_nix_queue_cmd\<close> and messages on the terminal; the
  functions that only forward a call to libpq, and \<^verbatim>\<open>connectdbParams\<close>, which nothing calls; data
  races on flags that several threads read and write; signals inside of the handlers of
  \<^verbatim>\<open>with_cmdqd\<close>; build files and scripts.
\<close>

end
